(* ===== verification/Prelude.thy ===== *)
theory Prelude
  imports Main "HOL-Library.Word"
begin

text \<open>
  Shared vocabulary of the development: the widths of the C integers, the bounded \<open>for\<close> loops of
  the sources as folds over an index range, and lemmas on words, lists and counting that several
  components use.
\<close>

unbundle bit_operations_syntax

type_synonym u8 = "8 word"
type_synonym u16 = "16 word"
type_synonym u32 = "32 word"
type_synonym u64 = "64 word"

named_theorems word_to_nat \<open>comparisons and arithmetic of words read as natural numbers\<close>

subsection \<open>Words read as natural numbers\<close>

lemma u64_bound: "unat (x :: u64) < 18446744073709551616"
  using unsigned_less [of x] by simp

lemma u32_bound: "unat (x :: u32) < 4294967296"
  using unsigned_less [of x] by simp

lemma u16_bound: "unat (x :: u16) < 65536"
  using unsigned_less [of x] by simp

lemma u8_bound: "unat (x :: u8) < 256"
  using unsigned_less [of x] by simp

lemmas [word_to_nat] = word_le_nat_alt word_less_nat_alt

lemma unat_minus_le [word_to_nat]:
  "unat b \<le> unat a \<Longrightarrow> unat (a - b) = unat a - unat (b :: 'a::len word)"
  by (simp add: unat_sub word_le_nat_alt)

lemma unat_plus_u64 [word_to_nat]:
  "unat a + unat b < 18446744073709551616 \<Longrightarrow> unat (a + b) = unat a + unat (b :: u64)"
  by (simp add: unat_word_ariths)

lemma word_eq_nat: "(a = b) = (unat a = unat (b :: 'a::len word))"
  by (simp add: word_unat_eq_iff)

lemma unat_u16_to_u64 [simp]: "unat (ucast (x :: u16) :: u64) = unat x"
  using u16_bound [of x] by (simp add: unsigned_ucast_eq take_bit_nat_def)

lemma unat_u32_to_u64 [simp]: "unat (ucast (x :: u32) :: u64) = unat x"
  using u32_bound [of x] by (simp add: unsigned_ucast_eq take_bit_nat_def)

lemma unat_u16_to_u32 [simp]: "unat (ucast (x :: u16) :: u32) = unat x"
  using u16_bound [of x] by (simp add: unsigned_ucast_eq take_bit_nat_def)

lemma unat_u8_to_u64 [simp]: "unat (ucast (x :: u8) :: u64) = unat x"
  using u8_bound [of x] by (simp add: unsigned_ucast_eq take_bit_nat_def)

subsection \<open>Bounded loops\<close>

text \<open>
  \<open>for_to n body s\<close> is \<^verbatim>\<open>for (i = 0; i < n; i++) body\<close> on the state \<open>s\<close>, for a body without
  early exit; an exit by \<^verbatim>\<open>return\<close> is written with \<open>for_list\<close>, which stops as soon as the
  body yields \<open>Inl\<close>.
\<close>

definition for_to :: "nat \<Rightarrow> (nat \<Rightarrow> 's \<Rightarrow> 's) \<Rightarrow> 's \<Rightarrow> 's" where
  "for_to n body s = fold body [0..<n] s"

fun for_list :: "nat list \<Rightarrow> (nat \<Rightarrow> 's \<Rightarrow> 'e + 's) \<Rightarrow> 's \<Rightarrow> 'e + 's" where
  "for_list [] body s = Inr s"
| "for_list (i # is) body s = (case body i s of Inl e \<Rightarrow> Inl e | Inr s' \<Rightarrow> for_list is body s')"

lemma for_to_0 [simp]: "for_to 0 body s = s"
  by (simp add: for_to_def)

lemma for_to_Suc: "for_to (Suc n) body s = body n (for_to n body s)"
  by (simp add: for_to_def)

lemma for_to_invariant:
  assumes "P 0 s" and "\<And>i t. i < n \<Longrightarrow> P i t \<Longrightarrow> P (Suc i) (body i t)"
  shows "P n (for_to n body s)"
  using assms by (induction n) (auto simp: for_to_Suc)

lemma for_to_frame:
  assumes "\<And>i t. i < n \<Longrightarrow> f (body i t) = f t"
  shows "f (for_to n body s) = f s"
  using assms by (induction n) (auto simp: for_to_Suc)

end
