(* ===== verification/ByteMem.thy ===== *)
theory ByteMem
  imports Prelude
begin

text \<open>
  The byte buffers of the C code (the \<^verbatim>\<open>entries\<close> array of the log, the snapshots) as functions
  from addresses to bytes, with the little-endian accesses that a struct overlaid on such a buffer
  performs on x86-64.
\<close>

type_synonym mem = "nat \<Rightarrow> u8"

fun rd_nat :: "nat \<Rightarrow> mem \<Rightarrow> nat \<Rightarrow> nat" where
  "rd_nat 0 m a = 0"
| "rd_nat (Suc k) m a = unat (m a) + 256 * rd_nat k m (Suc a)"

fun le_bytes :: "nat \<Rightarrow> nat \<Rightarrow> u8 list" where
  "le_bytes 0 v = []"
| "le_bytes (Suc k) v = of_nat (v mod 256) # le_bytes k (v div 256)"

definition write_bytes :: "mem \<Rightarrow> nat \<Rightarrow> u8 list \<Rightarrow> mem" where
  "write_bytes m a bs = (\<lambda>x. if a \<le> x \<and> x < a + length bs then bs ! (x - a) else m x)"

definition read_bytes :: "mem \<Rightarrow> nat \<Rightarrow> nat \<Rightarrow> u8 list" where
  "read_bytes m a n = map (\<lambda>i. m (a + i)) [0..<n]"

definition rd8 :: "mem \<Rightarrow> nat \<Rightarrow> u8" where "rd8 m a = m a"
definition rd16 :: "mem \<Rightarrow> nat \<Rightarrow> u16" where "rd16 m a = of_nat (rd_nat 2 m a)"
definition rd32 :: "mem \<Rightarrow> nat \<Rightarrow> u32" where "rd32 m a = of_nat (rd_nat 4 m a)"
definition rd64 :: "mem \<Rightarrow> nat \<Rightarrow> u64" where "rd64 m a = of_nat (rd_nat 8 m a)"

definition wr8 :: "mem \<Rightarrow> nat \<Rightarrow> u8 \<Rightarrow> mem" where "wr8 m a v = write_bytes m a [v]"
definition wr16 :: "mem \<Rightarrow> nat \<Rightarrow> u16 \<Rightarrow> mem" where "wr16 m a v = write_bytes m a (le_bytes 2 (unat v))"
definition wr32 :: "mem \<Rightarrow> nat \<Rightarrow> u32 \<Rightarrow> mem" where "wr32 m a v = write_bytes m a (le_bytes 4 (unat v))"
definition wr64 :: "mem \<Rightarrow> nat \<Rightarrow> u64 \<Rightarrow> mem" where "wr64 m a v = write_bytes m a (le_bytes 8 (unat v))"

lemmas rd_defs = rd8_def rd16_def rd32_def rd64_def
lemmas wr_defs = wr8_def wr16_def wr32_def wr64_def

subsection \<open>Frame: an access sees only its own bytes\<close>

definition same_on :: "nat \<Rightarrow> nat \<Rightarrow> mem \<Rightarrow> mem \<Rightarrow> bool" where
  "same_on a n m m' \<longleftrightarrow> (\<forall>x. a \<le> x \<and> x < a + n \<longrightarrow> m x = m' x)"

lemma same_on_refl [simp]: "same_on a n m m"
  by (simp add: same_on_def)

lemma same_on_trans: "same_on a n m m' \<Longrightarrow> same_on a n m' m'' \<Longrightarrow> same_on a n m m''"
  by (simp add: same_on_def)

lemma same_on_sub: "same_on a n m m' \<Longrightarrow> a \<le> b \<Longrightarrow> b + k \<le> a + n \<Longrightarrow> same_on b k m m'"
  by (simp add: same_on_def)

lemma rd_nat_same: "same_on a k m m' \<Longrightarrow> rd_nat k m a = rd_nat k m' a"
proof (induction k arbitrary: a)
  case 0
  show ?case by simp
next
  case (Suc k)
  have "same_on (Suc a) k m m'" using Suc.prems by (rule same_on_sub) auto
  moreover have "m a = m' a" using Suc.prems by (simp add: same_on_def)
  ultimately show ?case by (simp add: Suc.IH)
qed

lemma rd_same:
  "same_on a 1 m m' \<Longrightarrow> rd8 m a = rd8 m' a"
  "same_on a 2 m m' \<Longrightarrow> rd16 m a = rd16 m' a"
  "same_on a 4 m m' \<Longrightarrow> rd32 m a = rd32 m' a"
  "same_on a 8 m m' \<Longrightarrow> rd64 m a = rd64 m' a"
  using rd_nat_same [of a 2 m m'] rd_nat_same [of a 4 m m'] rd_nat_same [of a 8 m m']
  by (simp_all only: rd_defs) (simp_all add: same_on_def)

lemma read_bytes_same: "same_on a n m m' \<Longrightarrow> read_bytes m a n = read_bytes m' a n"
  by (simp add: read_bytes_def same_on_def)

lemma length_le_bytes [simp]: "length (le_bytes k v) = k"
  by (induction k arbitrary: v) auto

lemma same_on_write_bytes:
  "a + n \<le> b \<or> b + length bs \<le> a \<Longrightarrow> same_on a n m (write_bytes m b bs)"
  by (auto simp: same_on_def write_bytes_def)

lemma same_on_wr:
  "a + n \<le> b \<or> b + 1 \<le> a \<Longrightarrow> same_on a n m (wr8 m b v8)"
  "a + n \<le> b \<or> b + 2 \<le> a \<Longrightarrow> same_on a n m (wr16 m b v16)"
  "a + n \<le> b \<or> b + 4 \<le> a \<Longrightarrow> same_on a n m (wr32 m b v32)"
  "a + n \<le> b \<or> b + 8 \<le> a \<Longrightarrow> same_on a n m (wr64 m b v64)"
  by (simp_all add: wr_defs same_on_write_bytes)

subsection \<open>Round trips\<close>

lemma rd_nat_write_shift:
  "a < b \<Longrightarrow> rd_nat k (write_bytes m a (x # bs)) b = rd_nat k (write_bytes m (Suc a) bs) b"
proof (rule rd_nat_same)
  assume "a < b"
  then show "same_on b k (write_bytes m a (x # bs)) (write_bytes m (Suc a) bs)"
    by (auto simp: same_on_def write_bytes_def nth_Cons')
qed

lemma rd_nat_write_le_bytes: "rd_nat k (write_bytes m a (le_bytes k v)) a = v mod 256 ^ k"
proof (induction k arbitrary: a v)
  case 0
  show ?case by simp
next
  case (Suc k)
  have "write_bytes m a (le_bytes (Suc k) v) a = of_nat (v mod 256)"
    by (simp add: write_bytes_def)
  moreover have "rd_nat k (write_bytes m a (le_bytes (Suc k) v)) (Suc a) = (v div 256) mod 256 ^ k"
    by (simp add: rd_nat_write_shift Suc.IH)
  ultimately have "rd_nat (Suc k) (write_bytes m a (le_bytes (Suc k) v)) a
      = v mod 256 + 256 * ((v div 256) mod 256 ^ k)"
    by (simp add: unat_of_nat)
  also have "\<dots> = v mod 256 ^ Suc k"
    by (simp add: mod_mult2_eq)
  finally show ?case .
qed

lemma word_rd_wr:
  assumes "LENGTH('a) = 8 * k"
  shows "(of_nat (rd_nat k (write_bytes m a (le_bytes k (unat (v :: 'a::len word)))) a) :: 'a word) = v"
proof -
  have "unat v < 2 ^ LENGTH('a)" by (rule unsigned_less)
  then have "unat v < 256 ^ k" by (simp add: assms power_mult)
  then show ?thesis by (simp add: rd_nat_write_le_bytes)
qed

lemma rd_wr_same [simp]:
  "rd8 (wr8 m a v8) a = v8"
  "rd16 (wr16 m a v16) a = v16"
  "rd32 (wr32 m a v32) a = v32"
  "rd64 (wr64 m a v64) a = v64"
  unfolding rd_defs wr_defs
  by (simp add: write_bytes_def) (rule word_rd_wr, simp)+

lemma read_write_bytes [simp]: "read_bytes (write_bytes m a bs) a (length bs) = bs"
  by (rule nth_equalityI) (auto simp: read_bytes_def write_bytes_def)

subsection \<open>Reads next to a write, and of copied bytes\<close>

lemma rd_other:
  "same_on a 8 m m' \<Longrightarrow> rd64 m' a = rd64 m a"
  "same_on a 4 m m' \<Longrightarrow> rd32 m' a = rd32 m a"
  "same_on a 2 m m' \<Longrightarrow> rd16 m' a = rd16 m a"
  "same_on a 1 m m' \<Longrightarrow> rd8 m' a = rd8 m a"
  using rd_same [of a m m'] by simp_all

lemma rd64_wr_other [simp]:
  "a + 8 \<le> b \<or> b + 8 \<le> a \<Longrightarrow> rd64 (wr64 m b v) a = rd64 m a"
  "a + 8 \<le> b \<or> b + 2 \<le> a \<Longrightarrow> rd64 (wr16 m b w) a = rd64 m a"
  "a + 8 \<le> b \<or> b + 1 \<le> a \<Longrightarrow> rd64 (wr8 m b x) a = rd64 m a"
  "a + 8 \<le> b \<or> b + length bs \<le> a \<Longrightarrow> rd64 (write_bytes m b bs) a = rd64 m a"
  by (simp_all add: rd_other same_on_wr same_on_write_bytes)

lemma rd16_wr_other [simp]:
  "a + 2 \<le> b \<or> b + 8 \<le> a \<Longrightarrow> rd16 (wr64 m b v) a = rd16 m a"
  "a + 2 \<le> b \<or> b + 2 \<le> a \<Longrightarrow> rd16 (wr16 m b w) a = rd16 m a"
  "a + 2 \<le> b \<or> b + 1 \<le> a \<Longrightarrow> rd16 (wr8 m b x) a = rd16 m a"
  "a + 2 \<le> b \<or> b + length bs \<le> a \<Longrightarrow> rd16 (write_bytes m b bs) a = rd16 m a"
  by (simp_all add: rd_other same_on_wr same_on_write_bytes)

lemma rd8_wr_other [simp]:
  "a + 1 \<le> b \<or> b + 8 \<le> a \<Longrightarrow> rd8 (wr64 m b v) a = rd8 m a"
  "a + 1 \<le> b \<or> b + 2 \<le> a \<Longrightarrow> rd8 (wr16 m b w) a = rd8 m a"
  "a + 1 \<le> b \<or> b + 1 \<le> a \<Longrightarrow> rd8 (wr8 m b x) a = rd8 m a"
  "a + 1 \<le> b \<or> b + length bs \<le> a \<Longrightarrow> rd8 (write_bytes m b bs) a = rd8 m a"
  by (simp_all add: rd_other same_on_wr same_on_write_bytes)

lemma length_read_bytes [simp]: "length (read_bytes m a n) = n"
  by (simp add: read_bytes_def)

lemma rd_nat_copy:
  "i + k \<le> n \<Longrightarrow> rd_nat k (write_bytes m a (read_bytes d b n)) (a + i) = rd_nat k d (b + i)"
proof (induction k arbitrary: i)
  case 0
  show ?case by simp
next
  case (Suc k)
  have "write_bytes m a (read_bytes d b n) (a + i) = d (b + i)"
    using Suc.prems by (simp add: write_bytes_def read_bytes_def)
  then show ?case using Suc.IH [of "Suc i"] Suc.prems by simp
qed

lemma rd_copy:
  "i + 8 \<le> n \<Longrightarrow> rd64 (write_bytes m a (read_bytes d b n)) (a + i) = rd64 d (b + i)"
  "i + 4 \<le> n \<Longrightarrow> rd32 (write_bytes m a (read_bytes d b n)) (a + i) = rd32 d (b + i)"
  "i + 1 \<le> n \<Longrightarrow> rd8 (write_bytes m a (read_bytes d b n)) (a + i) = rd8 d (b + i)"
  unfolding rd64_def rd32_def by (simp only: rd_nat_copy)+ (simp add: rd8_def write_bytes_def read_bytes_def)

subsection \<open>Bytes of a list in a buffer\<close>

definition bytes_at :: "mem \<Rightarrow> nat \<Rightarrow> u8 list \<Rightarrow> bool" where
  "bytes_at m a bs \<longleftrightarrow> (\<forall>i < length bs. m (a + i) = bs ! i)"

lemma bytes_at_append: "bytes_at m a (xs @ ys) \<longleftrightarrow> bytes_at m a xs \<and> bytes_at m (a + length xs) ys"
proof -
  have "\<exists>j < length ys. i = length xs + j" if "\<not> i < length xs" "i < length xs + length ys" for i
    using that by (intro exI [of _ "i - length xs"]) auto
  then show ?thesis
    by (auto simp: bytes_at_def nth_append add.assoc) (metis add_diff_cancel_left' add_less_cancel_left not_add_less1)
qed

lemma bytes_at_Nil [simp]: "bytes_at m a []"
  by (simp add: bytes_at_def)

lemma bytes_at_nth: "bytes_at m a bs \<Longrightarrow> i < length bs \<Longrightarrow> m (a + i) = bs ! i"
  by (simp add: bytes_at_def)

lemma bytes_at_read: "bytes_at m a bs \<Longrightarrow> read_bytes m a (length bs) = bs"
  by (rule nth_equalityI) (auto simp: bytes_at_def read_bytes_def)

lemma bytes_at_write: "bytes_at (write_bytes m a bs) a bs"
  by (simp add: bytes_at_def write_bytes_def)

lemma bytes_at_same: "bytes_at m a bs \<Longrightarrow> same_on a (length bs) m m' \<Longrightarrow> bytes_at m' a bs"
  by (simp add: bytes_at_def same_on_def)

end
