(* ===== verification/Config.thy ===== *)
theory Config
  imports Prelude
begin

text \<open>
  The group configuration of \<^verbatim>\<open>dare_config.h\<close>: configuration identifiers, their membership
  bitmask, and the two group sizes (with and without the servers that are being added). The
  functions of the C file take a whole \<^verbatim>\<open>server_config_t\<close> by value but read only its \<^verbatim>\<open>cid\<close>.
\<close>

record dare_cid_t =
  cid_epoch :: u64
  cid_size0 :: u8
  cid_size1 :: u8
  cid_state :: u8
  cid_bitmask :: u32

definition CID_STABLE :: u8 where "CID_STABLE = 0"
definition CID_TRANSIT :: u8 where "CID_TRANSIT = 1"
definition CID_EXTENDED :: u8 where "CID_EXTENDED = 2"

lemmas cid_states = CID_STABLE_def CID_TRANSIT_def CID_EXTENDED_def

text \<open>
  \<^verbatim>\<open>1 << idx\<close> is an \<^verbatim>\<open>int\<close> shift, defined for the indices below \<^verbatim>\<open>MAX_SERVER_COUNT\<close> that the code uses.
\<close>

definition CID_IS_SERVER_ON :: "dare_cid_t \<Rightarrow> nat \<Rightarrow> bool" where
  "CID_IS_SERVER_ON cid idx \<longleftrightarrow> cid_bitmask cid AND push_bit idx 1 \<noteq> 0"

definition CID_SERVER_ADD :: "dare_cid_t \<Rightarrow> nat \<Rightarrow> dare_cid_t" where
  "CID_SERVER_ADD cid idx = cid\<lparr>cid_bitmask := cid_bitmask cid OR push_bit idx 1\<rparr>"

definition CID_SERVER_RM :: "dare_cid_t \<Rightarrow> nat \<Rightarrow> dare_cid_t" where
  "CID_SERVER_RM cid idx = cid\<lparr>cid_bitmask := cid_bitmask cid AND NOT (push_bit idx 1)\<rparr>"

definition equal_cid :: "dare_cid_t \<Rightarrow> dare_cid_t \<Rightarrow> bool" where
  "equal_cid left_cid right_cid =
     (if cid_epoch left_cid \<noteq> cid_epoch right_cid then False
      else if cid_state left_cid \<noteq> cid_state right_cid then False
      else if cid_size0 left_cid \<noteq> cid_size0 right_cid then False
      else if cid_size1 left_cid \<noteq> cid_size1 right_cid then False
      else if cid_bitmask left_cid \<noteq> cid_bitmask right_cid then False
      else True)"

definition get_extended_group_size :: "dare_cid_t \<Rightarrow> u8" where
  "get_extended_group_size cid =
     (if CID_STABLE = cid_state cid then cid_size0 cid
      else if cid_size0 cid < cid_size1 cid then cid_size1 cid
      else cid_size0 cid)"

definition get_group_size :: "dare_cid_t \<Rightarrow> u8" where
  "get_group_size cid =
     (if CID_TRANSIT \<noteq> cid_state cid then cid_size0 cid
      else if cid_size0 cid < cid_size1 cid then cid_size1 cid
      else cid_size0 cid)"

subsection \<open>Membership\<close>

lemma push_one_bit:
  "bit (push_bit n 1 :: u32) i = (i = n \<and> n < 32)" "bit (2 ^ n :: u32) i = (i = n \<and> n < 32)"
  by (auto simp: bit_simps)

lemma CID_IS_SERVER_ON_bit: "CID_IS_SERVER_ON cid i = bit (cid_bitmask cid) i"
proof -
  have "cid_bitmask cid AND push_bit i 1 = 0 \<longleftrightarrow> \<not> bit (cid_bitmask cid) i"
    unfolding bit_eq_iff [where ?'a = "32 word"]
    using bit_imp_le_length [of "cid_bitmask cid" i] by (auto simp: bit_and_iff push_one_bit)
  then show ?thesis by (simp add: CID_IS_SERVER_ON_def)
qed

lemma CID_SERVER_ADD_on:
  "i < 32 \<Longrightarrow> CID_IS_SERVER_ON (CID_SERVER_ADD cid i) j = (j = i \<or> CID_IS_SERVER_ON cid j)"
  by (auto simp: CID_IS_SERVER_ON_bit CID_SERVER_ADD_def bit_or_iff push_one_bit)

lemma CID_SERVER_RM_on:
  "CID_IS_SERVER_ON (CID_SERVER_RM cid i) j = (j \<noteq> i \<and> CID_IS_SERVER_ON cid j)"
  by (auto simp: CID_IS_SERVER_ON_bit CID_SERVER_RM_def bit_and_iff bit_not_iff push_one_bit
      dest: bit_imp_le_length)

lemma cid_server_fields [simp]:
  "cid_epoch (CID_SERVER_ADD cid i) = cid_epoch cid" "cid_epoch (CID_SERVER_RM cid i) = cid_epoch cid"
  "cid_size0 (CID_SERVER_ADD cid i) = cid_size0 cid" "cid_size0 (CID_SERVER_RM cid i) = cid_size0 cid"
  "cid_size1 (CID_SERVER_ADD cid i) = cid_size1 cid" "cid_size1 (CID_SERVER_RM cid i) = cid_size1 cid"
  "cid_state (CID_SERVER_ADD cid i) = cid_state cid" "cid_state (CID_SERVER_RM cid i) = cid_state cid"
  by (simp_all add: CID_SERVER_ADD_def CID_SERVER_RM_def)

lemma equal_cid_eq: "equal_cid c d = (c = d)"
  by (cases c; cases d) (auto simp: equal_cid_def)

lemma group_size_le_extended: "get_group_size cid \<le> get_extended_group_size cid"
  by (auto simp: get_group_size_def get_extended_group_size_def cid_states)

end
