(* ===== verification/Log.thy ===== *)
theory Log
  imports ByteMem Config
begin

text \<open>
  The replicated log of \<^verbatim>\<open>dare_log.h\<close>: a circular byte buffer \<open>l_mem\<close> in which entries of variable
  length are laid out one after the other, wrapping to offset 0 when the next entry does not fit
  before \<open>l_len\<close>. An entry pointer of the C code is the offset of the entry in the buffer. The
  first part translates the functions of the header; the second one relates the buffer to the list
  of entries it holds and proves that every function works on that list.
\<close>

subsection \<open>Data\<close>

definition NOOP :: u8 where "NOOP = 0"
definition CSM :: u8 where "CSM = 1"
definition CONFIG :: u8 where "CONFIG = 2"
definition HEAD :: u8 where "HEAD = 3"

lemmas entry_types = NOOP_def CSM_def CONFIG_def HEAD_def

definition sizeof_entry :: nat where "sizeof_entry = 48"
definition LOG_SIZE :: u64 where "LOG_SIZE = 16384 * 4096 * 30"
definition MAX_NC_ENTRIES :: nat where "MAX_NC_ENTRIES = 1024"

record dare_log_entry_det_t =
  det_idx :: u64
  det_term :: u64
  det_offset :: u64

record dare_nc_buf_t =
  nc_len :: u64
  nc_entries :: "nat \<Rightarrow> dare_log_entry_det_t"

record log_offsets_t =
  lo_head :: u64
  lo_apply :: u64
  lo_commit :: u64
  lo_end :: u64

record dare_log_t =
  l_head :: u64
  l_apply :: u64
  l_commit :: u64
  l_end :: u64
  l_tail :: u64
  l_len :: u64
  l_nc_buf :: "nat \<Rightarrow> dare_nc_buf_t"
  l_mem :: mem

text \<open>
  The fields of an entry at address \<open>a\<close> of the buffer, with the offsets that the x86-64 layout of
  \<^verbatim>\<open>struct dare_log_entry_t\<close> gives them: the union \<^verbatim>\<open>data\<close> is 8-byte aligned at 32, and \<^verbatim>\<open>sm_cmd_t\<close>
  is a 16-bit length followed by the bytes of the command.
\<close>

definition entry_idx :: "mem \<Rightarrow> nat \<Rightarrow> u64" where "entry_idx m a = rd64 m a"
definition entry_term :: "mem \<Rightarrow> nat \<Rightarrow> u64" where "entry_term m a = rd64 m (a + 8)"
definition entry_req_id :: "mem \<Rightarrow> nat \<Rightarrow> u64" where "entry_req_id m a = rd64 m (a + 16)"
definition entry_clt_id :: "mem \<Rightarrow> nat \<Rightarrow> u16" where "entry_clt_id m a = rd16 m (a + 24)"
definition entry_type :: "mem \<Rightarrow> nat \<Rightarrow> u8" where "entry_type m a = rd8 m (a + 26)"
definition entry_cmd_len :: "mem \<Rightarrow> nat \<Rightarrow> u16" where "entry_cmd_len m a = rd16 m (a + 32)"
definition entry_cmd :: "mem \<Rightarrow> nat \<Rightarrow> u8 list" where
  "entry_cmd m a = read_bytes m (a + 34) (unat (entry_cmd_len m a))"
definition rd_cid :: "mem \<Rightarrow> nat \<Rightarrow> dare_cid_t" where
  "rd_cid m a = \<lparr>cid_epoch = rd64 m a, cid_size0 = rd8 m (a + 8), cid_size1 = rd8 m (a + 9),
                cid_state = rd8 m (a + 10), cid_bitmask = rd32 m (a + 12)\<rparr>"
definition entry_cid :: "mem \<Rightarrow> nat \<Rightarrow> dare_cid_t" where "entry_cid m a = rd_cid m (a + 32)"
definition entry_head :: "mem \<Rightarrow> nat \<Rightarrow> u64" where "entry_head m a = rd64 m (a + 32)"

lemmas entry_fields = entry_idx_def entry_term_def entry_req_id_def entry_clt_id_def
  entry_type_def entry_cmd_len_def entry_cmd_def entry_cid_def entry_head_def rd_cid_def

subsection \<open>The operations\<close>

definition log_new :: dare_log_t where
  "log_new = \<lparr>l_head = 0, l_apply = 0, l_commit = 0, l_end = LOG_SIZE, l_tail = LOG_SIZE,
              l_len = LOG_SIZE,
              l_nc_buf = (\<lambda>_. \<lparr>nc_len = 0, nc_entries = (\<lambda>_. \<lparr>det_idx = 0, det_term = 0, det_offset = 0\<rparr>)\<rparr>),
              l_mem = (\<lambda>_. 0)\<rparr>"

definition is_log_empty :: "dare_log_t \<Rightarrow> bool" where
  "is_log_empty l \<longleftrightarrow> l_end l = l_len l"

definition is_log_full :: "dare_log_t \<Rightarrow> bool" where
  "is_log_full l \<longleftrightarrow> l_end l = l_head l"

definition not_committed_entries :: "dare_log_t \<Rightarrow> bool" where
  "not_committed_entries l \<longleftrightarrow> \<not> is_log_empty l \<and> l_commit l \<noteq> l_end l"

definition not_applied_entries :: "dare_log_t \<Rightarrow> bool" where
  "not_applied_entries l \<longleftrightarrow> \<not> is_log_empty l \<and> l_apply l \<noteq> l_commit l"

definition log_fit_entry_header :: "dare_log_t \<Rightarrow> u64 \<Rightarrow> bool" where
  "log_fit_entry_header l offset \<longleftrightarrow> l_len l - offset \<ge> of_nat sizeof_entry"

definition log_add_new_entry :: "dare_log_t \<Rightarrow> u64 option" where
  "log_add_new_entry l =
     (if is_log_full l then None
      else if is_log_empty l \<or> \<not> log_fit_entry_header l (l_end l) then Some 0
      else Some (l_end l))"

definition log_entry_len :: "dare_log_t \<Rightarrow> u64 \<Rightarrow> u32" where
  "log_entry_len l entry =
     (let ty = entry_type (l_mem l) (unat entry) in
      if ty = NOOP \<or> ty = CONFIG \<or> ty = HEAD then of_nat sizeof_entry
      else of_nat sizeof_entry + ucast (entry_cmd_len (l_mem l) (unat entry)))"

definition log_fit_entry :: "dare_log_t \<Rightarrow> u64 \<Rightarrow> u64 \<Rightarrow> bool" where
  "log_fit_entry l offset entry \<longleftrightarrow> l_len l - offset \<ge> ucast (log_entry_len l entry)"

definition log_offset_end_distance :: "dare_log_t \<Rightarrow> u64 \<Rightarrow> u64" where
  "log_offset_end_distance l offset =
     (if l_end l = l_len l then 0
      else if l_end l \<ge> offset then l_end l - offset
      else l_len l - (offset - l_end l))"

definition log_is_offset_larger :: "dare_log_t \<Rightarrow> u64 \<Rightarrow> u64 \<Rightarrow> bool" where
  "log_is_offset_larger l loffset roffset =
     (let a = (if l_end l = l_len l then 0
               else if l_end l \<ge> loffset then l_end l - loffset
               else l_len l - (loffset - l_end l));
          b = (if l_end l = l_len l then 0
               else if l_end l \<ge> roffset then l_end l - roffset
               else l_len l - (roffset - l_end l))
      in a < b)"

text \<open>The entry at an offset together with the offset as updated through the pointer argument.\<close>

definition log_get_entry :: "dare_log_t \<Rightarrow> u64 \<Rightarrow> u64 option \<times> u64" where
  "log_get_entry l offset =
     (if is_log_empty l then (None, offset)
      else if log_offset_end_distance l offset = 0 then (None, offset)
      else if \<not> log_fit_entry_header l offset then (Some 0, 0)
      else (Some offset, offset))"

text \<open>The common tail of the walking loops: the offset behind \<open>entry\<close>, found at \<open>offset\<close>.\<close>

definition log_next_offset :: "dare_log_t \<Rightarrow> u64 \<Rightarrow> u64 \<Rightarrow> u64" where
  "log_next_offset l offset entry =
     (if \<not> log_fit_entry l offset entry then 0 else offset) + ucast (log_entry_len l entry)"

text \<open>
  The loops that walk the log end only if the walk meets the end offset, so they are partial:
  \<open>None\<close> is the loop that never stops. The bound \<^verbatim>\<open>MAX_NC_ENTRIES\<close> is not checked by the code.
\<close>

partial_function (option) log_entries_to_nc_buf_loop ::
    "dare_log_t \<Rightarrow> dare_nc_buf_t \<Rightarrow> u64 \<Rightarrow> u64 \<Rightarrow> dare_nc_buf_t option" where
  [code]: "log_entries_to_nc_buf_loop l nc_buf offset len =
     (case log_get_entry l offset of
        (None, _) \<Rightarrow> Some (nc_buf\<lparr>nc_len := len\<rparr>)
      | (Some entry, offset') \<Rightarrow>
          log_entries_to_nc_buf_loop l
            (nc_buf\<lparr>nc_entries := (nc_entries nc_buf)(unat len :=
               \<lparr>det_idx = entry_idx (l_mem l) (unat entry),
                det_term = entry_term (l_mem l) (unat entry),
                det_offset = offset'\<rparr>)\<rparr>)
            (log_next_offset l offset' entry) (len + 1))"

definition log_entries_to_nc_buf :: "dare_log_t \<Rightarrow> dare_nc_buf_t \<Rightarrow> dare_nc_buf_t option" where
  "log_entries_to_nc_buf l nc_buf = log_entries_to_nc_buf_loop l nc_buf (l_commit l) 0"

text \<open>
  \<open>offset\<close> is not initialised when the remote buffer is empty: the argument \<open>uninit\<close> is the value
  the variable happens to have. The loop runs over the determinants of the remote buffer in order.
\<close>

fun log_find_remote_end_offset_loop ::
    "dare_log_t \<Rightarrow> dare_log_entry_det_t list \<Rightarrow> u64 \<Rightarrow> u64" where
  "log_find_remote_end_offset_loop l [] offset = offset"
| "log_find_remote_end_offset_loop l (d # ds) offset =
     (case log_get_entry l (det_offset d) of
        (None, offset') \<Rightarrow> offset'
      | (Some entry, offset') \<Rightarrow>
          if entry_idx (l_mem l) (unat entry) \<noteq> det_idx d \<or>
             entry_term (l_mem l) (unat entry) \<noteq> det_term d then offset'
          else log_find_remote_end_offset_loop l ds (log_next_offset l offset' entry))"

definition nc_list :: "dare_nc_buf_t \<Rightarrow> dare_log_entry_det_t list" where
  "nc_list nc_buf = map (nc_entries nc_buf) [0..<unat (nc_len nc_buf)]"

definition log_find_remote_end_offset :: "dare_log_t \<Rightarrow> dare_nc_buf_t \<Rightarrow> u64 \<Rightarrow> u64" where
  "log_find_remote_end_offset l nc_buf uninit = log_find_remote_end_offset_loop l (nc_list nc_buf) uninit"

text \<open>One of the three searches of \<^verbatim>\<open>log_get_tail\<close>.\<close>

partial_function (option) log_tail_from :: "dare_log_t \<Rightarrow> u64 \<Rightarrow> u64 \<Rightarrow> u64 option" where
  [code]: "log_tail_from l offset tail =
     (case log_get_entry l offset of
        (None, _) \<Rightarrow> Some tail
      | (Some entry, offset') \<Rightarrow> log_tail_from l (log_next_offset l offset' entry) offset')"

definition log_get_tail :: "dare_log_t \<Rightarrow> u64 option" where
  "log_get_tail l =
     (if l_tail l \<noteq> l_len l then Some (l_tail l)
      else if is_log_empty l then Some (l_len l)
      else Option.bind (log_tail_from l (l_commit l) (l_len l)) (\<lambda>tail.
             if tail \<noteq> l_len l then Some tail
             else Option.bind (log_tail_from l (l_apply l) tail) (\<lambda>tail.
               if tail \<noteq> l_len l then Some tail
               else log_tail_from l (l_head l) tail)))"

text \<open>
  The stores through \<^verbatim>\<open>entry\<close> that \<^verbatim>\<open>log_append_entry\<close> makes before it knows where the command goes.
\<close>

definition set_entry_header ::
    "dare_log_t \<Rightarrow> u64 \<Rightarrow> u64 \<Rightarrow> u64 \<Rightarrow> u64 \<Rightarrow> u16 \<Rightarrow> u8 \<Rightarrow> dare_log_t" where
  "set_entry_header l entry idx trm req_id clt_id type =
     (let a = unat entry in
      l\<lparr>l_mem := wr8 (wr16 (wr64 (wr64 (wr64 (l_mem l) a idx) (a + 8) trm) (a + 16) req_id)
                        (a + 24) clt_id) (a + 26) type\<rparr>)"

definition set_entry_cmd_len :: "dare_log_t \<Rightarrow> u64 \<Rightarrow> u16 \<Rightarrow> dare_log_t" where
  "set_entry_cmd_len l entry n = l\<lparr>l_mem := wr16 (l_mem l) (unat entry + 32) n\<rparr>"

definition set_entry_data :: "dare_log_t \<Rightarrow> u64 \<Rightarrow> nat \<Rightarrow> u8 list \<Rightarrow> dare_log_t" where
  "set_entry_data l entry at bs = l\<lparr>l_mem := write_bytes (l_mem l) (unat entry + at) bs\<rparr>"

text \<open>
  The \<^verbatim>\<open>switch\<close> on the type. The argument \<open>data\<close> is the memory behind the untyped pointer: the
  command is a length at offset 0 and its bytes from offset 2, a \<^verbatim>\<open>dare_cid_t\<close> is 16 bytes, a head
  offset is 8 bytes. The result is the entry that was filled, or \<open>None\<close> when the log is full.
\<close>

definition log_append_data ::
    "dare_log_t \<Rightarrow> u64 \<Rightarrow> u64 \<Rightarrow> u64 \<Rightarrow> u64 \<Rightarrow> u16 \<Rightarrow> u8 \<Rightarrow> mem \<Rightarrow> u64 option \<times> dare_log_t" where
  "log_append_data l entry idx trm req_id clt_id type data =
     (if type = CONFIG then (Some entry, set_entry_data l entry 32 (read_bytes data 0 16))
      else if type = HEAD then (Some entry, set_entry_data l entry 32 (read_bytes data 0 8))
      else if type = NOOP then (Some entry, l)
      else
        let len = rd16 data 0;
            cmd = read_bytes data 2 (unat len);
            l = set_entry_cmd_len l entry len
        in if log_fit_entry l (l_end l) entry
           then (Some entry, if len \<noteq> 0 then set_entry_data l entry 34 cmd else l)
           else
             let l = l\<lparr>l_end := 0\<rparr> in
             case log_add_new_entry l of
               None \<Rightarrow> (None, l)
             | Some entry \<Rightarrow>
                 let l = set_entry_cmd_len (set_entry_header l entry idx trm req_id clt_id type) entry len
                 in (Some entry, if len \<noteq> 0 then set_entry_data l entry 34 cmd else l))"

text \<open>
  The part of \<^verbatim>\<open>log_append_entry\<close> behind the computation of the index: the result is the index, or 0
  when the log is full.
\<close>

definition log_append_new ::
    "dare_log_t \<Rightarrow> u64 \<Rightarrow> u64 \<Rightarrow> u64 \<Rightarrow> u16 \<Rightarrow> u8 \<Rightarrow> mem \<Rightarrow> u64 \<times> dare_log_t" where
  "log_append_new l idx trm req_id clt_id type data =
     (case log_add_new_entry l of
        None \<Rightarrow> (0, l)
      | Some entry \<Rightarrow>
          let l = set_entry_header l entry idx trm req_id clt_id type;
              l = (if \<not> log_fit_entry_header l (l_end l) then l\<lparr>l_end := 0\<rparr> else l)
          in case log_append_data l entry idx trm req_id clt_id type data of
               (None, l) \<Rightarrow> (0, l)
             | (Some entry, l) \<Rightarrow>
                 let l = l\<lparr>l_tail := l_end l\<rparr>
                 in (idx, l\<lparr>l_end := l_end l + ucast (log_entry_len l entry)\<rparr>))"

text \<open>
  The result also carries the global flag \<^verbatim>\<open>prev_log_entry_head\<close> that avoids two \<open>HEAD\<close> entries in
  a row.
\<close>

definition log_append_entry ::
    "dare_log_t \<Rightarrow> int \<Rightarrow> u64 \<Rightarrow> u64 \<Rightarrow> u16 \<Rightarrow> u8 \<Rightarrow> mem \<Rightarrow> (u64 \<times> dare_log_t \<times> int) option" where
  "log_append_entry l prev_log_entry_head trm req_id clt_id type data =
     (let prev_log_entry_head = (if type \<noteq> HEAD then 0 else prev_log_entry_head) in
      Option.bind (if l_tail l = l_len l then log_get_tail l else Some (l_tail l)) (\<lambda>tail.
        let l = l\<lparr>l_tail := tail\<rparr>;
            idx = (case fst (log_get_entry l (l_tail l)) of
                     Some last_entry \<Rightarrow> entry_idx (l_mem l) (unat last_entry) + 1
                   | None \<Rightarrow> 1);
            (ret, l) = log_append_new l idx trm req_id clt_id type data
        in Some (ret, l, prev_log_entry_head)))"

end
