(* ===== verification/LogSpec.thy ===== *)
theory LogSpec
  imports Log "HOL-Library.Sublist"
begin

text \<open>
  What the log buffer of theory \<open>Log\<close> means: \<open>log_from l o as\<close> says that walking the buffer from
  offset \<open>o\<close> to the end meets exactly the entries stored at the addresses \<open>as\<close>. On top of it,
  \<open>log_repr l A B C\<close> splits the entries into the applied ones, the committed ones and the ones not
  committed, as the offsets \<^verbatim>\<open>head\<close>, \<^verbatim>\<open>apply\<close> and \<^verbatim>\<open>commit\<close> do. The lemmas show that the loops of the
  header visit that list and that \<^verbatim>\<open>log_append_entry\<close> extends it at its end.
\<close>

subsection \<open>Entries\<close>

datatype payload = PNoop | PConfig dare_cid_t | PHead u64 | PCmd "u8 list"

record log_entry =
  le_idx :: u64
  le_term :: u64
  le_req_id :: u64
  le_clt_id :: u16
  le_type :: u8
  le_data :: payload

definition payload_at :: "mem \<Rightarrow> nat \<Rightarrow> payload" where
  "payload_at m a =
     (let ty = entry_type m a in
      if ty = NOOP then PNoop
      else if ty = CONFIG then PConfig (entry_cid m a)
      else if ty = HEAD then PHead (entry_head m a)
      else PCmd (entry_cmd m a))"

definition entry_at :: "mem \<Rightarrow> nat \<Rightarrow> log_entry" where
  "entry_at m a = \<lparr>le_idx = entry_idx m a, le_term = entry_term m a, le_req_id = entry_req_id m a,
                   le_clt_id = entry_clt_id m a, le_type = entry_type m a, le_data = payload_at m a\<rparr>"

definition entry_size :: "mem \<Rightarrow> nat \<Rightarrow> nat" where
  "entry_size m a =
     (let ty = entry_type m a in
      if ty = NOOP \<or> ty = CONFIG \<or> ty = HEAD then 48 else 48 + unat (entry_cmd_len m a))"

abbreviation nlen :: "dare_log_t \<Rightarrow> nat" where "nlen l \<equiv> unat (l_len l)"
abbreviation nend :: "dare_log_t \<Rightarrow> nat" where "nend l \<equiv> unat (l_end l)"
abbreviation nhead :: "dare_log_t \<Rightarrow> nat" where "nhead l \<equiv> unat (l_head l)"
abbreviation size_at :: "dare_log_t \<Rightarrow> nat \<Rightarrow> nat" where "size_at l a \<equiv> entry_size (l_mem l) a"

lemma entry_size_bounds: "48 \<le> entry_size m a" "entry_size m a < 48 + 65536"
  using u16_bound [of "entry_cmd_len m a"] by (auto simp: entry_size_def Let_def)

lemma unat_log_entry_len: "unat (log_entry_len l e) = size_at l (unat e)"
  using u16_bound [of "entry_cmd_len (l_mem l) (unat e)"]
  by (auto simp: log_entry_len_def entry_size_def sizeof_entry_def Let_def unat_word_ariths)

lemma entry_at_same:
  assumes "same_on a (entry_size m a) m m'"
  shows "entry_at m' a = entry_at m a" "entry_size m' a = entry_size m a"
proof -
  have hdr: "same_on (a + i) k m m'" if "i + k \<le> 48" for i k
    using assms entry_size_bounds(1) [of m a] that by (intro same_on_sub [OF assms]) auto
  have h0: "same_on a 8 m m'" using hdr [of 0 8] by simp
  have ty: "entry_type m' a = entry_type m a" "entry_cmd_len m' a = entry_cmd_len m a"
    using hdr [of 26 1] hdr [of 32 2] by (simp_all add: entry_fields rd_same(1,2) [of _ m m'])
  show sz: "entry_size m' a = entry_size m a"
    by (simp add: entry_size_def ty Let_def)
  have pay: "payload_at m' a = payload_at m a"
  proof (cases "entry_type m a = NOOP \<or> entry_type m a = CONFIG \<or> entry_type m a = HEAD")
    case True
    then show ?thesis
      using hdr [of 32 8] hdr [of 40 1] hdr [of 41 1] hdr [of 42 1] hdr [of 44 4]
      by (auto simp: payload_at_def ty entry_cid_def entry_head_def rd_cid_def Let_def
          rd_same [of _ m m'] ac_simps)
  next
    case False
    then have "same_on (a + 34) (unat (entry_cmd_len m a)) m m'"
      using assms by (auto intro!: same_on_sub [OF assms] simp: entry_size_def Let_def)
    then show ?thesis
      using False by (simp add: payload_at_def ty entry_cmd_def Let_def read_bytes_same [of _ _ m m'])
  qed
  show "entry_at m' a = entry_at m a"
    using h0 hdr [of 8 8] hdr [of 16 8] hdr [of 24 2]
    by (simp add: entry_at_def ty pay)
      (simp add: entry_idx_def entry_term_def entry_req_id_def entry_clt_id_def rd_same [of _ m m'])
qed

subsection \<open>The walk from an offset to the end\<close>

text \<open>The bytes between the head and the end, in the circular order.\<close>

definition used :: "dare_log_t \<Rightarrow> nat \<Rightarrow> nat \<Rightarrow> bool" where
  "used l a n \<longleftrightarrow>
     (if nhead l \<le> nend l then nhead l \<le> a \<and> a + n \<le> nend l
      else (nhead l \<le> a \<and> a + n \<le> nlen l) \<or> a + n \<le> nend l)"

text \<open>
  At \<open>o\<close> the walk continues at 0: not even a header fits there, or there is a copy of the header of
  the entry at 0, whose command does not fit.
\<close>

definition wraps_at :: "dare_log_t \<Rightarrow> nat \<Rightarrow> bool" where
  "wraps_at l a \<longleftrightarrow>
     nend l < nhead l \<and> nhead l \<le> a \<and> a \<le> nlen l \<and> size_at l 0 \<le> nend l \<and>
     (nlen l < a + 48 \<or>
      a + 48 \<le> nlen l \<and> nlen l < a + size_at l a \<and> size_at l a = size_at l 0 \<and>
      entry_idx (l_mem l) a = entry_idx (l_mem l) 0 \<and> entry_term (l_mem l) a = entry_term (l_mem l) 0)"

inductive log_from :: "dare_log_t \<Rightarrow> nat \<Rightarrow> nat list \<Rightarrow> bool" for l where
  log_from_end: "log_from l (nend l) []"
| log_from_here: "a \<noteq> nend l \<Longrightarrow> used l a (size_at l a) \<Longrightarrow> log_from l (a + size_at l a) as \<Longrightarrow>
    log_from l a (a # as)"
| log_from_wrap: "a \<noteq> nend l \<Longrightarrow> wraps_at l a \<Longrightarrow> log_from l (size_at l 0) as \<Longrightarrow>
    log_from l a (0 # as)"

inductive_simps log_from_Nil [simp]: "log_from l a []"
inductive_cases log_from_ConsE: "log_from l a (x # as)"

text \<open>The offsets of a non-empty log; with \<open>nlen l \<le> 2 ^ 62\<close> no offset computation wraps.\<close>

definition log_wf :: "dare_log_t \<Rightarrow> bool" where
  "log_wf l \<longleftrightarrow> 48 \<le> nlen l \<and> nlen l \<le> 2 ^ 62 \<and> nhead l < nlen l \<and> 0 < nend l \<and> nend l < nlen l"

lemma log_wf_not_empty: "log_wf l \<Longrightarrow> \<not> is_log_empty l"
  by (auto simp: log_wf_def is_log_empty_def)

lemma log_from_bound: "log_from l a as \<Longrightarrow> log_wf l \<Longrightarrow> a \<le> nlen l"
  by (induction rule: log_from.induct) (auto simp: log_wf_def used_def wraps_at_def split: if_splits)

lemma distance_0:
  assumes "log_wf l" "unat o' \<le> nlen l"
  shows "log_offset_end_distance l o' = 0 \<longleftrightarrow> unat o' = nend l"
  using assms
  by (auto simp: log_wf_def log_offset_end_distance_def word_eq_nat word_to_nat)

lemma fit_header_iff: "unat o' \<le> nlen l \<Longrightarrow> log_fit_entry_header l o' \<longleftrightarrow> unat o' + 48 \<le> nlen l"
  by (auto simp: log_fit_entry_header_def sizeof_entry_def word_to_nat)

lemma fit_entry_iff: "unat o' \<le> nlen l \<Longrightarrow> log_fit_entry l o' e \<longleftrightarrow> unat o' + size_at l (unat e) \<le> nlen l"
  by (auto simp: log_fit_entry_def word_le_nat_alt unat_log_entry_len unat_minus_le)

lemma unat_next_offset:
  assumes "log_wf l" "unat o' \<le> nlen l"
  shows "unat (log_next_offset l o' e) =
    (if unat o' + size_at l (unat e) \<le> nlen l then unat o' + size_at l (unat e) else size_at l (unat e))"
proof -
  have "unat o' + size_at l (unat e) < 18446744073709551616"
    using assms entry_size_bounds(2) [of "l_mem l" "unat e"] by (simp add: log_wf_def)
  then show ?thesis
    using assms by (auto simp: log_next_offset_def fit_entry_iff unat_plus_u64 unat_log_entry_len)
qed

lemma log_get_entry_at_end: "log_wf l \<Longrightarrow> unat o' = nend l \<Longrightarrow> log_get_entry l o' = (None, o')"
  using distance_0 [of l o'] by (simp add: log_get_entry_def log_wf_def)

text \<open>
  One step of a walking loop: the entry found stands for the first entry of the list, and the next
  offset leads to the others.
\<close>

lemma log_get_entry_step:
  assumes wf: "log_wf l" and walk: "log_from l (unat o') (a # as)"
  obtains e where "log_get_entry l o' = (Some e, e)"
    and "entry_idx (l_mem l) (unat e) = entry_idx (l_mem l) a"
    and "entry_term (l_mem l) (unat e) = entry_term (l_mem l) a"
    and "unat e + 48 \<le> nlen l" and "log_from l (unat e) (a # as)"
    and "log_from l (unat (log_next_offset l e e)) as"
proof -
  have bound: "unat o' \<le> nlen l" using log_from_bound [OF walk wf] .
  have ne: "unat o' \<noteq> nend l" using walk by (auto elim: log_from_ConsE)
  have get: "log_get_entry l o' = (if unat o' + 48 \<le> nlen l then (Some o', o') else (Some 0, 0))"
    using wf bound ne by (simp add: log_get_entry_def log_wf_not_empty distance_0 fit_header_iff)
  consider (here) "a = unat o'" "used l (unat o') (size_at l (unat o'))"
      "log_from l (unat o' + size_at l (unat o')) as"
    | (wrap) "a = 0" "wraps_at l (unat o')" "log_from l (size_at l 0) as"
    using walk by (auto elim: log_from_ConsE)
  then show thesis
  proof cases
    case here
    then have "unat o' + size_at l (unat o') \<le> nlen l"
      using wf by (auto simp: used_def log_wf_def split: if_splits)
    moreover from this have "unat o' + 48 \<le> nlen l"
      using entry_size_bounds(1) [of "l_mem l" "unat o'"] by simp
    ultimately show thesis
      using here walk wf get by (intro that [of o']) (simp_all add: unat_next_offset)
  next
    case wrap
    show thesis
    proof (cases "unat o' + 48 \<le> nlen l")
      case True
      then have "unat (log_next_offset l o' o') = size_at l 0"
        using wrap wf by (auto simp: unat_next_offset wraps_at_def)
      then show thesis
        using wrap True walk get by (intro that [of o']) (auto simp: wraps_at_def)
    next
      case False
      have "log_from l 0 (0 # as)"
        using wrap wf log_from_here [of 0 l as] by (auto simp: used_def wraps_at_def log_wf_def)
      moreover have "unat (log_next_offset l 0 0) = size_at l 0"
        using wrap wf by (auto simp: unat_next_offset wraps_at_def log_wf_def)
      ultimately show thesis
        using wrap False get wf by (intro that [of 0]) (auto simp: wraps_at_def log_wf_def)
    qed
  qed
qed

subsection \<open>The loops visit the walk\<close>

lemma log_tail_from_walk:
  assumes "log_wf l" and "log_from l (unat o') as"
  shows "\<exists>t'. log_tail_from l o' t = Some t' \<and>
    (if as = [] then t' = t else unat t' + 48 \<le> nlen l \<and> log_from l (unat t') [last as])"
  using assms(2)
proof (induction as arbitrary: o' t rule: list.induct)
  case Nil
  then show ?case using assms(1) by (subst log_tail_from.simps) (simp add: log_get_entry_at_end)
next
  case (Cons a as)
  obtain e where e: "log_get_entry l o' = (Some e, e)" "unat e + 48 \<le> nlen l"
    "log_from l (unat e) (a # as)" "log_from l (unat (log_next_offset l e e)) as"
    using log_get_entry_step [OF assms(1) Cons.prems] by metis
  have "log_tail_from l o' t = log_tail_from l (log_next_offset l e e) e"
    by (subst log_tail_from.simps) (simp add: e(1))
  then show ?case using Cons.IH [OF e(4), of e] e(2,3) by auto
qed

lemma nc_buf_loop_walk:
  assumes "log_wf l" and "log_from l (unat o') as" and "unat n + length as < 2 ^ 64"
  shows "\<exists>nc'. log_entries_to_nc_buf_loop l nc o' n = Some nc' \<and>
    unat (nc_len nc') = unat n + length as \<and>
    (\<forall>i < unat n. nc_entries nc' i = nc_entries nc i) \<and>
    (\<forall>i < length as. det_idx (nc_entries nc' (unat n + i)) = entry_idx (l_mem l) (as ! i) \<and>
       det_term (nc_entries nc' (unat n + i)) = entry_term (l_mem l) (as ! i) \<and>
       log_from l (unat (det_offset (nc_entries nc' (unat n + i)))) (drop i as))"
  using assms(2,3)
proof (induction as arbitrary: o' nc n rule: list.induct)
  case Nil
  then show ?case
    using assms(1) by (subst log_entries_to_nc_buf_loop.simps) (simp add: log_get_entry_at_end)
next
  case (Cons a as)
  obtain e where e: "log_get_entry l o' = (Some e, e)"
    "entry_idx (l_mem l) (unat e) = entry_idx (l_mem l) a"
    "entry_term (l_mem l) (unat e) = entry_term (l_mem l) a"
    "log_from l (unat e) (a # as)" "log_from l (unat (log_next_offset l e e)) as"
    using log_get_entry_step [OF assms(1) Cons.prems(1)] by metis
  let ?nc = "nc\<lparr>nc_entries := (nc_entries nc)(unat n :=
     \<lparr>det_idx = entry_idx (l_mem l) (unat e), det_term = entry_term (l_mem l) (unat e), det_offset = e\<rparr>)\<rparr>"
  have n: "unat (n + 1) = Suc (unat n)"
    using Cons.prems(2) by (simp add: unat_plus_u64)
  have step: "log_entries_to_nc_buf_loop l nc o' n = log_entries_to_nc_buf_loop l ?nc (log_next_offset l e e) (n + 1)"
    by (subst log_entries_to_nc_buf_loop.simps) (simp add: e(1))
  obtain nc' where nc': "log_entries_to_nc_buf_loop l ?nc (log_next_offset l e e) (n + 1) = Some nc'"
    "unat (nc_len nc') = Suc (unat n) + length as"
    and old: "\<And>i. i < Suc (unat n) \<Longrightarrow> nc_entries nc' i = nc_entries ?nc i"
    and new: "\<And>i. i < length as \<Longrightarrow>
      det_idx (nc_entries nc' (Suc (unat n) + i)) = entry_idx (l_mem l) (as ! i) \<and>
      det_term (nc_entries nc' (Suc (unat n) + i)) = entry_term (l_mem l) (as ! i) \<and>
      log_from l (unat (det_offset (nc_entries nc' (Suc (unat n) + i)))) (drop i as)"
    using Cons.IH [OF e(5), of "n + 1" ?nc] Cons.prems(2) unfolding n by auto
  have "det_idx (nc_entries nc' (unat n + i)) = entry_idx (l_mem l) ((a # as) ! i) \<and>
      det_term (nc_entries nc' (unat n + i)) = entry_term (l_mem l) ((a # as) ! i) \<and>
      log_from l (unat (det_offset (nc_entries nc' (unat n + i)))) (drop i (a # as))"
    if "i < length (a # as)" for i
    using that old [of "unat n"] new [of "i - 1"] e(2-4) by (cases i) auto
  then show ?case
    using nc' old by (auto simp: step)
qed

text \<open>How many determinants of a remote buffer agree, from the first one on, with the local entries.\<close>

fun agree_len :: "mem \<Rightarrow> dare_log_entry_det_t list \<Rightarrow> nat list \<Rightarrow> nat" where
  "agree_len m (d # ds) (a # as) =
     (if det_idx d = entry_idx m a \<and> det_term d = entry_term m a then Suc (agree_len m ds as) else 0)"
| "agree_len m _ _ = 0"

text \<open>
  The remote determinants are laid out as the local entries, as long as they agree: the next one
  is expected behind the entries that agree.
\<close>

fun laid_out :: "dare_log_t \<Rightarrow> dare_log_entry_det_t list \<Rightarrow> nat list \<Rightarrow> bool" where
  "laid_out l (d # ds) as \<longleftrightarrow> log_from l (unat (det_offset d)) as \<and>
     (case as of [] \<Rightarrow> True
      | a # as' \<Rightarrow> det_idx d = entry_idx (l_mem l) a \<and> det_term d = entry_term (l_mem l) a \<longrightarrow> laid_out l ds as')"
| "laid_out l [] as \<longleftrightarrow> True"

lemma find_remote_end_loop_walk:
  assumes "log_wf l" and "laid_out l ds as" and "ds = [] \<Longrightarrow> log_from l (unat off) as"
  shows "log_from l (unat (log_find_remote_end_offset_loop l ds off)) (drop (agree_len (l_mem l) ds as) as)"
  using assms(2,3)
proof (induction ds arbitrary: as off)
  case Nil
  then show ?case by simp
next
  case (Cons d ds)
  show ?case
  proof (cases as)
    case Nil
    then show ?thesis using Cons.prems(1) assms(1) by (simp add: log_get_entry_at_end)
  next
    case (Cons a as')
    then have "log_from l (unat (det_offset d)) (a # as')"
      using Cons.prems(1) by simp
    from log_get_entry_step [OF assms(1) this] obtain e where
      e: "log_get_entry l (det_offset d) = (Some e, e)"
        "entry_idx (l_mem l) (unat e) = entry_idx (l_mem l) a"
        "entry_term (l_mem l) (unat e) = entry_term (l_mem l) a"
        "log_from l (unat e) (a # as')" "log_from l (unat (log_next_offset l e e)) as'"
      by metis
    then show ?thesis
      using Cons Cons.prems(1) Cons.IH [of as' "log_next_offset l e e"] by auto
  qed
qed

subsection \<open>The log as a list of entries\<close>

text \<open>
  \<open>A\<close>: applied entries, \<open>B\<close>: committed entries not applied yet, \<open>C\<close>: entries not committed. An
  empty log has all its offsets at their initial value.
\<close>

definition log_repr :: "dare_log_t \<Rightarrow> nat list \<Rightarrow> nat list \<Rightarrow> nat list \<Rightarrow> bool" where
  "log_repr l A B C \<longleftrightarrow>
     (if is_log_empty l
      then A = [] \<and> B = [] \<and> C = [] \<and> l_head l = 0 \<and> l_apply l = 0 \<and> l_commit l = 0 \<and>
           l_tail l = l_len l \<and> 48 \<le> nlen l \<and> nlen l \<le> 2 ^ 62
      else log_wf l \<and> log_from l (nhead l) (A @ B @ C) \<and> log_from l (unat (l_apply l)) (B @ C) \<and>
           log_from l (unat (l_commit l)) C \<and>
           (l_tail l = l_len l \<or>
            A @ B @ C \<noteq> [] \<and> log_from l (unat (l_tail l)) [last (A @ B @ C)]))"

definition log_list :: "dare_log_t \<Rightarrow> nat list \<Rightarrow> log_entry list" where
  "log_list l as = map (entry_at (l_mem l)) as"

lemma log_repr_new: "log_repr log_new [] [] []"
  by (simp add: log_repr_def log_new_def is_log_empty_def LOG_SIZE_def)

lemma log_get_tail_repr:
  assumes "log_repr l A B C" and "\<not> is_log_empty l" and "A @ B @ C \<noteq> []"
  shows "\<exists>t. log_get_tail l = Some t \<and> log_from l (unat t) [last (A @ B @ C)]"
proof (cases "l_tail l = l_len l")
  case False
  then show ?thesis using assms by (simp add: log_repr_def log_get_tail_def)
next
  case True
  have wf: "log_wf l" and walks: "log_from l (nhead l) (A @ B @ C)"
    "log_from l (unat (l_apply l)) (B @ C)" "log_from l (unat (l_commit l)) C"
    using assms(1,2) by (simp_all add: log_repr_def)
  obtain tc where tc: "log_tail_from l (l_commit l) (l_len l) = Some tc"
    "if C = [] then tc = l_len l else unat tc + 48 \<le> nlen l \<and> log_from l (unat tc) [last C]"
    using log_tail_from_walk [OF wf walks(3)] by blast
  obtain ta where ta: "log_tail_from l (l_apply l) (l_len l) = Some ta"
    "if B @ C = [] then ta = l_len l else unat ta + 48 \<le> nlen l \<and> log_from l (unat ta) [last (B @ C)]"
    using log_tail_from_walk [OF wf walks(2)] by blast
  obtain th where th: "log_tail_from l (l_head l) (l_len l) = Some th"
    "if A @ B @ C = [] then th = l_len l else unat th + 48 \<le> nlen l \<and> log_from l (unat th) [last (A @ B @ C)]"
    using log_tail_from_walk [OF wf walks(1)] by blast
  show ?thesis
    using True assms(2,3) tc ta th by (auto simp: log_get_tail_def split: if_splits)
qed

text \<open>The index that \<^verbatim>\<open>log_append_entry\<close> gives to the next entry.\<close>

definition next_idx :: "dare_log_t \<Rightarrow> nat list \<Rightarrow> u64" where
  "next_idx l as = (if as = [] then 1 else entry_idx (l_mem l) (last as) + 1)"

lemma append_tail_idx:
  assumes "log_repr l A B C" and "is_log_empty l \<or> A @ B @ C \<noteq> []"
  shows "\<exists>t. (if l_tail l = l_len l then log_get_tail l else Some (l_tail l)) = Some t \<and>
    (case fst (log_get_entry (l\<lparr>l_tail := t\<rparr>) t) of
       Some e \<Rightarrow> entry_idx (l_mem l) (unat e) + 1 | None \<Rightarrow> 1) = next_idx l (A @ B @ C)"
proof (cases "is_log_empty l")
  case True
  then show ?thesis
    using assms(1) by (auto simp: log_repr_def log_get_tail_def log_get_entry_def next_idx_def is_log_empty_def)
next
  case False
  then have ne: "A @ B @ C \<noteq> []" and wf: "log_wf l"
    using assms by (auto simp: log_repr_def)
  obtain t where t: "log_get_tail l = Some t" "log_from l (unat t) [last (A @ B @ C)]"
    using log_get_tail_repr [OF assms(1) False ne] by blast
  obtain e where e: "log_get_entry l t = (Some e, e)"
    "entry_idx (l_mem l) (unat e) = entry_idx (l_mem l) (last (A @ B @ C))"
    using log_get_entry_step [OF wf t(2)] by metis
  have "log_get_entry (l\<lparr>l_tail := t\<rparr>) t = log_get_entry l t"
    by (simp add: log_get_entry_def is_log_empty_def log_offset_end_distance_def log_fit_entry_header_def)
  moreover have "(if l_tail l = l_len l then log_get_tail l else Some (l_tail l)) = Some t"
    using t(1) by (auto simp: log_get_tail_def)
  ultimately show ?thesis
    using e ne by (simp only: next_idx_def) simp
qed

end
