(* ===== verification/LogAppend.thy ===== *)
theory LogAppend
  imports LogSpec
begin

text \<open>
  \<^verbatim>\<open>log_append_entry\<close> on the list of entries: provided there is room, it writes one entry behind the
  last one, leaves every other entry as it was, and numbers the new one consecutively.
\<close>

subsection \<open>The bytes of one entry\<close>

definition put_header :: "mem \<Rightarrow> nat \<Rightarrow> u64 \<Rightarrow> u64 \<Rightarrow> u64 \<Rightarrow> u16 \<Rightarrow> u8 \<Rightarrow> mem" where
  "put_header m a idx trm req_id clt_id type =
     wr8 (wr16 (wr64 (wr64 (wr64 m a idx) (a + 8) trm) (a + 16) req_id) (a + 24) clt_id) (a + 26) type"

definition put_data :: "mem \<Rightarrow> nat \<Rightarrow> u8 \<Rightarrow> mem \<Rightarrow> mem" where
  "put_data m a type data =
     (if type = CONFIG then write_bytes m (a + 32) (read_bytes data 0 16)
      else if type = HEAD then write_bytes m (a + 32) (read_bytes data 0 8)
      else if type = NOOP then m
      else if rd16 data 0 \<noteq> 0
      then write_bytes (wr16 m (a + 32) (rd16 data 0)) (a + 34) (read_bytes data 2 (unat (rd16 data 0)))
      else wr16 m (a + 32) (rd16 data 0))"

definition data_payload :: "u8 \<Rightarrow> mem \<Rightarrow> payload" where
  "data_payload type data =
     (if type = NOOP then PNoop
      else if type = CONFIG then PConfig (rd_cid data 0)
      else if type = HEAD then PHead (rd64 data 0)
      else PCmd (read_bytes data 2 (unat (rd16 data 0))))"

definition data_size :: "u8 \<Rightarrow> mem \<Rightarrow> nat" where
  "data_size type data =
     (if type = NOOP \<or> type = CONFIG \<or> type = HEAD then 48 else 48 + unat (rd16 data 0))"

definition new_entry :: "u64 \<Rightarrow> u64 \<Rightarrow> u64 \<Rightarrow> u16 \<Rightarrow> u8 \<Rightarrow> mem \<Rightarrow> log_entry" where
  "new_entry idx trm req_id clt_id type data =
     \<lparr>le_idx = idx, le_term = trm, le_req_id = req_id, le_clt_id = clt_id, le_type = type,
      le_data = data_payload type data\<rparr>"

lemma data_size_bounds: "48 \<le> data_size type data" "data_size type data < 48 + 65536"
  using u16_bound [of "rd16 data 0"] by (auto simp: data_size_def)

lemma put_header_frame: "b + n \<le> a \<or> a + 48 \<le> b \<Longrightarrow> same_on b n m (put_header m a i t r c ty)"
  by (auto simp: same_on_def put_header_def wr_defs write_bytes_def)

lemma put_data_frame: "b + n \<le> a + 32 \<or> a + data_size ty data \<le> b \<Longrightarrow> same_on b n m (put_data m a ty data)"
  by (auto simp: same_on_def put_data_def data_size_def wr_defs write_bytes_def)

lemma put_data_header:
  "entry_idx (put_data m a ty data) a = entry_idx m a" "entry_term (put_data m a ty data) a = entry_term m a"
  "entry_req_id (put_data m a ty data) a = entry_req_id m a" "entry_clt_id (put_data m a ty data) a = entry_clt_id m a"
  "entry_type (put_data m a ty data) a = entry_type m a"
  using put_data_frame [of _ _ a ty data m]
  by (simp_all add: entry_idx_def entry_term_def entry_req_id_def entry_clt_id_def entry_type_def rd_other)

lemma put_header_fields:
  "entry_idx (put_header m a i t r c ty) a = i" "entry_term (put_header m a i t r c ty) a = t"
  "entry_req_id (put_header m a i t r c ty) a = r" "entry_clt_id (put_header m a i t r c ty) a = c"
  "entry_type (put_header m a i t r c ty) a = ty"
  by (simp_all add: put_header_def entry_idx_def entry_term_def entry_req_id_def entry_clt_id_def entry_type_def)

lemma put_data_cmd_len:
  "ty \<noteq> NOOP \<Longrightarrow> ty \<noteq> CONFIG \<Longrightarrow> ty \<noteq> HEAD \<Longrightarrow> entry_cmd_len (put_data m a ty data) a = rd16 data 0"
  by (simp add: put_data_def entry_cmd_len_def)

lemma put_data_cmd:
  "ty \<noteq> NOOP \<Longrightarrow> ty \<noteq> CONFIG \<Longrightarrow> ty \<noteq> HEAD \<Longrightarrow>
    entry_cmd (put_data m a ty data) a = read_bytes data 2 (unat (rd16 data 0))"
  using read_write_bytes [of "wr16 m (a + 32) (rd16 data 0)" "a + 34" "read_bytes data 2 (unat (rd16 data 0))"]
  by (simp add: entry_cmd_def put_data_cmd_len) (simp add: put_data_def read_bytes_def)

lemma put_data_cid: "entry_cid (put_data m a CONFIG data) a = rd_cid data 0"
  using rd_copy [of _ 16 m "a + 32" data 0] rd_copy(1) [of 0 16 m "a + 32" data 0]
    rd_copy(3) [of 8 16 m "a + 32" data 0] rd_copy(3) [of 9 16 m "a + 32" data 0]
    rd_copy(3) [of 10 16 m "a + 32" data 0] rd_copy(2) [of 12 16 m "a + 32" data 0]
  by (simp add: entry_cid_def rd_cid_def put_data_def add.assoc)

lemma put_data_head: "entry_head (put_data m a HEAD data) a = rd64 data 0"
  using rd_copy(1) [of 0 8 m "a + 32" data 0]
  by (simp add: entry_head_def put_data_def entry_types)

lemma put_entry_at:
  defines "m' m a i t r c ty data \<equiv> put_data (put_header m a i t r c ty) a ty data"
  shows "entry_at (m' m a i t r c ty data) a = new_entry i t r c ty data"
    and "entry_size (m' m a i t r c ty data) a = data_size ty data"
  unfolding m'_def entry_at_def new_entry_def payload_at_def data_payload_def entry_size_def data_size_def
  by (auto simp: put_data_header put_header_fields put_data_cmd put_data_cid put_data_head put_data_cmd_len Let_def)

lemma put_entry_frame:
  "b + n \<le> a \<or> a + data_size ty data \<le> b \<Longrightarrow>
    same_on b n m (put_data (put_header m a i t r c ty) a ty data)"
  using data_size_bounds(1) [of ty data]
  by (rule_tac same_on_trans [OF put_header_frame put_data_frame]) auto

subsection \<open>Where the entry goes\<close>

text \<open>
  The space the entry needs. The code only checks that the end is not at the head; an entry that
  ends exactly at \<open>l_len\<close> is excluded because the log then looks empty.
\<close>

definition room :: "dare_log_t \<Rightarrow> nat \<Rightarrow> bool" where
  "room l n \<longleftrightarrow>
     (if is_log_empty l then n < nlen l
      else if nend l < nhead l then nend l + n < nhead l
      else nhead l < nend l \<and> (nend l + n < nlen l \<or> nlen l < nend l + n \<and> n < nhead l))"

definition put_at :: "dare_log_t \<Rightarrow> u64 \<Rightarrow> u64 \<Rightarrow> u64 \<Rightarrow> u64 \<Rightarrow> u16 \<Rightarrow> u8 \<Rightarrow> mem \<Rightarrow> dare_log_t" where
  "put_at l e i t r c ty data =
     l\<lparr>l_end := e + of_nat (data_size ty data), l_tail := e,
       l_mem := put_data (put_header (l_mem l) (unat e) i t r c ty) (unat e) ty data\<rparr>"

lemma append_data_fits:
  assumes "entry_type (l_mem l) (unat e) = ty" and "nend l + data_size ty data \<le> nlen l"
  shows "log_append_data l e i t r c ty data = (Some e, l\<lparr>l_mem := put_data (l_mem l) (unat e) ty data\<rparr>)"
proof (cases "ty = CONFIG \<or> ty = HEAD \<or> ty = NOOP")
  case True
  then show ?thesis by (auto simp: log_append_data_def set_entry_data_def put_data_def entry_types)
next
  case False
  let ?l = "set_entry_cmd_len l e (rd16 data 0)"
  have "size_at ?l (unat e) = data_size ty data"
    using False assms(1)
    by (simp add: set_entry_cmd_len_def entry_size_def entry_type_def entry_cmd_len_def data_size_def Let_def)
  then have "log_fit_entry ?l (l_end ?l) e"
    using assms(2) by (subst fit_entry_iff) (simp_all add: set_entry_cmd_len_def)
  then show ?thesis
    using False by (auto simp: log_append_data_def Let_def set_entry_data_def set_entry_cmd_len_def put_data_def)
qed

lemma append_finish:
  assumes "entry_type (l_mem l) (unat e) = ty" and "unat e + data_size ty data \<le> nlen l" and "l_end l = e"
    and "l_mem l = put_header m (unat e) i t r c ty"
  shows "(case log_append_data l e i t r c ty data of
      (None, l) \<Rightarrow> (0, l)
    | (Some entry, l) \<Rightarrow>
        let l = l\<lparr>l_tail := l_end l\<rparr>
        in (i, l\<lparr>l_end := l_end l + ucast (log_entry_len l entry)\<rparr>))
    = (i, put_at (l\<lparr>l_mem := m\<rparr>) e i t r c ty data)"
proof -
  let ?l = "l\<lparr>l_mem := put_data (l_mem l) (unat e) ty data\<rparr>"
  have "size_at ?l (unat e) = data_size ty data"
    by (simp add: assms(4) put_entry_at(2))
  then have "ucast (log_entry_len (?l\<lparr>l_tail := l_end ?l\<rparr>) e) = (of_nat (data_size ty data) :: u64)"
    using data_size_bounds(2) [of ty data]
    by (intro word_unat_eq_iff [THEN iffD2]) (simp add: unat_log_entry_len unat_of_nat)
  then show ?thesis
    using assms by (simp add: append_data_fits put_at_def Let_def)
qed

lemma set_entry_header_put: "set_entry_header l e i t r c ty = l\<lparr>l_mem := put_header (l_mem l) (unat e) i t r c ty\<rparr>"
  by (simp add: set_entry_header_def put_header_def Let_def)

lemma append_new_fits:
  assumes "\<not> is_log_empty l" and "\<not> is_log_full l" and "nend l + data_size ty data \<le> nlen l"
  shows "log_append_new l i t r c ty data = (i, put_at l (l_end l) i t r c ty data)"
proof -
  have fit: "log_fit_entry_header l' (l_end l)" if "l_len l' = l_len l" for l'
    using assms(3) that data_size_bounds(1) [of ty data] by (simp add: fit_header_iff)
  then have "log_add_new_entry l = Some (l_end l)"
    using assms(1,2) by (simp add: log_add_new_entry_def)
  then show ?thesis
    unfolding log_append_new_def set_entry_header_put Let_def
    using assms(3) fit append_finish [of "l\<lparr>l_mem := put_header (l_mem l) (nend l) i t r c ty\<rparr>"
        "l_end l" ty data "l_mem l" i t r c, unfolded Let_def]
    by (simp add: put_header_fields)
qed

lemma append_new_wraps:
  assumes "is_log_empty l \<or> nlen l < nend l + 48" and "nend l \<le> nlen l" and "\<not> is_log_full l"
    and "data_size ty data \<le> nlen l"
  shows "log_append_new l i t r c ty data = (i, put_at l 0 i t r c ty data)"
proof -
  have nofit: "\<not> log_fit_entry_header l' (l_end l)" if "l_len l' = l_len l" for l'
    using assms(1,2) that by (auto simp: fit_header_iff is_log_empty_def)
  then have "log_add_new_entry l = Some 0"
    using assms(1,3) by (simp add: log_add_new_entry_def)
  then show ?thesis
    unfolding log_append_new_def set_entry_header_put Let_def
    using assms(4) nofit append_finish [of "l\<lparr>l_mem := put_header (l_mem l) 0 i t r c ty, l_end := 0\<rparr>"
        0 ty data "l_mem l" i t r c, unfolded Let_def]
    by (simp add: put_header_fields put_at_def)
qed

definition put_marker :: "mem \<Rightarrow> nat \<Rightarrow> u64 \<Rightarrow> u64 \<Rightarrow> u64 \<Rightarrow> u16 \<Rightarrow> u8 \<Rightarrow> mem \<Rightarrow> mem" where
  "put_marker m a i t r c ty data = wr16 (put_header m a i t r c ty) (a + 32) (rd16 data 0)"

lemma put_marker_frame: "b + n \<le> a \<or> a + 48 \<le> b \<Longrightarrow> same_on b n m (put_marker m a i t r c ty data)"
  unfolding put_marker_def by (rule same_on_trans [OF put_header_frame same_on_wr(2)]) auto

lemma put_marker_fields:
  "entry_idx (put_marker m a i t r c ty data) a = i" "entry_term (put_marker m a i t r c ty data) a = t"
  "entry_type (put_marker m a i t r c ty data) a = ty"
  "entry_cmd_len (put_marker m a i t r c ty data) a = rd16 data 0"
  using put_header_fields [of m a i t r c ty]
  by (simp_all add: put_marker_def entry_idx_def entry_term_def entry_type_def entry_cmd_len_def)

lemma append_new_marker:
  assumes "\<not> is_log_empty l" and "\<not> is_log_full l" and "nend l + 48 \<le> nlen l"
    and "nlen l < nend l + data_size ty data" and "data_size ty data \<le> nlen l" and "l_head l \<noteq> 0"
  shows "log_append_new l i t r c ty data =
    (i, put_at (l\<lparr>l_mem := put_marker (l_mem l) (nend l) i t r c ty data\<rparr>) 0 i t r c ty data)"
proof -
  have ty: "ty \<noteq> NOOP" "ty \<noteq> CONFIG" "ty \<noteq> HEAD"
    using assms(3,4) by (auto simp: data_size_def)
  have L: "48 \<le> nlen l" using assms(3) by simp
  have fit: "log_fit_entry_header l' (l_end l)" "log_fit_entry_header l' 0" if "l_len l' = l_len l" for l'
    using assms(3) that by (simp_all add: fit_header_iff)
  have add: "log_add_new_entry l = Some (l_end l)"
    using assms(1,2) fit by (simp add: log_add_new_entry_def)
  let ?m = "put_marker (l_mem l) (nend l) i t r c ty data"
  let ?h = "l\<lparr>l_mem := put_header (l_mem l) (nend l) i t r c ty\<rparr>"
  let ?l = "l\<lparr>l_mem := ?m, l_end := 0\<rparr>"
  have cmd: "set_entry_cmd_len ?h (l_end l) (rd16 data 0) = l\<lparr>l_mem := ?m\<rparr>"
    by (simp add: set_entry_cmd_len_def put_marker_def)
  have nofit: "\<not> log_fit_entry (l\<lparr>l_mem := ?m\<rparr>) (l_end l) (l_end l)"
    using assms(3,4) ty
    by (subst fit_entry_iff) (auto simp: entry_size_def data_size_def put_marker_fields Let_def)
  have again: "log_add_new_entry ?l = Some 0"
    using assms(6) L fit by (auto simp: log_add_new_entry_def is_log_full_def is_log_empty_def)
  have "log_append_data ?h (l_end l) i t r c ty data =
      (Some 0, ?l\<lparr>l_mem := put_data (put_header ?m 0 i t r c ty) 0 ty data\<rparr>)"
    using ty nofit again unfolding log_append_data_def cmd Let_def
    by (simp add: set_entry_header_put) (simp add: set_entry_cmd_len_def set_entry_data_def put_data_def)
  moreover have "ucast (log_entry_len (?l\<lparr>l_mem := put_data (put_header ?m 0 i t r c ty) 0 ty data, l_tail := 0\<rparr>) 0)
      = (of_nat (data_size ty data) :: u64)"
    using data_size_bounds(2) [of ty data]
    by (intro word_unat_eq_iff [THEN iffD2]) (simp add: unat_log_entry_len unat_of_nat put_entry_at(2))
  ultimately show ?thesis
    using add fit by (simp add: log_append_new_def set_entry_header_put Let_def put_at_def)
qed

subsection \<open>The walk is extended\<close>

definition log_extends :: "dare_log_t \<Rightarrow> dare_log_t \<Rightarrow> bool" where
  "log_extends l l' \<longleftrightarrow> l_len l' = l_len l \<and> l_head l' = l_head l \<and>
     (\<forall>a n. used l a n \<and> 0 < n \<longrightarrow> used l' a n \<and> a \<noteq> nend l' \<and> same_on a n (l_mem l) (l_mem l')) \<and>
     (nend l < nhead l \<longrightarrow> nend l \<le> nend l' \<and> nend l' < nhead l)"

lemma log_from_used: "log_from l a as \<Longrightarrow> log_wf l \<Longrightarrow> x \<in> set as \<Longrightarrow> used l x (size_at l x)"
  by (induction rule: log_from.induct) (auto simp: used_def wraps_at_def split: if_splits)

lemma log_extends_entry:
  assumes "log_extends l l'" and "used l a (size_at l a)"
  shows "entry_at (l_mem l') a = entry_at (l_mem l) a" "size_at l' a = size_at l a"
    "used l' a (size_at l' a)" "a \<noteq> nend l'"
proof -
  have "0 < size_at l a" using entry_size_bounds(1) [of "l_mem l" a] by simp
  then have s: "same_on a (size_at l a) (l_mem l) (l_mem l')" "used l' a (size_at l a)" "a \<noteq> nend l'"
    using assms by (auto simp: log_extends_def)
  show "entry_at (l_mem l') a = entry_at (l_mem l) a" "size_at l' a = size_at l a" "a \<noteq> nend l'"
    using entry_at_same [OF s(1)] s(3) by auto
  then show "used l' a (size_at l' a)" using s(2) by simp
qed

lemma log_extends_wraps:
  assumes ext: "log_extends l l'" and w: "wraps_at l a"
  shows "wraps_at l' a" "a \<noteq> nend l'"
proof -
  have hd: "nend l < nhead l" "l_head l' = l_head l" "l_len l' = l_len l" "nend l \<le> nend l'" "nend l' < nhead l"
    using assms by (auto simp: log_extends_def wraps_at_def)
  show "a \<noteq> nend l'" using hd w by (auto simp: wraps_at_def)
  have "used l 0 (size_at l 0)" using w by (auto simp: wraps_at_def used_def)
  note e0 = log_extends_entry(1,2) [OF ext this]
  show "wraps_at l' a"
  proof (cases "a + 48 \<le> nlen l")
    case False
    then show ?thesis using w hd e0 by (auto simp: wraps_at_def)
  next
    case True
    then have "used l a 48" using w hd by (auto simp: wraps_at_def used_def)
    then have "same_on a 48 (l_mem l) (l_mem l')" using ext by (auto simp: log_extends_def)
    from same_on_sub [OF this] have
      "entry_idx (l_mem l') a = entry_idx (l_mem l) a" "entry_term (l_mem l') a = entry_term (l_mem l) a"
      "size_at l' a = size_at l a"
      by (simp_all add: entry_idx_def entry_term_def entry_size_def entry_type_def entry_cmd_len_def Let_def
          rd_other [of _ "l_mem l" "l_mem l'"])
    then show ?thesis using w hd e0 by (auto simp: wraps_at_def entry_at_def)
  qed
qed

lemma log_from_extend:
  assumes "log_extends l l'" and "log_from l' (nend l) [x]" and "log_from l a as"
  shows "log_from l' a (as @ [x])"
  using assms(3)
proof (induction rule: log_from.induct)
  case log_from_end
  show ?case using assms(2) by simp
next
  case (log_from_here a as)
  then show ?case
    using log_extends_entry [OF assms(1) log_from_here(2)] log_from.log_from_here [of a l' "as @ [x]"] by simp
next
  case (log_from_wrap a as)
  have "used l 0 (size_at l 0)" using log_from_wrap(2) by (auto simp: wraps_at_def used_def)
  then show ?case
    using log_from_wrap log_extends_entry(2) [OF assms(1)] log_extends_wraps [OF assms(1) log_from_wrap(2)]
      log_from.log_from_wrap [of a l' "as @ [x]"] by simp
qed

lemma log_from_extend_list:
  assumes "log_extends l l'" and "log_wf l" and "log_from l a as"
  shows "log_list l' as = log_list l as"
  using log_extends_entry(1) [OF assms(1) log_from_used [OF assms(3,2)]] by (simp add: log_list_def)

subsection \<open>Appending\<close>

lemma put_at_fields [simp]:
  "l_len (put_at l e i t r c ty data) = l_len l" "l_head (put_at l e i t r c ty data) = l_head l"
  "l_apply (put_at l e i t r c ty data) = l_apply l" "l_commit (put_at l e i t r c ty data) = l_commit l"
  "l_nc_buf (put_at l e i t r c ty data) = l_nc_buf l" "l_tail (put_at l e i t r c ty data) = e"
  by (simp_all add: put_at_def)

lemma put_at_entry:
  "entry_at (l_mem (put_at l e i t r c ty data)) (unat e) = new_entry i t r c ty data"
  "size_at (put_at l e i t r c ty data) (unat e) = data_size ty data"
  by (simp_all add: put_at_def put_entry_at)

lemma put_at_end:
  assumes "unat e + data_size ty data < 2 ^ 63"
  shows "nend (put_at l e i t r c ty data) = unat e + data_size ty data"
  using assms data_size_bounds(2) [of ty data]
  by (simp add: put_at_def unat_plus_u64 unat_of_nat)

lemma put_at_frame:
  "b + n \<le> unat e \<or> unat e + data_size ty data \<le> b \<Longrightarrow>
    same_on b n (l_mem l) (l_mem (put_at l e i t r c ty data))"
  by (simp add: put_at_def put_entry_frame)

text \<open>The three places where the new entry may go, for a log that is not empty.\<close>

lemma append_here_extends:
  assumes wf: "log_wf l" and "nend l + data_size ty data < nlen l"
    and "nhead l \<le> nend l \<or> nend l + data_size ty data < nhead l"
  defines "l' i t r c \<equiv> put_at l (l_end l) i t r c ty data"
  shows "log_extends l (l' i t r c)" and "log_from (l' i t r c) (nend l) [nend l]" and "log_wf (l' i t r c)"
proof -
  have e: "nend (l' i t r c) = nend l + data_size ty data"
    using assms by (simp add: put_at_end log_wf_def)
  note d = data_size_bounds(1) [of ty data]
  show "log_wf (l' i t r c)" using assms e d by (auto simp: log_wf_def)
  show "log_extends l (l' i t r c)"
    using assms(2,3) e d put_at_frame [of _ _ "l_end l" ty data l i t r c]
    by (auto simp: log_extends_def l'_def used_def split: if_splits)
  show "log_from (l' i t r c) (nend l) [nend l]"
    using assms(2,3) e d put_at_entry(2) [of l "l_end l" i t r c ty data]
    by (intro log_from_here) (auto simp: l'_def used_def)
qed

lemma append_wrap_extends:
  assumes wf: "log_wf l" and flat: "nhead l < nend l" and n: "data_size ty data < nhead l"
    and mark: "nlen l < nend l + 48 \<and> m = l_mem l \<or>
      nend l + 48 \<le> nlen l \<and> nlen l < nend l + data_size ty data \<and> m = put_marker (l_mem l) (nend l) i t r c ty data"
  defines "l' \<equiv> put_at (l\<lparr>l_mem := m\<rparr>) 0 i t r c ty data"
  shows "log_extends l l'" and "log_from l' (nend l) [0]" and "log_wf l'"
proof -
  have e: "nend l' = data_size ty data"
    using wf n by (simp add: l'_def put_at_end log_wf_def)
  note d = data_size_bounds(1) [of ty data]
  show "log_wf l'" using wf n e d by (auto simp: log_wf_def l'_def)
  have m: "same_on a k (l_mem l) m" if "a + k \<le> nend l" for a k
    using mark put_marker_frame [of a k "nend l" "l_mem l" i t r c ty data] that by auto
  have m': "same_on a k m (l_mem l')" if "nhead l \<le> a" for a k
    using put_at_frame [of a k 0 ty data "l\<lparr>l_mem := m\<rparr>" i t r c] that n by (simp add: l'_def)
  show "log_extends l l'"
    using wf flat n e same_on_trans [OF m m'] by (auto simp: log_extends_def l'_def used_def log_wf_def)
  have s0: "size_at l' 0 = data_size ty data" "entry_idx (l_mem l') 0 = i" "entry_term (l_mem l') 0 = t"
    using put_at_entry [of "l\<lparr>l_mem := m\<rparr>" 0 i t r c ty data] by (auto simp: l'_def entry_at_def new_entry_def)
  have "size_at l' (nend l) = data_size ty data \<and> entry_idx (l_mem l') (nend l) = i \<and> entry_term (l_mem l') (nend l) = t"
    if "nend l + 48 \<le> nlen l"
  proof -
    have mm: "m = put_marker (l_mem l) (nend l) i t r c ty data" "nlen l < nend l + data_size ty data"
      using mark that by auto
    have "ty \<noteq> NOOP" "ty \<noteq> CONFIG" "ty \<noteq> HEAD" using mm(2) that by (auto simp: data_size_def)
    then have "entry_size m (nend l) = data_size ty data"
      by (simp add: mm(1) entry_size_def data_size_def put_marker_fields Let_def)
    then show ?thesis
      using entry_at_same [OF m', of "nend l"] flat
      by (auto simp: entry_at_def mm(1) put_marker_fields)
  qed
  then have "wraps_at l' (nend l)"
    using wf flat n mark e s0 by (auto simp: wraps_at_def l'_def log_wf_def)
  then show "log_from l' (nend l) [0]"
    using flat n e s0 by (intro log_from_wrap) auto
qed

lemma append_nonempty:
  assumes wf: "log_wf l" and room: "room l (data_size ty data)"
  obtains l' where "log_append_new l i t r c ty data = (i, l')" "log_extends l l'" "log_wf l'"
    "log_from l' (nend l) [unat (l_tail l')]"
    "entry_at (l_mem l') (unat (l_tail l')) = new_entry i t r c ty data"
    "l_apply l' = l_apply l" "l_commit l' = l_commit l" "l_nc_buf l' = l_nc_buf l"
    "log_from l' (unat (l_tail l')) [unat (l_tail l')]"
proof -
  have ne: "\<not> is_log_empty l" using wf by (rule log_wf_not_empty)
  then have nf: "\<not> is_log_full l" using room by (auto simp: room_def is_log_full_def split: if_splits)
  note d = data_size_bounds [of ty data]
  have tail_walk: "log_from l' a [x] \<Longrightarrow> size_at l' x \<noteq> 0 \<Longrightarrow> log_wf l' \<Longrightarrow> log_from l' x [x]" for l' a x
    by (auto elim!: log_from_ConsE intro!: log_from_here log_from_end simp: wraps_at_def used_def log_wf_def)
  consider (here) "nend l + data_size ty data < nlen l" "nhead l \<le> nend l \<or> nend l + data_size ty data < nhead l"
    | (wrap) "nhead l < nend l" "data_size ty data < nhead l" "nlen l < nend l + 48"
    | (mark) "nhead l < nend l" "data_size ty data < nhead l" "nend l + 48 \<le> nlen l"
        "nlen l < nend l + data_size ty data"
    using room ne wf by (fastforce simp: room_def log_wf_def split: if_splits)
  then show thesis
  proof cases
    case here
    note x = append_here_extends [OF wf here, of i t r c]
    show ?thesis
      using here x append_new_fits [OF ne nf, of ty data i t r c] put_at_entry [of l "l_end l" i t r c ty data] d
        tail_walk [OF x(2)]
      by (intro that [of "put_at l (l_end l) i t r c ty data"]) auto
  next
    case wrap
    note x = append_wrap_extends [OF wf wrap(1,2), of "l_mem l" i t r c]
    show ?thesis
      using wf wrap x append_new_wraps [of l ty data i t r c] put_at_entry [of l 0 i t r c ty data] d nf
        tail_walk [OF x(2)]
      by (intro that [of "put_at l 0 i t r c ty data"]) (auto simp: log_wf_def)
  next
    case mark
    let ?l = "l\<lparr>l_mem := put_marker (l_mem l) (nend l) i t r c ty data\<rparr>"
    note x = append_wrap_extends [OF wf mark(1,2), of "put_marker (l_mem l) (nend l) i t r c ty data" i t r c]
    have h: "l_head l \<noteq> 0" using mark(2) by auto
    show ?thesis
      using wf mark h x append_new_marker [OF ne nf mark(3,4), of i t r c] put_at_entry [of ?l 0 i t r c ty data] d
        tail_walk [OF x(2)]
      by (intro that [of "put_at ?l 0 i t r c ty data"]) (auto simp: log_wf_def)
  qed
qed

lemma append_empty:
  assumes "log_repr l [] [] []" and "is_log_empty l" and "room l (data_size ty data)"
  defines "l' i t r c \<equiv> put_at l 0 i t r c ty data"
  shows "log_append_new l i t r c ty data = (i, l' i t r c)" and "log_repr (l' i t r c) [] [] [0]"
proof -
  have n: "data_size ty data < nlen l" "nlen l \<le> 2 ^ 62" "l_head l = 0" "l_apply l = 0" "l_commit l = 0"
    "nend l = nlen l"
    using assms(1-3) by (auto simp: log_repr_def room_def is_log_empty_def)
  note d = data_size_bounds [of ty data]
  show "log_append_new l i t r c ty data = (i, l' i t r c)"
    using n assms(2) d unfolding l'_def
    by (intro append_new_wraps) (auto simp: is_log_full_def word_eq_nat)
  have e: "nend (l' i t r c) = data_size ty data"
    using n by (simp add: l'_def put_at_end)
  have wf: "log_wf (l' i t r c)"
    using n e d by (auto simp: log_wf_def l'_def)
  have "log_from (l' i t r c) 0 [0]"
    using n d e put_at_entry(2) [of l 0 i t r c ty data]
    by (intro log_from_here) (auto simp: l'_def used_def)
  then show "log_repr (l' i t r c) [] [] [0]"
    using wf log_wf_not_empty [OF wf] n by (simp add: log_repr_def l'_def)
qed

lemma log_append_entry_repr:
  assumes repr: "log_repr l A B C" and room: "room l (data_size ty data)"
  obtains l' where
    "log_append_entry l ph t r c ty data =
       Some (next_idx l (A @ B @ C), l', if ty \<noteq> HEAD then 0 else ph)"
    "log_repr l' A B (C @ [unat (l_tail l')])"
    "log_list l' (A @ B @ C) = log_list l (A @ B @ C)"
    "entry_at (l_mem l') (unat (l_tail l')) = new_entry (next_idx l (A @ B @ C)) t r c ty data"
    "l_len l' = l_len l" "l_head l' = l_head l" "l_apply l' = l_apply l" "l_commit l' = l_commit l"
    "l_nc_buf l' = l_nc_buf l"
proof -
  let ?i = "next_idx l (A @ B @ C)"
  have ne: "is_log_empty l \<or> A @ B @ C \<noteq> []"
    using repr room by (auto simp: log_repr_def room_def split: if_splits)
  obtain tl where tl: "(if l_tail l = l_len l then log_get_tail l else Some (l_tail l)) = Some tl"
    "(case fst (log_get_entry (l\<lparr>l_tail := tl\<rparr>) tl) of
       Some e \<Rightarrow> entry_idx (l_mem l) (unat e) + 1 | None \<Rightarrow> 1) = ?i"
    using append_tail_idx [OF repr ne] by blast
  let ?l = "l\<lparr>l_tail := tl\<rparr>"
  have idx: "(case fst (log_get_entry ?l (l_tail ?l)) of
       Some e \<Rightarrow> entry_idx (l_mem ?l) (unat e) + 1 | None \<Rightarrow> 1) = ?i"
    using tl(2) by (simp cong: option.case_cong)
  have app: "log_append_entry l ph t r c ty data =
      (case log_append_new ?l ?i t r c ty data of (ret, l') \<Rightarrow> Some (ret, l', if ty \<noteq> HEAD then 0 else ph))"
    unfolding log_append_entry_def Let_def tl(1) Option.bind.bind_lunit idx by simp
  show thesis
  proof (cases "is_log_empty l")
    case True
    then have nil: "A = []" "B = []" "C = []" and tl': "tl = l_len l"
      using repr tl(1) by (auto simp: log_repr_def log_get_tail_def is_log_empty_def)
    have "?l = l" using True repr tl' by (cases l) (simp add: log_repr_def)
    then show thesis
      using True nil repr room app append_empty [of l ty data ?i t r c] put_at_entry [of l 0 ?i t r c ty data]
      by (intro that [of "put_at l 0 ?i t r c ty data"]) (auto simp: log_list_def)
  next
    case False
    then have wf: "log_wf l" and walks: "log_from l (nhead l) (A @ B @ C)"
        "log_from l (unat (l_apply l)) (B @ C)" "log_from l (unat (l_commit l)) C"
      using repr by (simp_all add: log_repr_def)
    have "log_wf ?l" "room ?l (data_size ty data)"
      using wf room by (simp_all add: log_wf_def room_def is_log_empty_def)
    then obtain l' where l': "log_append_new ?l ?i t r c ty data = (?i, l')" "log_extends ?l l'" "log_wf l'"
      "log_from l' (nend ?l) [unat (l_tail l')]"
      "entry_at (l_mem l') (unat (l_tail l')) = new_entry ?i t r c ty data"
      "l_apply l' = l_apply l" "l_commit l' = l_commit l" "l_nc_buf l' = l_nc_buf l"
      "log_from l' (unat (l_tail l')) [unat (l_tail l')]"
      by (rule append_nonempty) auto
    have "used ?l = used l" by (intro ext) (simp add: used_def)
    then have ext: "log_extends l l'" using l'(2) by (simp add: log_extends_def)
    note w = log_from_extend [OF ext l'(4)[simplified]]
    have "log_repr l' A B (C @ [unat (l_tail l')])"
      using l' w [OF walks(1)] w [OF walks(2)] w [OF walks(3)] ext log_wf_not_empty [OF l'(3)]
      by (simp add: log_repr_def log_extends_def)
    then show thesis
      using app l' ext log_from_extend_list [OF ext wf walks(1)]
      by (intro that [of l']) (auto simp: log_extends_def)
  qed
qed

end
