(* ===== verification/LogOrder.thy ===== *)
theory LogOrder
  imports LogAppend
begin

text \<open>
  The circular order of the offsets: \<^verbatim>\<open>log_is_offset_larger\<close> compares distances to the end. It is a
  strict linear order on the offsets of the buffer, and every step of a walk goes up in it; the
  minimum searches of log pruning rely on these laws only.
\<close>

subsection \<open>An order on offsets and the search for a minimum\<close>

locale offset_order =
  fixes larger :: "'o \<Rightarrow> 'o \<Rightarrow> bool" and valid :: "'o \<Rightarrow> bool"
  assumes larger_irrefl: "valid a \<Longrightarrow> \<not> larger a a"
    and larger_trans: "valid a \<Longrightarrow> valid b \<Longrightarrow> valid c \<Longrightarrow> larger a b \<Longrightarrow> larger b c \<Longrightarrow> larger a c"
    and larger_total: "valid a \<Longrightarrow> valid b \<Longrightarrow> a \<noteq> b \<Longrightarrow> larger a b \<or> larger b a"
begin

lemma larger_asym: "valid a \<Longrightarrow> valid b \<Longrightarrow> larger a b \<Longrightarrow> \<not> larger b a"
  using larger_irrefl larger_trans by blast

definition keep_min :: "'o \<Rightarrow> 'o \<Rightarrow> 'o" where
  "keep_min x m = (if larger m x then x else m)"

lemma fold_keep_min_mem: "fold keep_min xs m \<in> insert m (set xs)"
  by (induction xs arbitrary: m) (fastforce simp: keep_min_def)+

lemma fold_keep_min_least:
  assumes "valid m" and "\<And>x. x \<in> set xs \<Longrightarrow> valid x" and "y \<in> insert m (set xs)"
  shows "\<not> larger (fold keep_min xs m) y"
  using assms
proof (induction xs arbitrary: m y)
  case Nil
  then show ?case by (simp add: larger_irrefl)
next
  case (Cons x xs)
  have v: "valid (keep_min x m)" "valid x" "valid m" using Cons.prems by (auto simp: keep_min_def)
  have mem: "fold keep_min xs (keep_min x m) \<in> insert (keep_min x m) (set xs)" by (rule fold_keep_min_mem)
  then have vf: "valid (fold keep_min xs (keep_min x m))" using v Cons.prems(2) by auto
  have least: "\<not> larger (fold keep_min xs (keep_min x m)) z" if "z \<in> insert (keep_min x m) (set xs)" for z
    using Cons.IH [OF v(1)] Cons.prems(2) that by simp
  have "\<not> larger (fold keep_min xs (keep_min x m)) z" if z: "z = x \<or> z = m" for z
  proof
    assume l: "larger (fold keep_min xs (keep_min x m)) z"
    have "keep_min x m = z \<or> larger z (keep_min x m)"
      using z v larger_total [of x m] by (auto simp: keep_min_def)
    then show False
      using l least [of "keep_min x m"] larger_trans [OF vf _ v(1) l] z v by auto
  qed
  then show ?case using least Cons.prems(3) by auto
qed

end

subsection \<open>The distance to the end\<close>

definition dist :: "dare_log_t \<Rightarrow> nat \<Rightarrow> nat" where
  "dist l a = (if a \<le> nend l then nend l - a else nlen l + nend l - a)"

definition offset_ok :: "dare_log_t \<Rightarrow> u64 \<Rightarrow> bool" where
  "offset_ok l o' \<longleftrightarrow> is_log_empty l \<and> o' = 0 \<or> log_wf l \<and> unat o' < nlen l"

lemma unat_distance:
  "log_wf l \<Longrightarrow> unat o' \<le> nlen l \<Longrightarrow> unat (log_offset_end_distance l o') = dist l (unat o')"
  by (auto simp: log_offset_end_distance_def dist_def log_wf_def word_to_nat)

lemma log_is_offset_larger_distance:
  "log_is_offset_larger l a b \<longleftrightarrow> log_offset_end_distance l a < log_offset_end_distance l b"
  by (simp add: log_is_offset_larger_def log_offset_end_distance_def)

lemma larger_iff_dist:
  "log_wf l \<Longrightarrow> unat a \<le> nlen l \<Longrightarrow> unat b \<le> nlen l \<Longrightarrow>
    log_is_offset_larger l a b \<longleftrightarrow> dist l (unat a) < dist l (unat b)"
  by (simp add: log_is_offset_larger_distance word_less_nat_alt unat_distance)

lemma dist_inj: "log_wf l \<Longrightarrow> a < nlen l \<Longrightarrow> b < nlen l \<Longrightarrow> dist l a = dist l b \<Longrightarrow> a = b"
  by (auto simp: dist_def log_wf_def split: if_splits)

interpretation log_order: offset_order "log_is_offset_larger l" "offset_ok l" for l
proof unfold_locales
  fix a b c
  show "\<not> log_is_offset_larger l a a"
    by (simp add: log_is_offset_larger_distance)
  show "log_is_offset_larger l a b \<Longrightarrow> log_is_offset_larger l b c \<Longrightarrow> log_is_offset_larger l a c"
    by (auto simp: log_is_offset_larger_distance)
  show "log_is_offset_larger l a b \<or> log_is_offset_larger l b a"
    if "offset_ok l a" "offset_ok l b" "a \<noteq> b"
    using that dist_inj [of l "unat a" "unat b"]
    by (fastforce simp: offset_ok_def larger_iff_dist word_eq_nat dest: log_wf_not_empty)
qed

text \<open>Every step of a walk comes closer to the end, by at least the size of a header.\<close>

lemma dist_here:
  "a \<noteq> nend l \<Longrightarrow> used l a (size_at l a) \<Longrightarrow> log_wf l \<Longrightarrow> dist l (a + size_at l a) + size_at l a \<le> dist l a"
  using entry_size_bounds(1) [of "l_mem l" a] by (auto simp: used_def dist_def log_wf_def split: if_splits)

lemma dist_wrap:
  "a \<noteq> nend l \<Longrightarrow> wraps_at l a \<Longrightarrow> log_wf l \<Longrightarrow> dist l (size_at l 0) + size_at l 0 \<le> dist l a"
  by (auto simp: wraps_at_def dist_def log_wf_def)

lemma log_from_dist: "log_from l a as \<Longrightarrow> log_wf l \<Longrightarrow> 48 * length as \<le> dist l a"
proof (induction rule: log_from.induct)
  case log_from_end
  show ?case by simp
next
  case (log_from_here a as)
  then show ?case using dist_here [of a l] entry_size_bounds(1) [of "l_mem l" a] by simp
next
  case (log_from_wrap a as)
  then show ?case using dist_wrap [of a l] entry_size_bounds(1) [of "l_mem l" 0] by simp
qed

lemma dist_behind:
  assumes "log_from l a (as @ b # bs)" and "log_wf l"
  shows "dist l (b + size_at l b) < dist l a"
  using assms
proof (induction as arbitrary: a)
  case Nil
  then show ?case
    using dist_here [of a l] dist_wrap [of a l] entry_size_bounds(1) [of "l_mem l" b]
    by (auto elim!: log_from_ConsE)
next
  case (Cons x as)
  from Cons.prems show ?case
    using dist_here [of a l] dist_wrap [of a l] Cons.IH [of "a + size_at l a"] Cons.IH [of "size_at l 0"]
    by (force elim!: log_from_ConsE)
qed

lemma log_from_length: "log_from l a as \<Longrightarrow> log_wf l \<Longrightarrow> length as < 2 ^ 62"
  using log_from_dist [of l a as] log_from_bound [of l a as]
  by (auto simp: dist_def log_wf_def split: if_splits)

end
