(* ===== verification/LogProps.thy ===== *)
theory LogProps
  imports LogOrder
begin

text \<open>
  The contract of the log (\<^verbatim>\<open>dare_log.h\<close>): appending, finding the last entry, publishing the entries
  that are not committed and comparing them with those of another server, in terms of the list of
  entries that \<open>log_repr\<close> assigns to the buffer.
\<close>

text \<open>A log with one entry, for the examples.\<close>

lemma one_entry_log:
  obtains l a where "log_repr l [] [] [a]" and "\<not> is_log_empty l" and "log_list l [a] = [new_entry 1 5 0 0 CONFIG (\<lambda>_. 0)]"
proof -
  have room: "room log_new (data_size CONFIG (\<lambda>_. 0))"
    by (simp add: room_def is_log_empty_def log_new_def data_size_def LOG_SIZE_def)
  obtain l where l: "log_repr l [] [] ([] @ [unat (l_tail l)])"
    "entry_at (l_mem l) (unat (l_tail l)) = new_entry (next_idx log_new ([] @ [] @ [])) 5 0 0 CONFIG (\<lambda>_. 0)"
    using log_append_entry_repr [OF log_repr_new room, of 0 5 0 0] by metis
  moreover have "\<not> is_log_empty l" using l(1) by (auto simp: log_repr_def)
  ultimately show thesis using that [of l "unat (l_tail l)"] by (simp add: log_list_def next_idx_def)
qed

text \<open>
  C2. \<^verbatim>\<open>log_append_entry\<close> refines appending to a list. In a well-formed log with room for the entry it
  returns the index after that of the last entry (1 in an empty log), the entry with the given term,
  request, client, type and data becomes the last of the entries that are not committed, all entries
  before it are unchanged, byte for byte as far as they are read, and the head, apply and commit
  offsets stay. This covers the wrap-around of the buffer in both forms: no space for a header at the
  end, or space for a header but not for the command. The flag against two \<open>HEAD\<close> entries in a row is
  reset by every other type.
\<close>

theorem log_append_entry_refines:
  assumes "log_repr l A B C" and "room l (data_size type data)"
  shows "\<exists>l'. log_append_entry l prev trm req_id clt_id type data =
      Some (next_idx l (A @ B @ C), l', if type \<noteq> HEAD then 0 else prev) \<and>
    log_repr l' A B (C @ [unat (l_tail l')]) \<and>
    log_list l' (A @ B @ C @ [unat (l_tail l')]) =
      log_list l (A @ B @ C) @ [new_entry (next_idx l (A @ B @ C)) trm req_id clt_id type data] \<and>
    l_head l' = l_head l \<and> l_apply l' = l_apply l \<and> l_commit l' = l_commit l"
proof -
  obtain l' where l': "log_append_entry l prev trm req_id clt_id type data =
      Some (next_idx l (A @ B @ C), l', if type \<noteq> HEAD then 0 else prev)"
    "log_repr l' A B (C @ [unat (l_tail l')])" "log_list l' (A @ B @ C) = log_list l (A @ B @ C)"
    "entry_at (l_mem l') (unat (l_tail l')) = new_entry (next_idx l (A @ B @ C)) trm req_id clt_id type data"
    "l_head l' = l_head l" "l_apply l' = l_apply l" "l_commit l' = l_commit l"
    using log_append_entry_repr [OF assms, of prev trm req_id clt_id] by metis
  have "log_list l' (A @ B @ C @ [unat (l_tail l')]) =
      log_list l (A @ B @ C) @ [new_entry (next_idx l (A @ B @ C)) trm req_id clt_id type data]"
    using l'(3,4) by (simp add: log_list_def)
  then show ?thesis using l' by blast
qed

theorem log_append_entry_refines_witness:
  "log_repr log_new [] [] [] \<and> room log_new (data_size CONFIG (\<lambda>_. 0)) \<and>
   (\<exists>l'. log_append_entry log_new 1 5 0 0 CONFIG (\<lambda>_. 0) = Some (1, l', 0) \<and>
     log_list l' [unat (l_tail l')] = [new_entry 1 5 0 0 CONFIG (\<lambda>_. 0)])"
proof -
  have room: "room log_new (data_size CONFIG (\<lambda>_. 0))"
    by (simp add: room_def is_log_empty_def log_new_def data_size_def LOG_SIZE_def)
  have "CONFIG \<noteq> HEAD" by (simp add: entry_types)
  then show ?thesis
    using log_append_entry_refines [OF log_repr_new room, of 1 5 0 0] log_repr_new room
    by (auto simp: next_idx_def log_list_def)
qed





text \<open>
  C26. \<^verbatim>\<open>log_get_tail\<close> ends on a well-formed log that holds an entry and returns the offset of the last
  one: looking up the entry there gives the index and the term of the last entry of the list, whether
  the tail is cached or searched from the commit, apply or head offset.
\<close>

theorem log_get_tail_last:
  assumes "log_repr l A B C" and "A @ B @ C \<noteq> []"
  shows "\<exists>t e. log_get_tail l = Some t \<and> log_get_entry l t = (Some e, e) \<and>
    entry_idx (l_mem l) (unat e) = entry_idx (l_mem l) (last (A @ B @ C)) \<and>
    entry_term (l_mem l) (unat e) = entry_term (l_mem l) (last (A @ B @ C))"
proof -
  have ne: "\<not> is_log_empty l" using assms by (auto simp: log_repr_def)
  then obtain t where t: "log_get_tail l = Some t" "log_from l (unat t) [last (A @ B @ C)]"
    using log_get_tail_repr [OF assms(1) _ assms(2)] by blast
  have "log_wf l" using assms(1) ne by (simp add: log_repr_def)
  from log_get_entry_step [OF this t(2)] show ?thesis using t(1) by metis
qed

theorem log_get_tail_last_witness:
  "\<exists>l a t e. log_repr l [] [] [a] \<and> log_get_tail l = Some t \<and> log_get_entry l t = (Some e, e) \<and>
     entry_idx (l_mem l) (unat e) = 1 \<and> entry_term (l_mem l) (unat e) = 5"
proof -
  obtain l a where l: "log_repr l [] [] [a]" "log_list l [a] = [new_entry 1 5 0 0 CONFIG (\<lambda>_. 0)]"
    by (rule one_entry_log)
  have "entry_idx (l_mem l) a = 1" "entry_term (l_mem l) a = 5"
    using l(2) by (simp_all add: log_list_def entry_at_def new_entry_def)
  then show ?thesis using log_get_tail_last [OF l(1)] l(1) by auto
qed




end
