(* ===== verification/Kvs.thy ===== *)
theory Kvs
  imports ByteMem
begin

text \<open>
  The key-value store of \<^verbatim>\<open>dare_kvs_sm.c\<close>, the state machine that a client command is applied to: a
  hash table of linked lists with a running size in bytes. A key is the array of 64 characters of
  the command, read as a C string (up to its first zero byte, which the callers provide). A result
  \<open>None\<close> is an access through a null pointer. The specification is a finite map from strings to
  values.
\<close>

subsection \<open>Data\<close>

definition DEFAULT_KVS_SIZE :: u32 where "DEFAULT_KVS_SIZE = 1024"
definition KEY_SIZE :: nat where "KEY_SIZE = 64"
definition KVS_PUT :: u8 where "KVS_PUT = 1"
definition KVS_GET :: u8 where "KVS_GET = 2"
definition KVS_RM :: u8 where "KVS_RM = 3"
definition sizeof_kvs_snapshot_entry_t :: u32 where "sizeof_kvs_snapshot_entry_t = 66"

lemmas kvs_types = KVS_PUT_def KVS_GET_def KVS_RM_def

record kvs_blob_t =
  blob_len :: u16
  blob_data :: "u8 list option"

record kvs_entry_t =
  kv_key :: "u8 list"
  kv_blob :: kvs_blob_t

record dare_kvs_sm_t =
  kvs_table_size :: u32
  kvs_table :: "nat \<Rightarrow> kvs_entry_t list"
  kvs_size :: u32

definition c_string :: "u8 list \<Rightarrow> u8 list" where
  "c_string k = takeWhile (\<lambda>c. c \<noteq> 0) k"

text \<open>The command as laid out in \<^verbatim>\<open>struct kvs_cmd_t\<close>: type at 0, key at 1, length at 66, data at 68.\<close>

definition cmd_type :: "mem \<Rightarrow> u8" where "cmd_type cmd = rd8 cmd 0"
definition cmd_key :: "mem \<Rightarrow> u8 list" where "cmd_key cmd = read_bytes cmd 1 KEY_SIZE"
definition cmd_len :: "mem \<Rightarrow> u16" where "cmd_len cmd = rd16 cmd 66"
definition cmd_data :: "mem \<Rightarrow> u8 list" where "cmd_data cmd = read_bytes cmd 68 (unat (cmd_len cmd))"

subsection \<open>Operations\<close>

text \<open>The allocations of a call, as the answers the C library gives to them.\<close>

record alloc =
  alloc_node :: bool
  alloc_blob :: bool
  realloc_blob :: bool

definition create_kvs_table :: "bool \<Rightarrow> u32 \<Rightarrow> (nat \<Rightarrow> kvs_entry_t list) option" where
  "create_kvs_table malloc_ok sz = (if \<not> malloc_ok then None else Some (\<lambda>_. []))"

definition create_kvs_sm :: "bool \<Rightarrow> bool \<Rightarrow> u32 \<Rightarrow> u32 \<Rightarrow> dare_kvs_sm_t option" where
  "create_kvs_sm malloc_sm malloc_table global_size sz =
     (let sz = (if 0 = sz then DEFAULT_KVS_SIZE else sz) in
      if \<not> malloc_sm then None
      else case create_kvs_table malloc_table sz of
             None \<Rightarrow> None
           | Some t \<Rightarrow> Some \<lparr>kvs_table_size = sz, kvs_table = t, kvs_size = global_size\<rparr>)"

definition hash :: "dare_kvs_sm_t \<Rightarrow> u8 list \<Rightarrow> u32" where
  "hash sm k = fold (\<lambda>c hashval. scast c + push_bit 5 hashval - hashval) (c_string k) 0 mod kvs_table_size sm"

definition strcmp_eq :: "u8 list \<Rightarrow> u8 list \<Rightarrow> bool" where
  "strcmp_eq a b \<longleftrightarrow> c_string a = c_string b"

fun list_find :: "u8 list \<Rightarrow> kvs_entry_t list \<Rightarrow> kvs_entry_t option" where
  "list_find k [] = None"
| "list_find k (e # list) = (if strcmp_eq k (kv_key e) then Some e else list_find k list)"

definition lookup_key :: "dare_kvs_sm_t \<Rightarrow> u8 list \<Rightarrow> kvs_entry_t option" where
  "lookup_key sm k = list_find k (kvs_table sm (unat (hash sm k)))"

text \<open>The unlinking of the first node with the key; the result carries the node that was freed.\<close>

fun list_unlink :: "u8 list \<Rightarrow> kvs_entry_t list \<Rightarrow> (kvs_entry_t \<times> kvs_entry_t list) option" where
  "list_unlink k [] = None"
| "list_unlink k (e # list) =
     (if strcmp_eq k (kv_key e) then Some (e, list)
      else case list_unlink k list of None \<Rightarrow> None | Some (f, list') \<Rightarrow> Some (f, e # list'))"

definition remove_key :: "dare_kvs_sm_t \<Rightarrow> u8 list \<Rightarrow> dare_kvs_sm_t" where
  "remove_key sm k =
     (let hashval = unat (hash sm k) in
      case list_unlink k (kvs_table sm hashval) of
        None \<Rightarrow> sm
      | Some (e, list) \<Rightarrow>
          sm\<lparr>kvs_table := (kvs_table sm)(hashval := list),
             kvs_size := kvs_size sm - sizeof_kvs_snapshot_entry_t - ucast (blob_len (kv_blob e))\<rparr>)"

text \<open>A store through the pointer to the node that \<open>lookup_key\<close> returned.\<close>

fun list_store :: "u8 list \<Rightarrow> kvs_blob_t \<Rightarrow> kvs_entry_t list \<Rightarrow> kvs_entry_t list" where
  "list_store k b [] = []"
| "list_store k b (e # list) = (if strcmp_eq k (kv_key e) then e\<lparr>kv_blob := b\<rparr> # list else e # list_store k b list)"

definition store_blob :: "dare_kvs_sm_t \<Rightarrow> u8 list \<Rightarrow> kvs_blob_t \<Rightarrow> dare_kvs_sm_t" where
  "store_blob sm k b =
     (let hashval = unat (hash sm k) in
      sm\<lparr>kvs_table := (kvs_table sm)(hashval := list_store k b (kvs_table sm hashval))\<rparr>)"

definition write_key :: "alloc \<Rightarrow> dare_kvs_sm_t \<Rightarrow> u8 list \<Rightarrow> u16 \<Rightarrow> u8 list \<Rightarrow> (int \<times> dare_kvs_sm_t) option" where
  "write_key al sm k len data =
     (case lookup_key sm k of
        Some e \<Rightarrow>
          if blob_len (kv_blob e) \<noteq> len then
            let sm = sm\<lparr>kvs_size := kvs_size sm + (ucast len - ucast (blob_len (kv_blob e)))\<rparr> in
            if \<not> realloc_blob al then Some (1, store_blob sm k \<lparr>blob_len = len, blob_data = None\<rparr>)
            else Some (0, store_blob sm k \<lparr>blob_len = len, blob_data = Some data\<rparr>)
          else if blob_data (kv_blob e) = None \<and> len \<noteq> 0 then None
          else if len = 0 then Some (0, sm)
          else Some (0, store_blob sm k \<lparr>blob_len = len, blob_data = Some data\<rparr>)
      | None \<Rightarrow>
          let hashval = unat (hash sm k) in
          if \<not> alloc_node al then Some (1, sm)
          else
            let sm = sm\<lparr>kvs_size := kvs_size sm + (sizeof_kvs_snapshot_entry_t + ucast len)\<rparr> in
            if \<not> alloc_blob al then Some (1, sm)
            else Some (0, sm\<lparr>kvs_table := (kvs_table sm)(hashval :=
                   \<lparr>kv_key = k, kv_blob = \<lparr>blob_len = len, blob_data = Some data\<rparr>\<rparr> # kvs_table sm hashval)\<rparr>))"

text \<open>The return code, the store, and the answer written to \<^verbatim>\<open>data\<close> by a \<open>GET\<close>.\<close>

definition apply_kvs_cmd ::
    "alloc \<Rightarrow> dare_kvs_sm_t option \<Rightarrow> mem \<Rightarrow> (int \<times> dare_kvs_sm_t option \<times> (u16 \<times> u8 list) option) option" where
  "apply_kvs_cmd al kvs_sm cmd =
     (case kvs_sm of
        None \<Rightarrow> Some (1, kvs_sm, None)
      | Some sm \<Rightarrow>
          if cmd_type cmd = KVS_PUT then
            (case write_key al sm (cmd_key cmd) (cmd_len cmd) (cmd_data cmd) of
               None \<Rightarrow> None
             | Some (rc, sm) \<Rightarrow> if 0 \<noteq> rc then Some (1, Some sm, None) else Some (0, Some sm, None))
          else if cmd_type cmd = KVS_GET then
            (case lookup_key sm (cmd_key cmd) of
               None \<Rightarrow> Some (0, kvs_sm, Some (0, []))
             | Some e \<Rightarrow>
                 (case blob_data (kv_blob e) of
                    None \<Rightarrow> if blob_len (kv_blob e) \<noteq> 0 then None else Some (0, kvs_sm, Some (0, []))
                  | Some d \<Rightarrow> Some (0, kvs_sm, Some (blob_len (kv_blob e), take (unat (blob_len (kv_blob e))) d))))
          else if cmd_type cmd = KVS_RM then Some (0, Some (remove_key sm (cmd_key cmd)), None)
          else Some (1, kvs_sm, None))"

text \<open>The nodes and blobs that \<^verbatim>\<open>destroy_kvs_sm\<close> passes to \<^verbatim>\<open>free\<close>, in the order of its loops.\<close>

definition destroy_kvs_sm :: "dare_kvs_sm_t option \<Rightarrow> kvs_entry_t list" where
  "destroy_kvs_sm kvs_sm =
     (case kvs_sm of None \<Rightarrow> []
      | Some sm \<Rightarrow> for_to (unat (kvs_table_size sm)) (\<lambda>i freed. freed @ kvs_table sm i) [])"

end
