(* ===== verification/KvsSpec.thy ===== *)
theory KvsSpec
  imports Kvs
begin

text \<open>
  The store as a map: \<open>kvs_inv\<close> says that every entry is in the bucket of its key, that no key
  occurs twice, and that \<^verbatim>\<open>kvs_size\<close> counts the bytes of a snapshot. Under it the operations are
  those of a map from strings to values.
\<close>

subsection \<open>The contract of a key-value store\<close>

datatype ('k, 'v) kv_op = Put 'k 'v | Remove 'k

locale kv_store =
  fixes inv :: "'s \<Rightarrow> bool" and str :: "'k \<Rightarrow> 'c" and okv :: "'v \<Rightarrow> bool"
    and get :: "'s \<Rightarrow> 'k \<Rightarrow> 'v option" and put :: "'s \<Rightarrow> 'k \<Rightarrow> 'v \<Rightarrow> 's" and rm :: "'s \<Rightarrow> 'k \<Rightarrow> 's"
  assumes inv_put: "inv s \<Longrightarrow> okv v \<Longrightarrow> inv (put s k v)"
    and inv_rm: "inv s \<Longrightarrow> inv (rm s k)"
    and get_put: "inv s \<Longrightarrow> okv v \<Longrightarrow> get (put s k v) k' = (if str k' = str k then Some v else get s k')"
    and get_rm: "inv s \<Longrightarrow> get (rm s k) k' = (if str k' = str k then None else get s k')"
begin

primrec exec :: "('k, 'v) kv_op \<Rightarrow> 's \<Rightarrow> 's" where
  "exec (Put k v) s = put s k v"
| "exec (Remove k) s = rm s k"

primrec spec :: "('k, 'v) kv_op \<Rightarrow> ('c \<rightharpoonup> 'v) \<Rightarrow> ('c \<rightharpoonup> 'v)" where
  "spec (Put k v) m = m(str k \<mapsto> v)"
| "spec (Remove k) m = m(str k := None)"

primrec op_ok :: "('k, 'v) kv_op \<Rightarrow> bool" where
  "op_ok (Put k v) = okv v"
| "op_ok (Remove k) = True"

lemma run_refines_map:
  assumes "inv s" and "\<forall>k. get s k = m (str k)" and "\<forall>x \<in> set ops. op_ok x"
  shows "inv (fold exec ops s) \<and> (\<forall>k. get (fold exec ops s) k = fold spec ops m (str k))"
  using assms
proof (induction ops arbitrary: s m)
  case Nil
  then show ?case by simp
next
  case (Cons x ops)
  have ok: "op_ok x" using Cons.prems(3) by simp
  then have "inv (exec x s)" using Cons.prems(1) by (cases x) (auto intro: inv_put inv_rm)
  moreover have "\<forall>k. get (exec x s) k = spec x m (str k)"
    using Cons.prems(1,2) ok by (cases x) (auto simp: get_put get_rm)
  ultimately show ?case using Cons.IH [of "exec x s" "spec x m"] Cons.prems(3) by simp
qed

end

subsection \<open>Buckets\<close>

definition entry_bytes :: "kvs_entry_t \<Rightarrow> u32" where
  "entry_bytes e = sizeof_kvs_snapshot_entry_t + ucast (blob_len (kv_blob e))"

definition bucket_bytes :: "kvs_entry_t list \<Rightarrow> u32" where
  "bucket_bytes list = sum_list (map entry_bytes list)"

definition bucket_keys :: "kvs_entry_t list \<Rightarrow> u8 list list" where
  "bucket_keys list = map (\<lambda>e. c_string (kv_key e)) list"

definition entry_ok :: "kvs_entry_t \<Rightarrow> bool" where
  "entry_ok e \<longleftrightarrow> (case blob_data (kv_blob e) of None \<Rightarrow> False | Some d \<Rightarrow> length d = unat (blob_len (kv_blob e)))"

lemma list_find_None: "list_find k list = None \<longleftrightarrow> c_string k \<notin> set (bucket_keys list)"
  by (induction list) (auto simp: bucket_keys_def strcmp_eq_def)

lemma list_find_Some: "list_find k list = Some e \<Longrightarrow> e \<in> set list \<and> c_string (kv_key e) = c_string k"
  by (induction list) (auto simp: strcmp_eq_def split: if_splits)

lemma list_find_cong: "c_string k = c_string k' \<Longrightarrow> list_find k list = list_find k' list"
  by (induction list) (auto simp: strcmp_eq_def)

lemma list_store_keys: "bucket_keys (list_store k b list) = bucket_keys list"
  by (induction list) (auto simp: bucket_keys_def)

lemma list_store_find:
  "list_find k' (list_store k b list) =
     (if strcmp_eq k' k then map_option (kv_blob_update (\<lambda>_. b)) (list_find k list) else list_find k' list)"
  by (induction list) (auto simp: strcmp_eq_def)

lemma list_store_bytes:
  "list_find k list = Some e \<Longrightarrow>
    bucket_bytes (list_store k b list) = bucket_bytes list + (ucast (blob_len b) - ucast (blob_len (kv_blob e)))"
  by (induction list) (auto simp: bucket_bytes_def entry_bytes_def split: if_splits)

lemma list_store_set:
  "x \<in> set (list_store k b list) \<Longrightarrow> x \<in> set list \<or> (\<exists>e \<in> set list. x = e\<lparr>kv_blob := b\<rparr> \<and> list_find k list = Some e)"
  by (induction list) (auto split: if_splits)

lemma list_unlink_None: "list_unlink k list = None \<longleftrightarrow> c_string k \<notin> set (bucket_keys list)"
  by (induction list) (auto simp: bucket_keys_def strcmp_eq_def split: option.splits)

lemma list_unlink_Some:
  "list_unlink k list = Some (e, list') \<Longrightarrow>
    bucket_bytes list' = bucket_bytes list - entry_bytes e \<and> set list' \<subseteq> set list \<and>
    (distinct (bucket_keys list) \<longrightarrow> distinct (bucket_keys list') \<and>
     (\<forall>k'. list_find k' list' = (if c_string k' = c_string k then None else list_find k' list)))"
proof (induction list arbitrary: list')
  case Nil
  then show ?case by simp
next
  case (Cons x list)
  show ?case
  proof (cases "strcmp_eq k (kv_key x)")
    case True
    then show ?thesis
      using Cons.prems list_find_None [of k list]
      by (auto simp: bucket_bytes_def bucket_keys_def strcmp_eq_def list_find_None)
  next
    case False
    then obtain l where l: "list_unlink k list = Some (e, l)" "list' = x # l"
      using Cons.prems by (auto split: option.splits)
    have "set (bucket_keys l) \<subseteq> set (bucket_keys list)"
      using Cons.IH [OF l(1)] by (auto simp: bucket_keys_def)
    then show ?thesis
      using False Cons.IH [OF l(1)] l(2) by (auto simp: bucket_bytes_def bucket_keys_def strcmp_eq_def)
  qed
qed

subsection \<open>The table\<close>

definition kvs_bytes :: "dare_kvs_sm_t \<Rightarrow> u32" where
  "kvs_bytes sm = (\<Sum>b<unat (kvs_table_size sm). bucket_bytes (kvs_table sm b))"

definition kvs_inv :: "dare_kvs_sm_t \<Rightarrow> bool" where
  "kvs_inv sm \<longleftrightarrow> kvs_table_size sm \<noteq> 0 \<and> kvs_size sm = kvs_bytes sm \<and>
     (\<forall>b. distinct (bucket_keys (kvs_table sm b)) \<and>
          (\<forall>e \<in> set (kvs_table sm b). unat (hash sm (kv_key e)) = b \<and> entry_ok e))"

definition kvs_get :: "dare_kvs_sm_t \<Rightarrow> u8 list \<Rightarrow> u8 list option" where
  "kvs_get sm k = Option.bind (lookup_key sm k) (\<lambda>e. blob_data (kv_blob e))"

lemma hash_bound: "kvs_table_size sm \<noteq> 0 \<Longrightarrow> unat (hash sm k) < unat (kvs_table_size sm)"
  by (simp add: hash_def unat_mod word_eq_nat)

lemma hash_table_update [simp]:
  "hash (sm\<lparr>kvs_table := t\<rparr>) k = hash sm k" "hash (sm\<lparr>kvs_size := n\<rparr>) k = hash sm k"
  by (simp_all add: hash_def)

lemma hash_c_string: "c_string k = c_string k' \<Longrightarrow> hash sm k = hash sm k'"
  by (simp add: hash_def)

lemma sum_update_bucket:
  fixes f :: "'a \<Rightarrow> u32" and h n :: nat
  assumes "h < n"
  shows "(\<Sum>b<n. f ((t(h := x)) b)) = (\<Sum>b<n. f (t b)) - f (t h) + f x"
proof -
  have "(\<Sum>b<n. f ((t(h := x)) b)) = f x + (\<Sum>b\<in>{..<n} - {h}. f ((t(h := x)) b))"
    using assms by (subst sum.remove [of _ h]) auto
  also have "(\<Sum>b\<in>{..<n} - {h}. f ((t(h := x)) b)) = (\<Sum>b\<in>{..<n} - {h}. f (t b))"
    by (rule sum.cong) auto
  also have "\<dots> = (\<Sum>b<n. f (t b)) - f (t h)"
    using assms by (simp add: sum.remove [of "{..<n}" h])
  finally show ?thesis by simp
qed

lemma kvs_bytes_update:
  "kvs_table_size sm \<noteq> 0 \<Longrightarrow>
    kvs_bytes (sm\<lparr>kvs_table := (kvs_table sm)(unat (hash sm k) := list)\<rparr>) =
    kvs_bytes sm - bucket_bytes (kvs_table sm (unat (hash sm k))) + bucket_bytes list"
  using hash_bound [of sm k] by (simp add: kvs_bytes_def sum_update_bucket del: fun_upd_apply)

text \<open>The invariant and the lookups after one bucket was replaced.\<close>

lemma kvs_inv_update:
  assumes "kvs_inv sm" and "distinct (bucket_keys list)"
    and "\<And>e. e \<in> set list \<Longrightarrow> hash sm (kv_key e) = hash sm k \<and> entry_ok e"
    and "sz = kvs_size sm - bucket_bytes (kvs_table sm (unat (hash sm k))) + bucket_bytes list"
  shows "kvs_inv (sm\<lparr>kvs_table := (kvs_table sm)(unat (hash sm k) := list), kvs_size := sz\<rparr>)"
  using assms kvs_bytes_update [of sm k list] unfolding kvs_inv_def
  by (auto simp: kvs_bytes_def)

lemma lookup_key_update:
  "lookup_key (sm\<lparr>kvs_table := (kvs_table sm)(h := list), kvs_size := sz\<rparr>) k' =
    (if unat (hash sm k') = h then list_find k' list else lookup_key sm k')"
  by (simp add: lookup_key_def)

subsection \<open>The operations keep the invariant and act on the map\<close>

definition all_ok :: alloc where
  "all_ok = \<lparr>alloc_node = True, alloc_blob = True, realloc_blob = True\<rparr>"

definition kvs_put :: "dare_kvs_sm_t \<Rightarrow> u8 list \<Rightarrow> u8 list \<Rightarrow> dare_kvs_sm_t" where
  "kvs_put sm k v = (case write_key all_ok sm k (of_nat (length v)) v of Some (_, sm') \<Rightarrow> sm' | None \<Rightarrow> sm)"

definition value_ok :: "u8 list \<Rightarrow> bool" where
  "value_ok v \<longleftrightarrow> length v < 2 ^ 16"

lemma store_blob_inv:
  assumes inv: "kvs_inv sm" and e: "lookup_key sm k = Some e" and v: "length v = unat len"
    and sz: "sz = kvs_size sm + (ucast len - ucast (blob_len (kv_blob e)))"
  defines "sm' \<equiv> store_blob (sm\<lparr>kvs_size := sz\<rparr>) k \<lparr>blob_len = len, blob_data = Some v\<rparr>"
  shows "kvs_inv sm'" and "kvs_get sm' k' = (if c_string k' = c_string k then Some v else kvs_get sm k')"
proof -
  let ?b = "\<lparr>blob_len = len, blob_data = Some v\<rparr>"
  let ?list = "list_store k ?b (kvs_table sm (unat (hash sm k)))"
  have f: "list_find k (kvs_table sm (unat (hash sm k))) = Some e" using e by (simp add: lookup_key_def)
  have sm': "sm' = sm\<lparr>kvs_table := (kvs_table sm)(unat (hash sm k) := ?list), kvs_size := sz\<rparr>"
    by (simp add: sm'_def store_blob_def Let_def)
  have "hash sm (kv_key x) = hash sm k \<and> entry_ok x" if "x \<in> set ?list" for x
    using list_store_set [OF that] inv v list_find_Some [OF f]
    by (auto simp: kvs_inv_def entry_ok_def word_eq_nat)
  then show "kvs_inv sm'"
    unfolding sm' using inv sz
    by (intro kvs_inv_update) (auto simp: list_store_keys kvs_inv_def list_store_bytes [OF f])
  show "kvs_get sm' k' = (if c_string k' = c_string k then Some v else kvs_get sm k')"
    using f hash_c_string [of k' k sm] unfolding sm' kvs_get_def lookup_key_update
    by (auto simp: list_store_find strcmp_eq_def lookup_key_def)
qed

lemma lookup_entry_ok:
  assumes "kvs_inv sm" and "lookup_key sm k = Some e"
  obtains d where "blob_data (kv_blob e) = Some d" "length d = unat (blob_len (kv_blob e))"
proof -
  have "entry_ok e"
    using assms(1) list_find_Some [OF assms(2) [unfolded lookup_key_def]] by (auto simp: kvs_inv_def)
  then show thesis using that by (auto simp: entry_ok_def split: option.splits)
qed

lemma write_key_ok:
  assumes inv: "kvs_inv sm" and v: "length v = unat len"
  obtains sm' where "write_key all_ok sm k len v = Some (0, sm')" and "kvs_inv sm'"
    and "\<And>k'. kvs_get sm' k' = (if c_string k' = c_string k then Some v else kvs_get sm k')"
proof (cases "lookup_key sm k")
  case None
  let ?h = "unat (hash sm k)"
  let ?e = "\<lparr>kv_key = k, kv_blob = \<lparr>blob_len = len, blob_data = Some v\<rparr>\<rparr>"
  let ?sm = "sm\<lparr>kvs_table := (kvs_table sm)(?h := ?e # kvs_table sm ?h),
               kvs_size := kvs_size sm + (sizeof_kvs_snapshot_entry_t + ucast len)\<rparr>"
  have "kvs_inv ?sm"
    using inv v None
    by (intro kvs_inv_update)
       (auto simp: lookup_key_def list_find_None kvs_inv_def bucket_keys_def bucket_bytes_def entry_bytes_def
         entry_ok_def word_eq_nat)
  moreover have "kvs_get ?sm k' = (if c_string k' = c_string k then Some v else kvs_get sm k')" for k'
    using hash_c_string [of k' k sm] unfolding kvs_get_def lookup_key_update
    by (auto simp: strcmp_eq_def lookup_key_def)
  moreover have "write_key all_ok sm k len v = Some (0, ?sm)"
    using None by (simp add: write_key_def all_ok_def Let_def)
  ultimately show thesis by (intro that [of ?sm])
next
  case (Some e)
  obtain d where d: "blob_data (kv_blob e) = Some d" "length d = unat (blob_len (kv_blob e))"
    using lookup_entry_ok [OF inv Some] .
  have get: "kvs_get sm k' = Some d" if "c_string k' = c_string k" for k'
    using Some d(1) hash_c_string [OF that, of sm] list_find_cong [OF that]
    by (simp add: kvs_get_def lookup_key_def)
  consider (same) "blob_len (kv_blob e) = len" "len = 0" | (over) "blob_len (kv_blob e) = len" "len \<noteq> 0"
    | (resize) "blob_len (kv_blob e) \<noteq> len" by blast
  then show thesis
  proof cases
    case same
    then have "d = v" using d v by simp
    then show thesis
      using same Some get inv by (intro that [of sm]) (simp_all add: write_key_def)
  next
    case over
    have "sm\<lparr>kvs_size := kvs_size sm\<rparr> = sm" by simp
    then show thesis
      using over Some d store_blob_inv [OF inv Some v, of "kvs_size sm"]
      by (intro that [of "store_blob sm k \<lparr>blob_len = len, blob_data = Some v\<rparr>"]) (simp_all add: write_key_def)
  next
    case resize
    note w = store_blob_inv [OF inv Some v refl]
    show thesis
      by (rule that [OF _ w]) (use resize Some in \<open>simp add: write_key_def all_ok_def Let_def\<close>)
  qed
qed

lemma remove_key_ok:
  assumes inv: "kvs_inv sm"
  shows "kvs_inv (remove_key sm k)"
    and "kvs_get (remove_key sm k) k' = (if c_string k' = c_string k then None else kvs_get sm k')"
proof -
  let ?h = "unat (hash sm k)"
  have dist: "distinct (bucket_keys (kvs_table sm ?h))" using inv by (simp add: kvs_inv_def)
  consider (none) "list_unlink k (kvs_table sm ?h) = None"
    | (some) e list where "list_unlink k (kvs_table sm ?h) = Some (e, list)"
    by (cases "list_unlink k (kvs_table sm ?h)") auto
  then have "kvs_inv (remove_key sm k) \<and>
      kvs_get (remove_key sm k) k' = (if c_string k' = c_string k then None else kvs_get sm k')"
  proof cases
    case none
    then have "list_find k (kvs_table sm ?h) = None" by (simp add: list_find_None list_unlink_None)
    then have "kvs_get sm k' = None" if "c_string k' = c_string k"
      using hash_c_string [OF that, of sm] list_find_cong [OF that] by (simp add: kvs_get_def lookup_key_def)
    then show ?thesis using none inv by (simp add: remove_key_def Let_def)
  next
    case some
    note u = list_unlink_Some [OF some]
    let ?sm = "sm\<lparr>kvs_table := (kvs_table sm)(?h := list), kvs_size := kvs_size sm - entry_bytes e\<rparr>"
    have rm: "remove_key sm k = ?sm"
      using some by (simp add: remove_key_def Let_def entry_bytes_def diff_diff_eq)
    have "hash sm (kv_key x) = hash sm k \<and> entry_ok x" if "x \<in> set list" for x
      using that u inv by (auto simp: kvs_inv_def word_eq_nat)
    then have "kvs_inv ?sm"
      using inv u dist by (intro kvs_inv_update) auto
    moreover have "kvs_get ?sm k' = (if c_string k' = c_string k then None else kvs_get sm k')"
      using u dist hash_c_string [of k' k sm] unfolding kvs_get_def lookup_key_update
      by (auto simp: lookup_key_def)
    ultimately show ?thesis using rm by simp
  qed
  then show "kvs_inv (remove_key sm k)"
    and "kvs_get (remove_key sm k) k' = (if c_string k' = c_string k then None else kvs_get sm k')"
    by auto
qed

lemma kvs_put_ok:
  assumes "kvs_inv sm" and "value_ok v"
  shows "kvs_inv (kvs_put sm k v)"
    and "kvs_get (kvs_put sm k v) k' = (if c_string k' = c_string k then Some v else kvs_get sm k')"
proof -
  have "length v = unat (of_nat (length v) :: u16)"
    using assms(2) by (simp add: value_ok_def unat_of_nat)
  then obtain sm' where "write_key all_ok sm k (of_nat (length v)) v = Some (0, sm')" "kvs_inv sm'"
    "\<And>k'. kvs_get sm' k' = (if c_string k' = c_string k then Some v else kvs_get sm k')"
    by (rule write_key_ok [OF assms(1)]) blast
  then show "kvs_inv (kvs_put sm k v)"
    "kvs_get (kvs_put sm k v) k' = (if c_string k' = c_string k then Some v else kvs_get sm k')"
    by (simp_all add: kvs_put_def)
qed

interpretation kvs: kv_store kvs_inv c_string value_ok kvs_get kvs_put remove_key
  by unfold_locales (simp_all add: kvs_put_ok remove_key_ok)

lemma create_kvs_inv:
  assumes "create_kvs_sm True True 0 n = Some sm"
  shows "kvs_inv sm" and "kvs_get sm k = None"
  using assms
  by (auto split: if_splits simp: create_kvs_sm_def create_kvs_table_def Let_def kvs_inv_def kvs_bytes_def kvs_get_def
      lookup_key_def bucket_keys_def bucket_bytes_def DEFAULT_KVS_SIZE_def)

subsection \<open>Commands\<close>




subsection \<open>Sequences of commands\<close>







text \<open>
  C32. When an allocation for a \<open>PUT\<close> of a new key fails for the value after it succeeded for the node,
  \<^verbatim>\<open>write_key\<close> returns 1 and stores nothing, but the size counter has already been increased: it no
  longer equals the number of bytes of a snapshot.
\<close>

theorem write_key_failed_blob:
  assumes "kvs_inv sm" and "kvs_get sm k = None"
  shows "\<exists>sm'. write_key \<lparr>alloc_node = True, alloc_blob = False, realloc_blob = True\<rparr> sm k len data = Some (1, sm') \<and>
    (\<forall>k'. kvs_get sm' k' = kvs_get sm k') \<and> kvs_bytes sm' = kvs_bytes sm \<and>
    kvs_size sm' = kvs_bytes sm' + (66 + ucast len)"
proof -
  have "lookup_key sm k = None"
  proof (cases "lookup_key sm k")
    case (Some e)
    obtain d where "blob_data (kv_blob e) = Some d" using lookup_entry_ok [OF assms(1) Some] .
    then show ?thesis using assms(2) Some by (simp add: kvs_get_def)
  qed
  then show ?thesis
    using assms(1)
    by (auto simp: write_key_def Let_def kvs_get_def lookup_key_def hash_def kvs_bytes_def kvs_inv_def
        sizeof_kvs_snapshot_entry_t_def)
qed

theorem write_key_failed_blob_witness:
  "\<exists>sm sm'. create_kvs_sm True True 0 0 = Some sm \<and>
     write_key \<lparr>alloc_node = True, alloc_blob = False, realloc_blob = True\<rparr> sm [1, 0] 5 [1, 2, 3, 4, 5] = Some (1, sm') \<and>
     kvs_size sm' = kvs_bytes sm' + 71"
proof -
  obtain sm where sm: "create_kvs_sm True True 0 0 = Some sm"
    by (simp add: create_kvs_sm_def create_kvs_table_def Let_def)
  show ?thesis
    using write_key_failed_blob [OF create_kvs_inv(1) [OF sm] create_kvs_inv(2) [OF sm], of "[1, 0]" 5 "[1, 2, 3, 4, 5]"] sm
    by auto
qed

end
