(* ===== verification/Sid.thy ===== *)
theory Sid
  imports Prelude
begin

text \<open>
  The packed 64-bit identifiers of the protocol: the state identifier (SID) \<open>[TERM|L|IDX]\<close> of
  \<^verbatim>\<open>dare_server.h\<close> and the work-request identifier (WRID) \<open>[SSN|WA|TAG|CONN]\<close> of
  \<^verbatim>\<open>dare_ibv_rc.h\<close>. The accessor macros are definitions on 64-bit words; the locale
  \<open>packed_field\<close> states what a get/set pair of such macros promises and is interpreted for every
  field. The numeric order on SIDs, on which elections rest, is shown to be the lexicographic order
  on (term, leader flag, index).
\<close>

subsection \<open>State identifiers\<close>

definition SID_GET_IDX :: "u64 \<Rightarrow> u8" where
  "SID_GET_IDX sid = ucast (sid AND 0xFF)"

definition SID_SET_IDX :: "u64 \<Rightarrow> u8 \<Rightarrow> u64" where
  "SID_SET_IDX sid idx = ucast idx OR push_bit 8 (drop_bit 8 sid)"

definition SID_GET_L :: "u64 \<Rightarrow> bool" where
  "SID_GET_L sid \<longleftrightarrow> sid AND push_bit 8 1 \<noteq> 0"

definition SID_SET_L :: "u64 \<Rightarrow> u64" where
  "SID_SET_L sid = sid OR push_bit 8 1"

definition SID_UNSET_L :: "u64 \<Rightarrow> u64" where
  "SID_UNSET_L sid = sid AND NOT (push_bit 8 1)"

definition SID_GET_TERM :: "u64 \<Rightarrow> u64" where
  "SID_GET_TERM sid = drop_bit 9 sid"

definition SID_SET_TERM :: "u64 \<Rightarrow> u64 \<Rightarrow> u64" where
  "SID_SET_TERM sid term = push_bit 9 term OR (sid AND 0x1FF)"

definition IS_SID_NEW :: "u64 \<Rightarrow> bool" where
  "IS_SID_NEW sid \<longleftrightarrow> \<not> SID_GET_L sid \<and> SID_GET_TERM sid = 0"

definition SID_NULL :: u64 where "SID_NULL = 0xFF"

subsection \<open>Work-request identifiers\<close>

definition WRID_GET_CONN :: "u64 \<Rightarrow> u8" where
  "WRID_GET_CONN wrid = ucast (wrid AND 0xFF)"

definition WRID_SET_CONN :: "u64 \<Rightarrow> u8 \<Rightarrow> u64" where
  "WRID_SET_CONN wrid conn = ucast conn OR push_bit 8 (drop_bit 8 wrid)"

definition WRID_GET_TAG :: "u64 \<Rightarrow> bool" where
  "WRID_GET_TAG wrid \<longleftrightarrow> wrid AND push_bit 8 1 \<noteq> 0"

definition WRID_SET_TAG :: "u64 \<Rightarrow> u64" where
  "WRID_SET_TAG wrid = wrid OR push_bit 8 1"

definition WRID_UNSET_TAG :: "u64 \<Rightarrow> u64" where
  "WRID_UNSET_TAG wrid = wrid AND NOT (push_bit 8 1)"

definition WRID_GET_WA :: "u64 \<Rightarrow> bool" where
  "WRID_GET_WA wrid \<longleftrightarrow> wrid AND push_bit 9 1 \<noteq> 0"

definition WRID_SET_WA :: "u64 \<Rightarrow> u64" where
  "WRID_SET_WA wrid = wrid OR push_bit 9 1"

definition WRID_UNSET_WA :: "u64 \<Rightarrow> u64" where
  "WRID_UNSET_WA wrid = wrid AND NOT (push_bit 9 1)"

definition WRID_GET_SSN :: "u64 \<Rightarrow> u64" where
  "WRID_GET_SSN wrid = drop_bit 10 wrid"

definition WRID_SET_SSN :: "u64 \<Rightarrow> u64 \<Rightarrow> u64" where
  "WRID_SET_SSN wrid ssn = push_bit 10 ssn OR (wrid AND 0x3FF)"

lemmas sid_defs = SID_GET_IDX_def SID_SET_IDX_def SID_GET_L_def SID_SET_L_def SID_UNSET_L_def
  SID_GET_TERM_def SID_SET_TERM_def
lemmas wrid_defs = WRID_GET_CONN_def WRID_SET_CONN_def WRID_GET_TAG_def WRID_SET_TAG_def
  WRID_UNSET_TAG_def WRID_GET_WA_def WRID_SET_WA_def WRID_UNSET_WA_def WRID_GET_SSN_def
  WRID_SET_SSN_def

subsection \<open>Bits of the fields\<close>

lemma low_masks:
  "(0xFF :: u64) = mask 8" "(0x1FF :: u64) = mask 9" "(0x3FF :: u64) = mask 10"
  by (simp_all add: mask_eq_exp_minus_1)

lemma flag_words: "bit (256 :: int) i = (i = 8)" "bit (512 :: int) i = (i = 9)"
proof -
  have "(256 :: int) = 2 ^ 8" and "(512 :: int) = 2 ^ 9" by simp_all
  moreover have "bit ((2 :: int) ^ 8) i = (i = 8)" and "bit ((2 :: int) ^ 9) i = (i = 9)"
    by (auto simp only: bit_exp_iff possible_bit_int)
  ultimately show "bit (256 :: int) i = (i = 8)" and "bit (512 :: int) i = (i = 9)"
    by simp_all
qed

lemma flag_set:
  "(w AND 256 = 0) = (\<not> bit (w :: u64) 8)" "(w AND 512 = 0) = (\<not> bit (w :: u64) 9)"
  unfolding bit_eq_iff [where ?'a = "64 word"] by (auto simp: bit_and_iff flag_words dest: spec [of _ 8] spec [of _ 9])

lemma field_bits:
  "bit (SID_GET_IDX s) i = (i < 8 \<and> bit s i)"
  "bit (SID_SET_IDX s x) i = (if i < 8 then bit x i else bit s i)"
  "SID_GET_L s = bit s 8"
  "bit (SID_SET_L s) i = (i = 8 \<or> bit s i)"
  "bit (SID_UNSET_L s) i = (i \<noteq> 8 \<and> bit s i)"
  "bit (SID_GET_TERM s) i = bit s (9 + i)"
  "bit (SID_SET_TERM s t) i = (if i < 9 then bit s i else i < 64 \<and> bit t (i - 9))"
  by (auto simp: sid_defs low_masks flag_words flag_set bit_simps dest: bit_imp_le_length)

lemma wrid_bits:
  "bit (WRID_GET_CONN s) i = (i < 8 \<and> bit s i)"
  "bit (WRID_SET_CONN s x) i = (if i < 8 then bit x i else bit s i)"
  "WRID_GET_TAG s = bit s 8"
  "bit (WRID_SET_TAG s) i = (i = 8 \<or> bit s i)"
  "bit (WRID_UNSET_TAG s) i = (i \<noteq> 8 \<and> bit s i)"
  "WRID_GET_WA s = bit s 9"
  "bit (WRID_SET_WA s) i = (i = 9 \<or> bit s i)"
  "bit (WRID_UNSET_WA s) i = (i \<noteq> 9 \<and> bit s i)"
  "bit (WRID_GET_SSN s) i = bit s (10 + i)"
  "bit (WRID_SET_SSN s t) i = (if i < 10 then bit s i else i < 64 \<and> bit t (i - 10))"
  by (auto simp: wrid_defs low_masks flag_words flag_set bit_simps dest: bit_imp_le_length)

subsection \<open>What a packed field promises\<close>

locale packed_field =
  fixes get :: "u64 \<Rightarrow> 'v" and set_to :: "u64 \<Rightarrow> 'v \<Rightarrow> u64" and fits :: "'v \<Rightarrow> bool"
  assumes get_set: "fits v \<Longrightarrow> get (set_to w v) = v"
    and set_get: "set_to w (get w) = w"
    and set_set: "set_to (set_to w v) v' = set_to w v'"
begin

lemma set_eq_iff: "fits v \<Longrightarrow> (set_to w v = w) = (get w = v)"
  using get_set set_get by metis

lemma set_inj: "fits v \<Longrightarrow> fits v' \<Longrightarrow> (set_to w v = set_to w v') = (v = v')"
  using get_set by metis

end

definition fits_term :: "u64 \<Rightarrow> bool" where "fits_term t \<longleftrightarrow> unat t < 2 ^ 55"

definition fits_ssn :: "u64 \<Rightarrow> bool" where "fits_ssn t \<longleftrightarrow> unat t < 2 ^ 54"

lemma high_bits_clear: "unat (t :: u64) < 2 ^ n \<Longrightarrow> bit t i \<Longrightarrow> i < n"
proof (rule ccontr)
  assume t: "unat t < 2 ^ n" and b: "bit t i" and "\<not> i < n"
  then have "unat t < 2 ^ i"
    by (meson le_less_trans less_le_trans linorder_not_less one_le_numeral power_increasing)
  moreover have "odd (unat t div 2 ^ i)"
    using b by (simp add: bit_iff_odd [symmetric] bit_unsigned_iff)
  ultimately show False by simp
qed

lemma sid_idx_laws:
  "SID_GET_IDX (SID_SET_IDX w v) = v"
  "SID_SET_IDX w (SID_GET_IDX w) = w"
  "SID_SET_IDX (SID_SET_IDX w v) v' = SID_SET_IDX w v'"
  by (rule bit_word_eqI, simp add: field_bits)+

lemma sid_term_laws:
  "SID_SET_TERM w (SID_GET_TERM w) = w"
  "SID_SET_TERM (SID_SET_TERM w v) v' = SID_SET_TERM w v'"
  by (rule bit_word_eqI, simp add: field_bits)+

lemma SID_GET_SET_TERM: "fits_term v \<Longrightarrow> SID_GET_TERM (SID_SET_TERM w v) = v"
  using high_bits_clear [of v 55] by (intro bit_word_eqI) (auto simp: field_bits fits_term_def)

lemma wrid_conn_laws:
  "WRID_GET_CONN (WRID_SET_CONN w v) = v"
  "WRID_SET_CONN w (WRID_GET_CONN w) = w"
  "WRID_SET_CONN (WRID_SET_CONN w v) v' = WRID_SET_CONN w v'"
  by (rule bit_word_eqI, simp add: wrid_bits)+

lemma wrid_ssn_laws:
  "WRID_SET_SSN w (WRID_GET_SSN w) = w"
  "WRID_SET_SSN (WRID_SET_SSN w v) v' = WRID_SET_SSN w v'"
  by (rule bit_word_eqI, simp add: wrid_bits)+

lemma WRID_GET_SET_SSN: "fits_ssn v \<Longrightarrow> WRID_GET_SSN (WRID_SET_SSN w v) = v"
  using high_bits_clear [of v 54] by (intro bit_word_eqI) (auto simp: wrid_bits fits_ssn_def)

interpretation sid_idx: packed_field SID_GET_IDX SID_SET_IDX "\<lambda>_. True"
  by unfold_locales (simp_all add: sid_idx_laws)

interpretation sid_term: packed_field SID_GET_TERM SID_SET_TERM fits_term
  by unfold_locales (simp_all add: sid_term_laws SID_GET_SET_TERM)

interpretation wrid_conn: packed_field WRID_GET_CONN WRID_SET_CONN "\<lambda>_. True"
  by unfold_locales (simp_all add: wrid_conn_laws)

interpretation wrid_ssn: packed_field WRID_GET_SSN WRID_SET_SSN fits_ssn
  by unfold_locales (simp_all add: wrid_ssn_laws WRID_GET_SET_SSN)

subsection \<open>Independence of the fields\<close>

lemma sid_other_fields [simp]:
  "SID_GET_L (SID_SET_IDX s x) = SID_GET_L s"
  "SID_GET_TERM (SID_SET_IDX s x) = SID_GET_TERM s"
  "SID_GET_L (SID_SET_TERM s t) = SID_GET_L s"
  "SID_GET_IDX (SID_SET_TERM s t) = SID_GET_IDX s"
  "SID_GET_L (SID_SET_L s)" "\<not> SID_GET_L (SID_UNSET_L s)"
  "SID_GET_IDX (SID_SET_L s) = SID_GET_IDX s" "SID_GET_IDX (SID_UNSET_L s) = SID_GET_IDX s"
  "SID_GET_TERM (SID_SET_L s) = SID_GET_TERM s" "SID_GET_TERM (SID_UNSET_L s) = SID_GET_TERM s"
  by (auto intro!: bit_word_eqI simp: field_bits)

lemma wrid_other_fields [simp]:
  "WRID_GET_CONN (WRID_SET_SSN s t) = WRID_GET_CONN s"
  "WRID_GET_SSN (WRID_SET_CONN s x) = WRID_GET_SSN s"
  "WRID_GET_CONN (WRID_SET_TAG s) = WRID_GET_CONN s" "WRID_GET_SSN (WRID_SET_TAG s) = WRID_GET_SSN s"
  "WRID_GET_CONN (WRID_SET_WA s) = WRID_GET_CONN s" "WRID_GET_SSN (WRID_SET_WA s) = WRID_GET_SSN s"
  "WRID_GET_CONN (WRID_UNSET_TAG s) = WRID_GET_CONN s" "WRID_GET_SSN (WRID_UNSET_TAG s) = WRID_GET_SSN s"
  "WRID_GET_CONN (WRID_UNSET_WA s) = WRID_GET_CONN s" "WRID_GET_SSN (WRID_UNSET_WA s) = WRID_GET_SSN s"
  "WRID_GET_TAG (WRID_SET_TAG s)" "\<not> WRID_GET_TAG (WRID_UNSET_TAG s)"
  by (auto intro!: bit_word_eqI simp: wrid_bits)

subsection \<open>The numeric order of SIDs\<close>

lemma unat_SID_GET_TERM: "unat (SID_GET_TERM s) = unat s div 512"
  unfolding SID_GET_TERM_def by (subst unat_drop_bit_eq) (simp add: drop_bit_eq_div)

lemma unat_SID_GET_IDX: "unat (SID_GET_IDX s) = unat s mod 256"
  by (simp add: SID_GET_IDX_def low_masks take_bit_eq_mask [symmetric] unsigned_ucast_eq
      unsigned_take_bit_eq take_bit_nat_def)

lemma SID_GET_L_odd: "SID_GET_L s = odd (unat s div 256)"
  using bit_unsigned_iff [where ?'a = nat, of s 8] by (simp add: field_bits bit_iff_odd)

lemma sid_value:
  "unat s = 512 * unat (SID_GET_TERM s) + (if SID_GET_L s then 256 else 0) + unat (SID_GET_IDX s)"
proof -
  have d: "unat s div 512 = unat s div 256 div 2"
    by (simp add: div_mult2_eq [symmetric])
  have "(if odd (unat s div 256) then 256 else 0) = 256 * (unat s div 256 mod 2)"
    by (simp add: odd_iff_mod_2_eq_one)
  moreover have "unat s = 512 * (unat s div 512) + 256 * (unat s div 256 mod 2) + unat s mod 256"
    using div_mult_mod_eq [of "unat s" 256] div_mult_mod_eq [of "unat s div 256" 2] d by linarith
  ultimately show ?thesis by (simp add: unat_SID_GET_TERM unat_SID_GET_IDX SID_GET_L_odd)
qed

lemma sid_eqI:
  "SID_GET_TERM s = SID_GET_TERM s' \<Longrightarrow> SID_GET_L s = SID_GET_L s' \<Longrightarrow> SID_GET_IDX s = SID_GET_IDX s'
    \<Longrightarrow> s = s'"
  using sid_value [of s] sid_value [of s'] by (metis word_unat_eq_iff)

lemma sid_less_lex:
  "s < s' \<longleftrightarrow> SID_GET_TERM s < SID_GET_TERM s' \<or>
     SID_GET_TERM s = SID_GET_TERM s' \<and>
       (\<not> SID_GET_L s \<and> SID_GET_L s' \<or>
        SID_GET_L s = SID_GET_L s' \<and> SID_GET_IDX s < SID_GET_IDX s')"
proof -
  have lex: "(512 * a + (if l then 256 else 0) + i < 512 * b + (if m then 256 else 0) + j)
      = (a < b \<or> a = b \<and> (\<not> l \<and> m \<or> l = m \<and> i < j))"
    if "i < 256" and "j < 256" for a b i j :: nat and l m :: bool
    using that by (cases l; cases m; auto; arith)
  show ?thesis
    using sid_value [of s] sid_value [of s']
    by (simp add: word_less_nat_alt lex [OF u8_bound u8_bound] flip: word_unat_eq_iff)
qed

lemma sid_term_mono: "s \<le> s' \<Longrightarrow> SID_GET_TERM s \<le> SID_GET_TERM s'"
  by (metis order_le_less sid_less_lex)

lemma sid_above_voted:
  assumes "SID_SET_L s < s'" and "\<not> SID_GET_L s'"
  shows "SID_GET_TERM s < SID_GET_TERM s'"
  using assms sid_less_lex [of "SID_SET_L s" s'] by simp

end
