(* ===== verification/RbTreeSpec.thy ===== *)
theory RbTreeSpec
  imports RbTree
begin

text \<open>
  The red-black properties (4) and (5) of the comment in \<^verbatim>\<open>rbtree.c\<close>, for trees and for trees with a
  hole; insertion and erasure keep them, never follow a null pointer, and change the sequence of
  elements as they should. The iterators enumerate the elements in order.
\<close>

subsection \<open>The elements of a tree, of a path\<close>

primrec inorder :: "'a rbt \<Rightarrow> 'a list" where
  "inorder Leaf = []"
| "inorder (Node c l x r) = inorder l @ x # inorder r"

fun before :: "'a frame list \<Rightarrow> 'a list" where
  "before [] = []"
| "before (LeftOf c x r # p) = before p"
| "before (RightOf c x l # p) = before p @ inorder l @ [x]"

fun after :: "'a frame list \<Rightarrow> 'a list" where
  "after [] = []"
| "after (LeftOf c x r # p) = x # inorder r @ after p"
| "after (RightOf c x l # p) = after p"

lemma inorder_plug [simp]: "inorder (plug t p) = before p @ inorder t @ after p"
proof (induction p arbitrary: t)
  case Nil
  show ?case by simp
next
  case (Cons f p)
  then show ?case by (cases f) auto
qed

lemma inorder_paint [simp]: "inorder (paint c t) = inorder t"
  by (cases t) auto

lemma inorder_Nil [simp]: "inorder t = [] \<longleftrightarrow> t = Leaf"
  by (cases t) auto

subsection \<open>The invariant\<close>

fun rb_ok :: "'a rbt \<Rightarrow> nat \<Rightarrow> bool" where
  "rb_ok Leaf n \<longleftrightarrow> n = 0"
| "rb_ok (Node RB_RED l x r) n \<longleftrightarrow>
     color_of l = RB_BLACK \<and> color_of r = RB_BLACK \<and> rb_ok l n \<and> rb_ok r n"
| "rb_ok (Node RB_BLACK l x r) n \<longleftrightarrow> n \<noteq> 0 \<and> rb_ok l (n - 1) \<and> rb_ok r (n - 1)"

text \<open>\<open>hole_ok p n k\<close>: a tree of black height \<open>n\<close> whose root has the colour \<open>k\<close> fits into the hole.\<close>

fun hole_ok :: "'a frame list \<Rightarrow> nat \<Rightarrow> color \<Rightarrow> bool" where
  "hole_ok [] n k \<longleftrightarrow> k = RB_BLACK"
| "hole_ok (LeftOf c x t # p) n k \<longleftrightarrow> rb_ok t n \<and>
     (c = RB_RED \<longrightarrow> k = RB_BLACK \<and> color_of t = RB_BLACK) \<and> hole_ok p (if c = RB_BLACK then Suc n else n) c"
| "hole_ok (RightOf c x t # p) n k \<longleftrightarrow> rb_ok t n \<and>
     (c = RB_RED \<longrightarrow> k = RB_BLACK \<and> color_of t = RB_BLACK) \<and> hole_ok p (if c = RB_BLACK then Suc n else n) c"

definition rb_tree :: "'a rbt \<Rightarrow> bool" where
  "rb_tree t \<longleftrightarrow> color_of t = RB_BLACK \<and> (\<exists>n. rb_ok t n)"

lemma color_cases: "c = RB_RED \<or> c = RB_BLACK"
  by (cases c) auto

lemma rb_ok_black_node: "rb_ok (Node RB_BLACK l x r) (Suc n) \<longleftrightarrow> rb_ok l n \<and> rb_ok r n"
  by simp

lemma rb_ok_plug_frame:
  "rb_ok t n \<Longrightarrow> hole_ok (f # p) n (color_of t) \<Longrightarrow>
    \<exists>m. rb_ok (plug_frame f t) m \<and> hole_ok p m (color_of (plug_frame f t))"
  by (cases f; cases "frame_color f") (auto split: if_splits)

lemma rb_tree_plug: "rb_ok t n \<Longrightarrow> hole_ok p n (color_of t) \<Longrightarrow> rb_tree (plug t p)"
proof (induction p arbitrary: t n)
  case Nil
  then show ?case by (auto simp: rb_tree_def)
next
  case (Cons f p)
  then show ?case using rb_ok_plug_frame [OF Cons.prems] by auto
qed

lemma rb_ok_plug_frameD:
  "rb_ok (plug_frame f t) m \<Longrightarrow> hole_ok p m (color_of (plug_frame f t)) \<Longrightarrow>
    \<exists>n. rb_ok t n \<and> hole_ok (f # p) n (color_of t)"
  by (cases f; cases "frame_color f") (auto split: if_splits simp: gr0_conv_Suc)

lemma rb_tree_plugD: "rb_tree (plug t p) \<Longrightarrow> \<exists>n. rb_ok t n \<and> hole_ok p n (color_of t)"
proof (induction p arbitrary: t)
  case Nil
  then show ?case by (auto simp: rb_tree_def)
next
  case (Cons f p)
  then show ?case using rb_ok_plug_frameD [of f t] by fastforce
qed

lemma rb_ok_paint_black: "rb_ok t n \<Longrightarrow> color_of t = RB_RED \<Longrightarrow> rb_ok (paint RB_BLACK t) (Suc n)"
  by (cases t) auto

lemma paint_black_id [simp]: "color_of t = RB_BLACK \<Longrightarrow> paint RB_BLACK t = t"
  by (cases t) auto

lemma color_paint [simp]: "color_of (paint RB_BLACK t) = RB_BLACK"
  by (cases t) auto

lemma hole_ok_red: "hole_ok p n RB_RED \<Longrightarrow> hole_ok p n RB_BLACK"
  by (cases p; cases "hd p") auto

subsection \<open>Insertion\<close>

lemma hole_ok_black_frame: "hole_ok (f # p) n k \<Longrightarrow> frame_color f = RB_BLACK \<Longrightarrow> hole_ok (f # p) n k'"
  by (cases f) auto

lemma insert_rotate_left_ok:
  assumes "rb_ok node n" "color_of node = RB_RED" "hole_ok (f # LeftOf gc g u # p) n RB_BLACK"
    "frame_color f = RB_RED" "color_of u = RB_BLACK"
  shows "\<exists>t. insert_rotate_left node f g gc u = Some t \<and> rb_ok t (Suc n) \<and> color_of t = RB_BLACK \<and>
    hole_ok p (Suc n) RB_BLACK \<and> inorder t = inorder (plug_frame f node) @ g # inorder u"
  using assms by (cases f; cases node; cases gc) auto

lemma insert_rotate_right_ok:
  assumes "rb_ok node n" "color_of node = RB_RED" "hole_ok (f # RightOf gc g u # p) n RB_BLACK"
    "frame_color f = RB_RED" "color_of u = RB_BLACK"
  shows "\<exists>t. insert_rotate_right node f g gc u = Some t \<and> rb_ok t (Suc n) \<and> color_of t = RB_BLACK \<and>
    hole_ok p (Suc n) RB_BLACK \<and> inorder t = inorder u @ g # inorder (plug_frame f node)"
  using assms by (cases f; cases node; cases gc) auto

lemma color_flip_ok:
  assumes "rb_ok node n" "color_of node = RB_RED" "frame_color f = RB_RED" "color_of u = RB_RED"
  shows "hole_ok (f # LeftOf gc g u # p) n RB_BLACK \<Longrightarrow>
      rb_ok (Node RB_RED (paint RB_BLACK (plug_frame f node)) g (paint RB_BLACK u)) (Suc n) \<and> hole_ok p (Suc n) RB_BLACK"
    and "hole_ok (f # RightOf gc g u # p) n RB_BLACK \<Longrightarrow>
      rb_ok (Node RB_RED (paint RB_BLACK u) g (paint RB_BLACK (plug_frame f node))) (Suc n) \<and> hole_ok p (Suc n) RB_BLACK"
  using assms by (cases f; cases node; cases u; cases gc; auto)+

lemma rb_insert_loop_ok:
  assumes "rb_ok node n" "color_of node = RB_RED" "hole_ok p n RB_BLACK"
  shows "\<exists>t. rb_insert_loop node p = Some t \<and> rb_tree t \<and> inorder t = before p @ inorder node @ after p"
  using assms
proof (induction node p arbitrary: n rule: rb_insert_loop.induct)
  case (1 node)
  then show ?case using rb_ok_paint_black [of node n] by (auto simp: rb_tree_def)
next
  case (2 node parent)
  then have "frame_color parent = RB_BLACK" by (cases parent; cases "frame_color parent") auto
  then show ?case
    using 2 rb_tree_plug [of node n "[parent]"] hole_ok_black_frame [of parent "[]" n RB_BLACK RB_RED] inorder_plug [of node "[parent]"] by auto
next
  case (3 node parent gc g u p)
  show ?case
  proof (cases "frame_color parent = RB_BLACK")
    case True
    then show ?thesis
      using 3(2-4) rb_tree_plug [of node n] hole_ok_black_frame inorder_plug [of node "parent # LeftOf gc g u # p"]
      by fastforce
  next
    case False
    then have r: "frame_color parent = RB_RED" using color_cases by blast
    show ?thesis
    proof (cases "color_of u = RB_RED")
      case True
      show ?thesis
        using 3(1) [OF False True, of "Suc n"] color_flip_ok(1) [OF 3(2,3) r True 3(4)] True False
        by (cases parent) auto
    next
      case u: False
      then have "color_of u = RB_BLACK" using color_cases by blast
      from insert_rotate_left_ok [OF 3(2,3,4) r this] show ?thesis
        using rb_tree_plug False u by (cases parent) fastforce+
    qed
  qed
next
  case (4 node parent gc g u p)
  show ?case
  proof (cases "frame_color parent = RB_BLACK")
    case True
    then show ?thesis
      using 4(2-4) rb_tree_plug [of node n] hole_ok_black_frame inorder_plug [of node "parent # RightOf gc g u # p"]
      by fastforce
  next
    case False
    then have r: "frame_color parent = RB_RED" using color_cases by blast
    show ?thesis
    proof (cases "color_of u = RB_RED")
      case True
      show ?thesis
        using 4(1) [OF False True, of "Suc n"] color_flip_ok(2) [OF 4(2,3) r True 4(4)] True False
        by (cases parent) auto
    next
      case u: False
      then have "color_of u = RB_BLACK" using color_cases by blast
      from insert_rotate_right_ok [OF 4(2,3,4) r this] show ?thesis
        using rb_tree_plug False u by (cases parent) fastforce+
    qed
  qed
qed

lemma rb_insert_color_ok:
  assumes "rb_tree (plug Leaf p)"
  shows "\<exists>t. rb_insert_color x p = Some t \<and> rb_tree t \<and> inorder t = before p @ x # after p"
proof -
  have "hole_ok p 0 RB_BLACK" using rb_tree_plugD [OF assms] by auto
  then show ?thesis
    using rb_insert_loop_ok [of "rb_link_node x" 0 p] by (auto simp: rb_insert_color_def rb_link_node_def)
qed

subsection \<open>Erasure\<close>

definition turn_ok :: "nat \<Rightarrow> color \<Rightarrow> 'a list \<Rightarrow> ('a rbt + 'a rbt) option \<Rightarrow> bool" where
  "turn_ok n c xs res \<longleftrightarrow>
     (\<exists>t. res = Some (Inr t) \<and> rb_ok t (if c = RB_BLACK then Suc (Suc n) else Suc n) \<and>
          (color_of t = c \<or> color_of t = RB_BLACK) \<and> inorder t = xs) \<or>
     (\<exists>t. res = Some (Inl t) \<and> c = RB_BLACK \<and> rb_ok t (Suc n) \<and> color_of t = RB_BLACK \<and> inorder t = xs)"

lemma erase_turn_left_ok:
  assumes "rb_ok node n" "color_of node = RB_BLACK" "rb_ok s (Suc n)" "color_of s = RB_BLACK"
  shows "turn_ok n c (inorder node @ x # inorder s) (erase_turn_left node c x s)"
proof (cases s)
  case Leaf
  then show ?thesis using assms(3) by simp
next
  case (Node sc sl sx sr)
  then have s: "sc = RB_BLACK" "rb_ok sl n" "rb_ok sr n" using assms(3,4) by auto
  show ?thesis
  proof (cases "color_of sr = RB_RED")
    case True
    then show ?thesis
      using assms s Node rb_ok_paint_black [OF s(3) True]
      by (cases c) (auto simp: turn_ok_def erase_case4_left_def)
  next
    case False
    then have sr: "color_of sr = RB_BLACK" using color_cases by blast
    show ?thesis
    proof (cases "color_of sl = RB_RED")
      case True
      then obtain a y b where "sl = Node RB_RED a y b" by (cases sl) auto
      then show ?thesis
        using assms s sr Node by (cases c) (auto simp: turn_ok_def erase_case4_left_def)
    next
      case False
      then have "erase_turn_left node c x s = (if c = RB_RED then Some (Inr (Node RB_BLACK node x (Node RB_RED sl sx sr)))
          else Some (Inl (Node c node x (Node RB_RED sl sx sr))))"
        using sr Node color_cases [of "color_of sl"] by (auto simp: Let_def split: rbt.splits color.splits)
      then show ?thesis
        using assms s sr False Node color_cases [of "color_of sl"] by (cases c) (auto simp: turn_ok_def)
    qed
  qed
qed

lemma erase_turn_right_ok:
  assumes "rb_ok node n" "color_of node = RB_BLACK" "rb_ok s (Suc n)" "color_of s = RB_BLACK"
  shows "turn_ok n c (inorder s @ x # inorder node) (erase_turn_right node c x s)"
proof (cases s)
  case Leaf
  then show ?thesis using assms(3) by simp
next
  case (Node sc sl sx sr)
  then have s: "sc = RB_BLACK" "rb_ok sl n" "rb_ok sr n" using assms(3,4) by auto
  show ?thesis
  proof (cases "color_of sl = RB_RED")
    case True
    then show ?thesis
      using assms s Node rb_ok_paint_black [OF s(2) True]
      by (cases c) (auto simp: turn_ok_def erase_case4_right_def)
  next
    case False
    then have sl: "color_of sl = RB_BLACK" using color_cases by blast
    show ?thesis
    proof (cases "color_of sr = RB_RED")
      case True
      then obtain a y b where "sr = Node RB_RED a y b" by (cases sr) auto
      then show ?thesis
        using assms s sl Node by (cases c) (auto simp: turn_ok_def erase_case4_right_def)
    next
      case False
      then have "erase_turn_right node c x s = (if c = RB_RED then Some (Inr (Node RB_BLACK (Node RB_RED sl sx sr) x node))
          else Some (Inl (Node c (Node RB_RED sl sx sr) x node)))"
        using sl Node color_cases [of "color_of sr"] by (auto simp: Let_def split: rbt.splits color.splits)
      then show ?thesis
        using assms s sl False Node color_cases [of "color_of sr"] by (cases c) (auto simp: turn_ok_def)
    qed
  qed
qed

lemma hole_ok_weaken: "hole_ok p n c \<Longrightarrow> k = c \<or> k = RB_BLACK \<Longrightarrow> hole_ok p n k"
  using hole_ok_red by (cases c) auto

lemma rb_erase_color_ok:
  assumes "rb_ok node n" "color_of node = RB_BLACK" "hole_ok p (Suc n) RB_BLACK"
  shows "\<exists>t. rb_erase_color node p = Some t \<and> rb_tree t \<and> inorder t = before p @ inorder node @ after p"
  using assms
proof (induction p arbitrary: node n)
  case Nil
  then show ?case by (auto simp: rb_tree_def)
next
  case (Cons f p)
  note IH = Cons.IH and prems = Cons.prems
  show ?case
  proof (cases f)
    case (LeftOf c x s)
    have s: "rb_ok s (Suc n)" "hole_ok p (if c = RB_BLACK then Suc (Suc n) else Suc n) c"
      "c = RB_RED \<Longrightarrow> color_of s = RB_BLACK"
      using prems(3) LeftOf by auto
    show ?thesis
    proof (cases "color_of s = RB_RED")
      case True
      then obtain sl sx sr where S: "s = Node RB_RED sl sx sr" by (cases s) auto
      then have c: "c = RB_BLACK" and sl: "color_of sl = RB_BLACK" "rb_ok sl (Suc n)" "sl \<noteq> Leaf"
        "color_of sr = RB_BLACK" "rb_ok sr (Suc n)"
        using s True color_cases [of c] by auto
      from erase_turn_left_ok [OF prems(1,2) sl(2,1), of RB_RED x] obtain t where
        t: "erase_turn_left node RB_RED x sl = Some (Inr t)" "rb_ok t (Suc n)" "inorder t = inorder node @ x # inorder sl"
        by (auto simp: turn_ok_def)
      have "rb_tree (plug t (LeftOf c sx sr # p))"
        using t(2) s(2) sl c by (intro rb_tree_plug) auto
      then show ?thesis using LeftOf S sl t by auto
    next
      case False
      then have sb: "color_of s = RB_BLACK" using color_cases by blast
      have eq: "rb_erase_color node (f # p) = (case erase_turn_left node c x s of None \<Rightarrow> None
          | Some (Inr t) \<Rightarrow> Some (plug t p) | Some (Inl t) \<Rightarrow> rb_erase_color t p)"
        using LeftOf sb by (cases s; cases "color_of s") auto
      from erase_turn_left_ok [OF prems(1,2) s(1) sb, of c x] show ?thesis
        unfolding turn_ok_def eq using LeftOf s(2) IH rb_tree_plug hole_ok_weaken by fastforce
    qed
  next
    case (RightOf c x s)
    have s: "rb_ok s (Suc n)" "hole_ok p (if c = RB_BLACK then Suc (Suc n) else Suc n) c"
      "c = RB_RED \<Longrightarrow> color_of s = RB_BLACK"
      using prems(3) RightOf by auto
    show ?thesis
    proof (cases "color_of s = RB_RED")
      case True
      then obtain sl sx sr where S: "s = Node RB_RED sl sx sr" by (cases s) auto
      then have c: "c = RB_BLACK" and sl: "color_of sr = RB_BLACK" "rb_ok sr (Suc n)" "sr \<noteq> Leaf"
        "color_of sl = RB_BLACK" "rb_ok sl (Suc n)"
        using s True color_cases [of c] by auto
      from erase_turn_right_ok [OF prems(1,2) sl(2,1), of RB_RED x] obtain t where
        t: "erase_turn_right node RB_RED x sr = Some (Inr t)" "rb_ok t (Suc n)" "inorder t = inorder sr @ x # inorder node"
        by (auto simp: turn_ok_def)
      have "rb_tree (plug t (RightOf c sx sl # p))"
        using t(2) s(2) sl c by (intro rb_tree_plug) auto
      then show ?thesis using RightOf S sl t by auto
    next
      case False
      then have sb: "color_of s = RB_BLACK" using color_cases by blast
      have eq: "rb_erase_color node (f # p) = (case erase_turn_right node c x s of None \<Rightarrow> None
          | Some (Inr t) \<Rightarrow> Some (plug t p) | Some (Inl t) \<Rightarrow> rb_erase_color t p)"
        using RightOf sb by (cases s; cases "color_of s") auto
      from erase_turn_right_ok [OF prems(1,2) s(1) sb, of c x] show ?thesis
        unfolding turn_ok_def eq using RightOf s(2) IH rb_tree_plug hole_ok_weaken by fastforce
    qed
  qed
qed

lemma plug_append: "plug t (q @ p) = plug (plug t q) p"
  by (induction q arbitrary: t) auto

lemma before_append: "before (q @ p) = before p @ before q"
  by (induction q rule: before.induct) auto

lemma after_append: "after (q @ p) = after q @ after p"
  by (induction q rule: after.induct) auto

lemma hole_ok_elem: "hole_ok (q @ RightOf c x l # p) n k \<Longrightarrow> hole_ok (q @ RightOf c y l # p) n k"
proof (induction q arbitrary: n k)
  case Nil
  then show ?case by simp
next
  case (Cons f q)
  then show ?case by (cases f) auto
qed

lemma successor_of_plug:
  "t \<noteq> Leaf \<Longrightarrow> \<exists>c s ch q'. successor_of t q = Some (c, s, ch, q') \<and> plug (Node c Leaf s ch) q' = plug t q \<and>
     before q' = before q \<and> s # inorder ch @ after q' = inorder t @ after q"
proof (induction t q rule: successor_of.induct)
  case (1 q)
  then show ?case by simp
next
  case (2 c l x r q)
  then show ?case by (cases "l = Leaf") auto
qed

lemma height_0: "rb_ok t 0 \<Longrightarrow> t = Leaf \<or> (\<exists>x. t = Node RB_RED Leaf x Leaf)"
proof (cases t)
  case (Node c l x r)
  assume "rb_ok t 0"
  then show ?thesis using Node by (cases c; cases l; cases r; cases "color_of l"; cases "color_of r") auto
qed simp

lemma single_child:
  assumes "rb_ok (Node c Leaf x r) n \<or> rb_ok (Node c r x Leaf) n" and "r \<noteq> Leaf"
  shows "n = 1 \<and> c = RB_BLACK \<and> (\<exists>y. r = Node RB_RED Leaf y Leaf)"
  using assms height_0 [of r] by (cases c) auto

lemma rb_erase_ok:
  assumes "rb_tree (plug (Node c l x r) p)"
  shows "\<exists>t. rb_erase (Node c l x r, p) = Some t \<and> rb_tree t \<and>
    inorder t = before p @ inorder l @ inorder r @ after p"
proof -
  obtain n where n: "rb_ok (Node c l x r) n" "hole_ok p n c"
    using rb_tree_plugD [OF assms] by auto
  have leaf: "\<exists>t. (if k = RB_BLACK then rb_erase_color Leaf p' else Some (plug Leaf p')) = Some t \<and> rb_tree t \<and>
      inorder t = before p' @ after p'"
    if "rb_ok (Node k Leaf y Leaf) m" "hole_ok p' m k" for k y m and p' :: "'a frame list"
    using that rb_erase_color_ok [of Leaf 0 p'] rb_tree_plug [of Leaf 0 p'] hole_ok_red [of p' 0]
    by (cases k; cases m) auto
  show ?thesis
  proof (cases "l = Leaf \<or> r = Leaf")
    case True
    show ?thesis
    proof (cases "l = Leaf \<and> r = Leaf")
      case True
      then show ?thesis using leaf [of c x n p] n by (simp add: rb_erase_def)
    next
      case False
      define d where "d = (if l = Leaf then r else l)"
      have "\<exists>y. n = 1 \<and> c = RB_BLACK \<and> d = Node RB_RED Leaf y Leaf"
        using True False n(1) single_child [of c x d n] by (cases "l = Leaf") (simp_all add: d_def)
      then obtain y where y: "n = 1" "c = RB_BLACK" "d = Node RB_RED Leaf y Leaf" by blast
      then have "rb_tree (plug (paint c d) p)"
        using n(2) by (intro rb_tree_plug [of _ 1]) simp_all
      moreover have "rb_erase (Node c l x r, p) = Some (plug (paint c d) p)"
        using True False by (auto simp: rb_erase_def d_def)
      moreover have "inorder d = inorder l @ inorder r"
        using True by (auto simp: d_def)
      ultimately show ?thesis by simp
    qed
  next
    case False
    then obtain sc s ch q where q: "successor_of r [] = Some (sc, s, ch, q)" "plug (Node sc Leaf s ch) q = r"
      "before q = []" "s # inorder ch @ after q = inorder r"
      using successor_of_plug [of r "[]"] by auto
    let ?p = "q @ RightOf c s l # p"
    have "plug (Node sc Leaf s ch) (q @ RightOf c x l # p) = plug (Node c l x r) p"
      by (simp add: plug_append q(2))
    then obtain m where m: "rb_ok (Node sc Leaf s ch) m" "hole_ok ?p m sc"
      using rb_tree_plugD [of "Node sc Leaf s ch" "q @ RightOf c x l # p"] assms hole_ok_elem [of q c x l p _ _ s] by auto
    have io: "before ?p @ inorder ch @ after ?p = before p @ inorder l @ inorder r @ after p"
      by (simp add: before_append after_append q(3) flip: q(4))
    have er: "rb_erase (Node c l x r, p) = (if ch \<noteq> Leaf then Some (plug (paint RB_BLACK ch) ?p)
        else if sc = RB_BLACK then rb_erase_color Leaf ?p else Some (plug Leaf ?p))"
      using False q(1) by (simp add: rb_erase_def Let_def)
    show ?thesis
    proof (cases "ch = Leaf")
      case True
      then show ?thesis using leaf [OF m [unfolded True]] er io by simp
    next
      case False
      then obtain y where y: "m = 1" "sc = RB_BLACK" "ch = Node RB_RED Leaf y Leaf"
        using single_child [of sc s ch m] m(1) by auto
      then have "rb_tree (plug (paint RB_BLACK ch) ?p)"
        using m(2) by (intro rb_tree_plug [of _ 1]) auto
      then show ?thesis using er False io by simp
    qed
  qed
qed

subsection \<open>Iteration\<close>

fun elem :: "'a cursor \<Rightarrow> 'a option" where
  "elem (Leaf, p) = None"
| "elem (Node c l x r, p) = Some x"

fun rest :: "'a cursor \<Rightarrow> 'a list" where
  "rest (Leaf, p) = after p"
| "rest (Node c l x r, p) = inorder r @ after p"

lemma leftmost_rest:
  "t \<noteq> Leaf \<Longrightarrow> \<exists>x. elem (leftmost t p) = Some x \<and> x # rest (leftmost t p) = inorder t @ after p \<and>
     plug (fst (leftmost t p)) (snd (leftmost t p)) = plug t p"
proof (induction t p rule: leftmost.induct)
  case (2 c l x r p)
  then show ?case by (cases "l = Leaf") auto
qed simp

lemma climb_right_rest:
  "case climb_right t p of None \<Rightarrow> after p = []
   | Some cur \<Rightarrow> (\<exists>x. elem cur = Some x \<and> x # rest cur = after p) \<and> plug (fst cur) (snd cur) = plug t p"
  by (induction t p rule: climb_right.induct) (auto split: option.splits)

lemma rb_next_rest:
  assumes "elem cur = Some x"
  shows "case rb_next cur of None \<Rightarrow> rest cur = []
    | Some cur' \<Rightarrow> (\<exists>y. elem cur' = Some y \<and> y # rest cur' = rest cur) \<and>
        plug (fst cur') (snd cur') = plug (fst cur) (snd cur)"
proof (cases cur rule: rb_next.cases)
  case (1 p)
  then show ?thesis using assms by simp
next
  case (2 c l y r p)
  then show ?thesis
    using climb_right_rest [where t = "Node c l y r" and p = p] leftmost_rest [of r "RightOf c y l # p"]
    by (cases "r = Leaf") (auto split: option.splits)
qed

text \<open>\<^verbatim>\<open>for (node = rb_first(root); node; node = rb_next(node))\<close>: the elements in the order visited.\<close>

function rb_iter :: "'a cursor \<Rightarrow> 'a list" where
  "rb_iter cur = (case elem cur of None \<Rightarrow> []
     | Some x \<Rightarrow> x # (case rb_next cur of None \<Rightarrow> [] | Some cur' \<Rightarrow> rb_iter cur'))"
  by pat_completeness auto
termination
proof (relation "measure (\<lambda>cur. length (rest cur))")
  fix cur :: "'a cursor" and x cur'
  assume "elem cur = Some x" "rb_next cur = Some cur'"
  then obtain y where "y # rest cur' = rest cur"
    using rb_next_rest [of cur x] by auto
  from this [symmetric] show "(cur', cur) \<in> measure (\<lambda>cur. length (rest cur))" by simp
qed simp

definition rb_nodes :: "'a rbt \<Rightarrow> 'a list" where
  "rb_nodes root = (case rb_first root of None \<Rightarrow> [] | Some cur \<Rightarrow> rb_iter cur)"

declare rb_iter.simps [simp del]

lemma rb_iter_rest: "elem cur = Some x \<Longrightarrow> rb_iter cur = x # rest cur"
proof (induction cur arbitrary: x rule: rb_iter.induct)
  case (1 cur)
  show ?case
    using rb_next_rest [OF 1(2)] 1 by (subst rb_iter.simps) (auto split: option.splits)
qed

lemma rb_nodes_inorder: "rb_nodes root = inorder root"
  using leftmost_rest [of root "[]"] by (auto simp: rb_nodes_def rb_first_def rb_iter_rest)

end
