(* ===== verification/Proxy.thy ===== *)
theory Proxy
  imports ByteMem
begin

text \<open>
  The proxy of \<^verbatim>\<open>proxy.c\<close> between the virtual machine and the consensus thread, with the record store
  of \<^verbatim>\<open>db-interface.c\<close>: submissions of the primary are queued for the log, committed commands are
  sent to the backup's socket, and stored records are dumped into and loaded from a snapshot.
  Berkeley DB is outside the sources: a database opened with \<^verbatim>\<open>DB_RECNO\<close> is the sequence of its
  records, \<^verbatim>\<open>put\<close> with \<^verbatim>\<open>DB_APPEND\<close> adds one at the end with a return code taken from a script, and a
  cursor reads them in order.
\<close>

definition IO_BUF_SIZE :: nat where "IO_BUF_SIZE = 327680"
definition MIRROR :: u8 where "MIRROR = 7"
definition CHECKPOINT :: u8 where "CHECKPOINT = 8"
definition MIRROR_CONNECTION :: u16 where "MIRROR_CONNECTION = 13"
definition CHECKPOINT_CTRL_CONNECTION :: u16 where "CHECKPOINT_CTRL_CONNECTION = 14"

lemmas proxy_types = MIRROR_def CHECKPOINT_def

datatype checkpoint_status = CHECKPOINT_REQ_READY | CHECKPOINT_REQ_WAIT

record tailq_entry_t =
  tq_type :: u8
  tq_connection_id :: u16
  tq_req_id :: u64
  tq_len :: u16
  tq_cmd :: "u8 list"

record proxy_node =
  px_highest_rec :: u64
  px_cur_rec :: u64
  px_sync_req_id :: u64
  px_batching :: bool
  px_e1000_speedup :: bool
  px_db :: "u8 list list option"
  px_records_len :: u32
  px_put_rcs :: "int list"
  px_checkpoint_req_status :: checkpoint_status
  px_tailq :: "tailq_entry_t list"
  px_mirror_clientfd :: int
  px_sent :: "u8 list list"

subsection \<open>Submissions\<close>

text \<open>
  The critical section of \<^verbatim>\<open>leader_handle_submit_req\<close>; \<open>None\<close> is the failed assertion. The length of
  the command is a 16-bit field. The result is the record number the caller then waits for.
\<close>

definition leader_handle_submit_req ::
    "u8 list \<Rightarrow> u8 \<Rightarrow> proxy_node \<Rightarrow> (u64 \<times> proxy_node) option" where
  "leader_handle_submit_req buf type proxy =
     (if \<not> length buf \<le> IO_BUF_SIZE then None
      else
        let proxy = proxy\<lparr>px_cur_rec := px_cur_rec proxy + 1, px_sync_req_id := px_sync_req_id proxy + 1\<rparr>;
            n2 = \<lparr>tq_type = type,
                  tq_connection_id = (if type = MIRROR then MIRROR_CONNECTION else CHECKPOINT_CTRL_CONNECTION),
                  tq_req_id = px_sync_req_id proxy, tq_len = of_nat (length buf), tq_cmd = buf\<rparr>
        in Some (px_cur_rec proxy, proxy\<lparr>px_tailq := px_tailq proxy @ [n2]\<rparr>))"

text \<open>The condition under which the caller keeps spinning.\<close>

definition submit_waits :: "u64 \<Rightarrow> proxy_node \<Rightarrow> bool" where
  "submit_waits cur_rec proxy \<longleftrightarrow> cur_rec > px_highest_rec proxy"

definition proxy_on_mirror :: "u8 list \<Rightarrow> proxy_node \<Rightarrow> (u64 \<times> proxy_node) option" where
  "proxy_on_mirror buf = leader_handle_submit_req buf MIRROR"

definition proxy_on_checkpoint_req :: "proxy_node \<Rightarrow> (u64 \<times> proxy_node) option" where
  "proxy_on_checkpoint_req = leader_handle_submit_req [] CHECKPOINT"

definition proxy_wait_checkpoint_req :: "proxy_node \<Rightarrow> bool \<times> proxy_node" where
  "proxy_wait_checkpoint_req proxy =
     (if px_checkpoint_req_status proxy \<noteq> CHECKPOINT_REQ_READY then (False, proxy)
      else (True, proxy\<lparr>px_checkpoint_req_status := CHECKPOINT_REQ_WAIT\<rparr>))"

definition update_highest_rec :: "proxy_node \<Rightarrow> proxy_node" where
  "update_highest_rec proxy = proxy\<lparr>px_highest_rec := px_highest_rec proxy + 1\<rparr>"

definition set_filter_mirror_fd :: "int \<Rightarrow> proxy_node \<Rightarrow> proxy_node" where
  "set_filter_mirror_fd fd proxy = proxy\<lparr>px_mirror_clientfd := fd\<rparr>"

subsection \<open>Records\<close>

text \<open>
  \<^verbatim>\<open>struct proxy_send_msg\<close> has its connection at 0, the action at 2, the command length at 8 and the
  command at 10; its size without the command is 24. A checkpoint message is its 4-byte header.
\<close>

definition msg_action :: "mem \<Rightarrow> nat \<Rightarrow> u8" where "msg_action m a = rd8 m (a + 2)"
definition msg_cmd_len :: "mem \<Rightarrow> nat \<Rightarrow> u16" where "msg_cmd_len m a = rd16 m (a + 8)"
definition PROXY_SEND_MSG_SIZE :: "mem \<Rightarrow> nat \<Rightarrow> nat" where
  "PROXY_SEND_MSG_SIZE m a = unat (msg_cmd_len m a) + 24"
definition PROXY_CHECKPOINT_MSG_SIZE :: nat where "PROXY_CHECKPOINT_MSG_SIZE = 4"

definition store_record :: "u8 list \<Rightarrow> proxy_node \<Rightarrow> int \<times> proxy_node" where
  "store_record data proxy =
     (case px_db proxy of
        None \<Rightarrow> (1, proxy)
      | Some records \<Rightarrow>
          let ret = (case px_put_rcs proxy of [] \<Rightarrow> 0 | r # _ \<Rightarrow> r);
              proxy = proxy\<lparr>px_records_len := px_records_len proxy + of_nat (length data),
                            px_put_rcs := tl (px_put_rcs proxy)\<rparr>
          in (ret, if ret = 0 then proxy\<lparr>px_db := Some (records @ [data])\<rparr> else proxy))"

definition stablestorage_save_request :: "mem \<Rightarrow> proxy_node \<Rightarrow> proxy_node" where
  "stablestorage_save_request data proxy =
     (if msg_action data 0 = MIRROR
      then snd (store_record (read_bytes data 0 (PROXY_SEND_MSG_SIZE data 0)) proxy)
      else if msg_action data 0 = CHECKPOINT
      then snd (store_record (read_bytes data 0 PROXY_CHECKPOINT_MSG_SIZE) proxy)
      else proxy)"

definition stablestorage_get_records_len :: "proxy_node \<Rightarrow> u32" where
  "stablestorage_get_records_len proxy = px_records_len proxy"

text \<open>The copying loop of \<^verbatim>\<open>dump_records\<close>: each record goes behind the previous one.\<close>

fun dump_loop :: "u8 list list \<Rightarrow> nat \<Rightarrow> mem \<Rightarrow> mem" where
  "dump_loop [] len buf = buf"
| "dump_loop (r # rs) len buf = dump_loop rs (len + length r) (write_bytes buf len r)"

definition stablestorage_dump_records :: "mem \<Rightarrow> proxy_node \<Rightarrow> mem option" where
  "stablestorage_dump_records buf proxy = map_option (\<lambda>rs. dump_loop rs 0 buf) (px_db proxy)"

subsection \<open>Sending a committed command to the virtual machine\<close>

definition htonl :: "nat \<Rightarrow> u8 list" where
  "htonl n = rev (le_bytes 4 n)"

text \<open>
  In batching mode the command is a batch: the number of packets, their lengths (8 bytes each) and
  the packets. Every packet goes out with its length in network order before it.
\<close>

fun send_packets :: "mem \<Rightarrow> nat list \<Rightarrow> nat \<Rightarrow> u8 list list" where
  "send_packets data [] offset = []"
| "send_packets data (n # ns) offset = htonl n # read_bytes data offset n # send_packets data ns (offset + n)"

definition batch_lengths :: "mem \<Rightarrow> nat list" where
  "batch_lengths data = map (\<lambda>i. unat (rd64 data (8 + 8 * i))) [0..<nat (sint (rd64 data 0))]"

definition do_action_send :: "nat \<Rightarrow> mem \<Rightarrow> proxy_node \<Rightarrow> proxy_node" where
  "do_action_send data_size data proxy =
     (let sent =
        (if px_batching proxy \<and> px_e1000_speedup proxy
         then send_packets data (batch_lengths data) (8 * (1 + length (batch_lengths data)))
         else [htonl data_size, read_bytes data 0 data_size])
      in proxy\<lparr>px_sent := px_sent proxy @ sent, px_sync_req_id := px_sync_req_id proxy + 1\<rparr>)"

definition do_action_to_server :: "u16 \<Rightarrow> u8 \<Rightarrow> nat \<Rightarrow> mem \<Rightarrow> proxy_node \<Rightarrow> proxy_node" where
  "do_action_to_server clt_id type data_size data proxy =
     (if type = MIRROR then do_action_send data_size data proxy
      else if type = CHECKPOINT then proxy\<lparr>px_checkpoint_req_status := CHECKPOINT_REQ_READY\<rparr>
      else proxy)"

text \<open>
  Loading a snapshot: a header with another action is not skipped, so that the loop does not end;
  \<open>None\<close> stands for that.
\<close>

partial_function (option) load_records_loop :: "mem \<Rightarrow> nat \<Rightarrow> nat \<Rightarrow> proxy_node \<Rightarrow> proxy_node option" where
  [code]: "load_records_loop buf sz len proxy =
     (if \<not> len < sz then Some proxy
      else if msg_action buf len = MIRROR then
        let n = PROXY_SEND_MSG_SIZE buf len;
            proxy = snd (store_record (read_bytes buf len n) proxy);
            cmd = unat (msg_cmd_len buf len)
        in load_records_loop buf sz (len + n) (do_action_send cmd (\<lambda>i. buf (len + 10 + i)) proxy)
      else if msg_action buf len = CHECKPOINT then
        load_records_loop buf sz (len + PROXY_CHECKPOINT_MSG_SIZE)
          (snd (store_record (read_bytes buf len PROXY_CHECKPOINT_MSG_SIZE) proxy))
      else load_records_loop buf sz len proxy)"

definition stablestorage_load_records :: "mem \<Rightarrow> nat \<Rightarrow> proxy_node \<Rightarrow> proxy_node option" where
  "stablestorage_load_records buf sz proxy = load_records_loop buf sz 0 proxy"

end
