(* ===== verification/ProxySpec.thy ===== *)
theory ProxySpec
  imports Proxy
begin



subsection \<open>Records\<close>








subsection \<open>Batches\<close>

definition encode_batch :: "u8 list list \<Rightarrow> u8 list" where
  "encode_batch ps =
     le_bytes 8 (length ps) @ concat (map (\<lambda>p. le_bytes 8 (length p)) ps) @ concat ps"

definition frames :: "u8 list list \<Rightarrow> u8 list list" where
  "frames ps = concat (map (\<lambda>p. [htonl (length p), p]) ps)"

lemma send_packets_frames:
  "bytes_at m a (concat ps) \<Longrightarrow> send_packets m (map length ps) a = frames ps"
proof (induction ps arbitrary: a)
  case Nil
  show ?case by (simp add: frames_def)
next
  case (Cons p ps)
  then show ?case by (simp add: frames_def bytes_at_append bytes_at_read)
qed

lemma rd_nat_bytes_at: "bytes_at m a (le_bytes k v) \<Longrightarrow> rd_nat k m a = v mod 256 ^ k"
proof -
  assume "bytes_at m a (le_bytes k v)"
  then have "m x = le_bytes k v ! (x - a)" if "a \<le> x" "x < a + k" for x
    using bytes_at_nth [of m a "le_bytes k v" "x - a"] that by simp
  then have "same_on a k m (write_bytes m a (le_bytes k v))"
    by (simp add: same_on_def write_bytes_def)
  then show ?thesis using rd_nat_same rd_nat_write_le_bytes by metis
qed

lemma rd64_bytes_at: "bytes_at m a (le_bytes 8 v) \<Longrightarrow> v < 2 ^ 64 \<Longrightarrow> unat (rd64 m a) = v"
  by (simp add: rd64_def rd_nat_bytes_at unat_of_nat)

lemma bytes_at_lengths:
  assumes "bytes_at m a (concat (map (\<lambda>p. le_bytes 8 (length p)) ps))" and "\<forall>p \<in> set ps. length p < 2 ^ 64"
    and "i < length ps"
  shows "unat (rd64 m (a + 8 * i)) = length (ps ! i)"
  using assms
proof (induction ps arbitrary: a i)
  case Nil
  then show ?case by simp
next
  case (Cons p ps)
  show ?case
  proof (cases i)
    case 0
    then show ?thesis using Cons.prems rd64_bytes_at [of m a "length p"] by (simp add: bytes_at_append)
  next
    case (Suc j)
    then show ?thesis using Cons.IH [of "a + 8" j] Cons.prems by (simp add: bytes_at_append add.assoc)
  qed
qed

lemma batch_lengths_encode:
  assumes "bytes_at m 0 (encode_batch ps)" and "length ps < 2 ^ 63" and "\<forall>p \<in> set ps. length p < 2 ^ 64"
  shows "batch_lengths m = map length ps"
proof -
  have at: "bytes_at m 0 (le_bytes 8 (length ps))"
    "bytes_at m 8 (concat (map (\<lambda>p. le_bytes 8 (length p)) ps))"
    using assms(1) by (simp_all add: encode_batch_def bytes_at_append)
  have "rd64 m 0 = of_nat (length ps)"
    using rd64_bytes_at [OF at(1)] assms(2) by (simp add: word_unat_eq_iff unat_of_nat)
  then have "nat (sint (rd64 m 0)) = length ps"
    using assms(2) by (simp add: sint_uint signed_take_bit_eq_if_positive uint_nat unat_of_nat bit_iff_odd take_bit_nat_def
        take_bit_int_eq_self)
  then show ?thesis
    using bytes_at_lengths [OF at(2) assms(3)] by (intro nth_equalityI) (auto simp: batch_lengths_def)
qed

subsection \<open>Snapshots and batches\<close>

text \<open>A fresh proxy with a database, for the examples.\<close>

definition example_proxy :: "u8 list list \<Rightarrow> proxy_node" where
  "example_proxy db =
     \<lparr>px_highest_rec = 0, px_cur_rec = 0, px_sync_req_id = 0, px_batching = False, px_e1000_speedup = False,
      px_db = Some db, px_records_len = 0, px_put_rcs = [], px_checkpoint_req_status = CHECKPOINT_REQ_WAIT,
      px_tailq = [], px_mirror_clientfd = 0, px_sent = []\<rparr>"



text \<open>
  C28. In the batching mode \<^verbatim>\<open>do_action_send\<close> takes a batch apart again: for a command that holds the number
  of packets, their lengths and the packets, every packet is written to the socket in order, each
  after its own length in network byte order, and nothing else is written.
\<close>

theorem batch_frames_packets:
  assumes "px_batching p" and "px_e1000_speedup p" and "bytes_at data 0 (encode_batch ps)"
    and "length ps < 2 ^ 60" and "list_all (\<lambda>q. length q < 2 ^ 64) ps"
  shows "px_sent (do_action_send n data p) = px_sent p @ concat (map (\<lambda>q. [htonl (length q), q]) ps)"
proof -
  have lens: "batch_lengths data = map length ps"
    using assms by (intro batch_lengths_encode) (auto simp: list_all_iff)
  have "length (concat (map (\<lambda>q. le_bytes 8 (length q)) ps)) = 8 * length ps" by (induction ps) auto
  then have "bytes_at data (8 * (1 + length ps)) (concat ps)"
    using assms(3) by (simp add: encode_batch_def bytes_at_append)
  then show ?thesis
    using assms(1,2) lens send_packets_frames [of data "8 * (1 + length ps)" ps]
    by (simp add: do_action_send_def frames_def)
qed

theorem batch_frames_packets_witness:
  "px_sent (do_action_send 0 (write_bytes (\<lambda>_. 0) 0 (encode_batch [[7, 8], [9]]))
      (example_proxy []\<lparr>px_batching := True, px_e1000_speedup := True\<rparr>)) = [htonl 2, [7, 8], htonl 1, [9]]"
  using batch_frames_packets [of "example_proxy []\<lparr>px_batching := True, px_e1000_speedup := True\<rparr>"
      "write_bytes (\<lambda>_. 0) 0 (encode_batch [[7, 8], [9]])" "[[7, 8], [9]]" 0]
  by (simp add: bytes_at_write example_proxy_def flip: numeral_2_eq_2)

text \<open>
  C33. The length of a submitted command is kept in 16 bits although the assertion lets up to 327680 bytes
  pass: a submission of 65536 bytes is queued with all its bytes but with length 0, so that nothing of
  it reaches the log.
\<close>

theorem submit_length_truncated:
  assumes "length buf = 65536"
  shows "\<exists>n p'. proxy_on_mirror buf p = Some (n, p') \<and> tq_len (last (px_tailq p')) = 0 \<and>
    length (tq_cmd (last (px_tailq p'))) = 65536"
  using assms by (simp add: proxy_on_mirror_def leader_handle_submit_req_def IO_BUF_SIZE_def Let_def)

theorem submit_length_truncated_witness:
  "\<exists>n p'. proxy_on_mirror (replicate 65536 1) (example_proxy []) = Some (n, p') \<and> tq_len (last (px_tailq p')) = 0"
  using submit_length_truncated [of "replicate 65536 1" "example_proxy []"] by (metis length_replicate)

end
