(* ===== verification/State.thy ===== *)
theory State
  imports LogOrder Sid Kvs RbTreeSpec ProxySpec
begin

text \<open>
  The state of one server process: the data structures of \<^verbatim>\<open>dare_server.h\<close>, \<^verbatim>\<open>dare_ibv.h\<close> and
  \<^verbatim>\<open>dare_ep_db.h\<close>, the global variables of \<^verbatim>\<open>dare_server.c\<close> and \<^verbatim>\<open>dare_ibv_rc.c\<close>, and the world outside
  the process as seen through libibverbs and libev. That world is scripted: every poll of a
  completion queue takes the next element of \<open>d_polls\<close>, which tells what the network card wrote to
  the remotely accessible memory since the last poll and which work completions it reports; an
  exhausted script reports nothing any more. Arrays indexed by a server are functions.
\<close>

subsection \<open>Control data\<close>

record vote_req_t =
  vr_sid :: u64
  vr_index :: u64
  vr_term :: u64
  vr_cid :: dare_cid_t

record sm_rep_t =
  sr_sid :: u64
  sr_raddr :: u64
  sr_rkey :: u32
  sr_len :: u32

record ctrl_data_t =
  c_sid :: u64
  c_vote_req :: "nat \<Rightarrow> vote_req_t"
  c_log_offsets :: "nat \<Rightarrow> log_offsets_t"
  c_sm_rep :: "nat \<Rightarrow> sm_rep_t"
  c_sm_req :: "nat \<Rightarrow> u64"
  c_hb :: "nat \<Rightarrow> u64"
  c_vote_ack :: "nat \<Rightarrow> u64"
  c_rsid :: "nat \<Rightarrow> u64"
  c_apply_offsets :: "nat \<Rightarrow> u64"
  c_prv_data :: "nat \<Rightarrow> u64"

subsection \<open>Endpoints and queue pairs\<close>

definition LOG_QP :: nat where "LOG_QP = 1"
definition CTRL_QP :: nat where "CTRL_QP = 0"
definition CTRL_PSN :: u32 where "CTRL_PSN = 13"
definition LOG_PSN :: u32 where "LOG_PSN = 55"
definition RC_QP_ACTIVE :: u8 where "RC_QP_ACTIVE = 0"
definition RC_QP_BLOCKED :: u8 where "RC_QP_BLOCKED = 1"
definition RC_QP_ERROR :: u8 where "RC_QP_ERROR = 2"

lemmas qp_consts = LOG_QP_def CTRL_QP_def RC_QP_ACTIVE_def RC_QP_BLOCKED_def RC_QP_ERROR_def

text \<open>The state of a queue pair inside the network card, as \<^verbatim>\<open>ibv_modify_qp\<close> sets it.\<close>

datatype qp_state = IBV_QPS_RESET | IBV_QPS_INIT | IBV_QPS_RTR | IBV_QPS_RTS

record ibv_qp =
  hw_qp_num :: u32
  hw_state :: qp_state
  hw_dest_qpn :: u32
  hw_rq_psn :: u32
  hw_sq_psn :: u32

record rc_qp_t =
  q_qp :: ibv_qp
  q_signaled_wr_id :: u64
  q_qpn :: u32
  q_send_count :: u32
  q_state :: u8

record rem_mem_t =
  rm_raddr :: u64
  rm_rkey :: u32

record ud_ep_t =
  ud_lid :: u16
  ud_gid :: nat
  ud_qpn :: u32
  ud_ah :: "nat option"

record dare_ib_ep_t =
  ep_ud :: ud_ep_t
  ep_rmt_mr :: "nat \<Rightarrow> rem_mem_t"
  ep_rc_qp :: "nat \<Rightarrow> rc_qp_t"
  ep_mtu :: u32
  ep_rc_connected :: bool
  ep_log_access :: bool

text \<open>The endpoint database of \<^verbatim>\<open>dare_ep_db.h\<close>: clients and servers known by their LID.\<close>

record dare_ep_t =
  de_ud_ep :: ud_ep_t
  de_last_read_request :: "u8 list"
  de_wait_for_idx :: u64
  de_last_req_id :: u64
  de_cid_idx :: u64
  de_committed :: int

subsection \<open>Servers and configuration\<close>

definition MAX_SERVER_COUNT :: nat where "MAX_SERVER_COUNT = 13"
definition PERMANENT_FAILURE :: u8 where "PERMANENT_FAILURE = 2"
definition LR_GET_WRITE :: u8 where "LR_GET_WRITE = 1"
definition LR_GET_NCE_LEN :: u8 where "LR_GET_NCE_LEN = 2"
definition LR_GET_NCE :: u8 where "LR_GET_NCE = 3"
definition LR_SET_END :: u8 where "LR_SET_END = 4"
definition LR_UPDATE_LOG :: u8 where "LR_UPDATE_LOG = 5"
definition LR_UPDATE_END :: u8 where "LR_UPDATE_END = 6"

lemmas lr_steps = LR_GET_WRITE_def LR_GET_NCE_LEN_def LR_GET_NCE_def LR_SET_END_def LR_UPDATE_LOG_def
  LR_UPDATE_END_def

record server_t =
  s_next_wr_id :: u64
  s_cached_end_offset :: u64
  s_last_get_read_ssn :: u64
  s_ep :: dare_ib_ep_t
  s_fail_count :: u8
  s_next_lr_step :: u8
  s_send_flag :: u8
  s_send_count :: u8

record server_config_t =
  cf_cid :: dare_cid_t
  cf_cid_offset :: u64
  cf_cid_idx :: u64
  cf_req_id :: u64
  cf_servers :: "nat \<Rightarrow> server_t"
  cf_clt_id :: u16
  cf_idx :: u8
  cf_len :: u8

subsection \<open>Work requests and completions\<close>

text \<open>
  The local memory a work request reads or fills, and the remote memory it accesses: the field of
  the control data or of the log that the code addresses with \<^verbatim>\<open>offsetof\<close> within the region of the
  remote server, or an address it was sent.
\<close>

datatype lbuf =
    L_sid | L_rsid nat | L_sm_req nat | L_sm_rep nat | L_vote_req nat | L_vote_sid nat | L_commit
  | L_nc_len nat | L_nc_entries nat | L_end nat | L_rcommit nat | L_apply nat | L_log_offsets nat
  | L_entries u64 | L_snapshot

datatype rbuf =
    R_sid | R_hb nat | R_sm_req nat | R_sm_rep nat | R_vote_req nat | R_vote_ack nat | R_vote_sid nat
  | R_nc_len nat | R_nc_entries nat | R_end | R_commit | R_apply | R_commit_end | R_entries u64
  | R_addr u64 u32

datatype opcode = IBV_WR_RDMA_WRITE | IBV_WR_RDMA_READ

record wr =
  wr_id :: u64
  wr_server :: nat
  wr_qp :: nat
  wr_opcode :: opcode
  wr_local :: lbuf
  wr_len :: u64
  wr_remote :: rbuf
  wr_signaled :: bool

datatype wc_status =
    IBV_WC_SUCCESS | IBV_WC_LOC_LEN_ERR | IBV_WC_LOC_QP_OP_ERR | IBV_WC_LOC_EEC_OP_ERR
  | IBV_WC_LOC_PROT_ERR | IBV_WC_WR_FLUSH_ERR | IBV_WC_MW_BIND_ERR | IBV_WC_BAD_RESP_ERR
  | IBV_WC_LOC_ACCESS_ERR | IBV_WC_REM_INV_REQ_ERR | IBV_WC_REM_ACCESS_ERR | IBV_WC_REM_OP_ERR
  | IBV_WC_RETRY_EXC_ERR | IBV_WC_RNR_RETRY_EXC_ERR | IBV_WC_LOC_RDD_VIOL_ERR
  | IBV_WC_REM_INV_RD_REQ_ERR | IBV_WC_REM_ABORT_ERR | IBV_WC_INV_EECN_ERR
  | IBV_WC_INV_EEC_STATE_ERR | IBV_WC_FATAL_ERR | IBV_WC_RESP_TIMEOUT_ERR | IBV_WC_GENERAL_ERR

record wc =
  wc_wr_id :: u64
  wc_status :: wc_status

text \<open>\<^verbatim>\<open>struct snapshot_t\<close>: 32 bytes, then the records.\<close>

record snapshot_t =
  sn_last_entry :: dare_log_entry_det_t
  sn_len :: u32
  sn_data :: mem

definition PREREG_SNAPSHOT_SIZE :: u32 where "PREREG_SNAPSHOT_SIZE = 128 * 4096"
definition sizeof_snapshot_t :: u32 where "sizeof_snapshot_t = 32"

text \<open>What one call of \<^verbatim>\<open>ibv_poll_cq\<close> observes; \<open>None\<close> is a negative return value.\<close>

record poll =
  p_nic :: "ctrl_data_t \<times> dare_log_t \<times> snapshot_t \<Rightarrow> ctrl_data_t \<times> dare_log_t \<times> snapshot_t"
  p_wcs :: "wc list option"

subsection \<open>Timers and outputs\<close>

datatype callback =
    init_network_cb | join_cluster_cb | exchange_rc_info_cb | update_rc_info_cb | get_replicated_vote_cb
  | send_sm_request_cb | recover_log_cb | hb_receive_cb | hb_send_cb | to_adjust_cb | prune_log_cb

text \<open>Repeat values: 0 stops a timer; the heart-beat timeouts are counted in tenths of \<^verbatim>\<open>hb_period\<close>.\<close>

datatype duration =
    Stopped | Now | Hb nat | Retransmit_period | Rc_info_period | Log_pruning_period | Random_election

record ev_timer =
  t_cb :: callback
  t_repeat :: duration

subsection \<open>Datagram messages\<close>

text \<open>
  The messages of \<^verbatim>\<open>dare_ibv_ud.h\<close>: their header without the type, which the constructor stands for,
  and their fields. A message of another type is \<open>Msg_other\<close>.
\<close>

record ud_hdr_t =
  h_id :: u64
  h_gid :: nat
  h_slid :: u16

record reconf_rep_t =
  rp_idx :: u8
  rp_cid :: dare_cid_t
  rp_cid_idx :: u64
  rp_head :: u64

record rc_syn_t =
  sy_log_rm :: rem_mem_t
  sy_ctrl_rm :: rem_mem_t
  sy_mtu :: u32
  sy_idx :: u8
  sy_size :: u8
  sy_data :: "nat \<Rightarrow> u32"

datatype ud_msg =
    Msg_rc_syn ud_hdr_t rc_syn_t
  | Msg_rc_synack ud_hdr_t rc_syn_t
  | Msg_rc_ack ud_hdr_t u8
  | Msg_join ud_hdr_t
  | Msg_cfg_reply ud_hdr_t reconf_rep_t
  | Msg_csm_reply ud_hdr_t u16 "u8 list"
  | Msg_other u8 ud_hdr_t

text \<open>
  What a poll of the receive queue observes: a failed poll, a completion with an error status, a
  completion that is not a receive, or a message with the source LID and queue pair number of its
  completion. What becomes of a message to send: the post fails, the poll for its completion fails,
  the completion has an error status, or it never comes.
\<close>

record ud_wc =
  uw_slid :: u16
  uw_src_qp :: u32

datatype ud_recv = Ud_poll_error | Ud_bad_status | Ud_no_recv ud_wc | Ud_recv ud_wc ud_msg

datatype ud_send = Ud_ok | Ud_post_failed | Ud_scq_failed | Ud_status_failed | Ud_lost

text \<open>What the process sends, oldest first; \<open>None\<close> is the multicast group.\<close>

datatype effect = Posted wr | Ud_sent "ud_ep_t option" ud_msg

text \<open>The device: its LID, GID and MTU, the identifier taken from the host name, its local regions.\<close>

record ib_dev =
  dev_lid :: u16
  dev_gid :: nat
  dev_mtu :: u32
  dev_unique_slid :: u16
  dev_lcl_mr :: "nat \<Rightarrow> rem_mem_t"

subsection \<open>The process\<close>

text \<open>The input of the server thread, as far as it does not name a callback or a file.\<close>

datatype srv_type = SRV_TYPE_START | SRV_TYPE_JOIN | SRV_TYPE_LOGGP

record dare_server_input_t =
  in_srv_type :: srv_type
  in_sm_type :: u8
  in_group_size :: u8
  in_server_idx :: u8

record hb_state =
  recomputed_hb_timeout :: nat
  leader_failed :: bool
  hb_timeout_flag :: bool
  latest_hb_received :: u64
  total_count :: u64
  fp_count :: u64

record dare =
  d_input :: dare_server_input_t
  d_config :: server_config_t
  d_ctrl :: ctrl_data_t
  d_log :: dare_log_t
  d_endpoints :: "dare_ep_t rbt"
  d_last_write_csm_idx :: u64
  d_last_cmt_write_csm_idx :: u64
  d_state :: u64
  d_prev_log_entry_head :: int
  d_last_applied_entry :: dare_log_entry_det_t
  d_disable_apply :: bool
  d_sm :: "dare_kvs_sm_t option"
  d_sm_alloc :: alloc
  d_proxy :: proxy_node
  d_snapshot :: snapshot_t
  d_prereg_mr :: "u64 \<times> u32"
  d_snapshot_mr :: "u32 option"
  d_allocs :: "u64 option list"
  d_reg_mrs :: "u32 option list"
  d_hb :: hb_state
  d_timer_event :: ev_timer
  d_hb_event :: ev_timer
  d_to_adjust_event :: ev_timer
  d_prune_event :: ev_timer
  d_ssn :: u64
  d_wa_flag :: bool
  d_committed :: bool
  d_offsets :: "nat \<Rightarrow> u64"
  d_rc_max_send_wr :: u32
  d_polls :: "poll list"
  d_post_rcs :: "int list"
  d_modify_rcs :: "int list"
  d_dev :: ib_dev
  d_request_id :: u64
  d_ud_recvs :: "ud_recv option list"
  d_ud_sends :: "ud_send list"
  d_ahs :: "nat option list"
  d_fresh_ep :: dare_ep_t
  d_uninit_rc :: int
  d_uninit_offset :: u64
  d_out :: "effect list"

text \<open>
  The other scripts hold what libibverbs and the allocator answer: \<open>d_allocs\<close> the address
  \<^verbatim>\<open>posix_memalign\<close> returns, \<open>d_reg_mrs\<close> the key of the region \<^verbatim>\<open>ibv_reg_mr\<close> registers (\<open>None\<close> is a
  failure, as is a used up script), \<open>d_ahs\<close> the address handle \<^verbatim>\<open>ibv_create_ah\<close> makes, \<open>d_post_rcs\<close> and
  \<open>d_modify_rcs\<close> return codes (0 when used up), \<open>d_ud_recvs\<close> what polls of the datagram receive queue see
  (\<open>None\<close> and a used up script: nothing), and \<open>d_ud_sends\<close> what becomes of datagrams (sent when used up).
  The memory of a new endpoint holds \<open>d_fresh_ep\<close>, and \<open>d_sm_alloc\<close> answers the key-value store. The snapshot in use, preregistered or allocated, is \<open>d_snapshot\<close>; the code always fills it
  before it reads it. The fields \<open>d_uninit_rc\<close> and \<open>d_uninit_offset\<close> are the values read where the C
  code uses a return value or a variable that was never set.

  How a function ends: it returns a value, it shuts the server down (\<^verbatim>\<open>dare_server_shutdown\<close> ends the
  thread), it exits with \<^verbatim>\<open>error_exit\<close>, it waits for completions that never come, or it goes through
  a null pointer.
\<close>

datatype 'a result = Ret 'a dare | Shutdown dare | Exit dare | Hang dare | Fault dare

primrec bnd :: "'a result \<Rightarrow> ('a \<Rightarrow> dare \<Rightarrow> 'b result) \<Rightarrow> 'b result" where
  "bnd (Ret x s) f = f x s"
| "bnd (Shutdown s) f = Shutdown s"
| "bnd (Exit s) f = Exit s"
| "bnd (Hang s) f = Hang s"
| "bnd (Fault s) f = Fault s"

text \<open>\<^verbatim>\<open>for\<close> loops over an index list with an early \<^verbatim>\<open>return\<close> (\<open>Inl\<close>) or the end of the process.\<close>

fun loop :: "nat list \<Rightarrow> (nat \<Rightarrow> 'v \<Rightarrow> dare \<Rightarrow> ('r + 'v) result) \<Rightarrow> 'v \<Rightarrow> dare \<Rightarrow> ('r + 'v) result" where
  "loop [] body v s = Ret (Inr v) s"
| "loop (i # is) body v s =
     bnd (body i v s) (\<lambda>x s. case x of Inl r \<Rightarrow> Ret (Inl r) s | Inr v \<Rightarrow> loop is body v s)"

abbreviation d_cid :: "dare \<Rightarrow> dare_cid_t" where "d_cid s \<equiv> cf_cid (d_config s)"
abbreviation d_idx :: "dare \<Rightarrow> nat" where "d_idx s \<equiv> unat (cf_idx (d_config s))"
abbreviation d_sid :: "dare \<Rightarrow> u64" where "d_sid s \<equiv> c_sid (d_ctrl s)"

definition upd_ctrl :: "(ctrl_data_t \<Rightarrow> ctrl_data_t) \<Rightarrow> dare \<Rightarrow> dare" where
  "upd_ctrl f s = s\<lparr>d_ctrl := f (d_ctrl s)\<rparr>"

definition upd_log :: "(dare_log_t \<Rightarrow> dare_log_t) \<Rightarrow> dare \<Rightarrow> dare" where
  "upd_log f s = s\<lparr>d_log := f (d_log s)\<rparr>"

definition upd_config :: "(server_config_t \<Rightarrow> server_config_t) \<Rightarrow> dare \<Rightarrow> dare" where
  "upd_config f s = s\<lparr>d_config := f (d_config s)\<rparr>"

definition d_server :: "dare \<Rightarrow> nat \<Rightarrow> server_t" where
  "d_server s i = cf_servers (d_config s) i"

definition upd_server :: "nat \<Rightarrow> (server_t \<Rightarrow> server_t) \<Rightarrow> dare \<Rightarrow> dare" where
  "upd_server i f s = s\<lparr>d_config := (d_config s)\<lparr>cf_servers :=
     (cf_servers (d_config s))(i := f (cf_servers (d_config s) i))\<rparr>\<rparr>"

definition d_ep :: "dare \<Rightarrow> nat \<Rightarrow> dare_ib_ep_t" where
  "d_ep s i = s_ep (d_server s i)"

definition upd_ep :: "nat \<Rightarrow> (dare_ib_ep_t \<Rightarrow> dare_ib_ep_t) \<Rightarrow> dare \<Rightarrow> dare" where
  "upd_ep i f = upd_server i (\<lambda>v. v\<lparr>s_ep := f (s_ep v)\<rparr>)"

definition d_qp :: "dare \<Rightarrow> nat \<Rightarrow> nat \<Rightarrow> rc_qp_t" where
  "d_qp s i q = ep_rc_qp (d_ep s i) q"

definition upd_qp :: "nat \<Rightarrow> nat \<Rightarrow> (rc_qp_t \<Rightarrow> rc_qp_t) \<Rightarrow> dare \<Rightarrow> dare" where
  "upd_qp i q f = upd_ep i (\<lambda>e. e\<lparr>ep_rc_qp := (ep_rc_qp e)(q := f (ep_rc_qp e q))\<rparr>)"

definition emit :: "effect \<Rightarrow> dare \<Rightarrow> dare" where
  "emit x s = s\<lparr>d_out := d_out s @ [x]\<rparr>"

text \<open>Reading a flag word of the state.\<close>

definition TERMINATE :: u64 where "TERMINATE = 0x1"
definition INIT :: u64 where "INIT = 0x2"
definition JOINED :: u64 where "JOINED = 0x4"
definition RC_ESTABLISHED :: u64 where "RC_ESTABLISHED = 0x8"
definition SM_RECOVERED :: u64 where "SM_RECOVERED = 0x10"
definition LOG_RECOVERED :: u64 where "LOG_RECOVERED = 0x20"
definition SNAPSHOT :: u64 where "SNAPSHOT = 0x40"
definition DIE_AF_COMMIT :: u64 where "DIE_AF_COMMIT = 0x80"

lemmas dare_flags = TERMINATE_def INIT_def JOINED_def RC_ESTABLISHED_def SM_RECOVERED_def
  LOG_RECOVERED_def SNAPSHOT_def DIE_AF_COMMIT_def

definition has_flag :: "u64 \<Rightarrow> dare \<Rightarrow> bool" where
  "has_flag f s \<longleftrightarrow> d_state s AND f \<noteq> 0"

definition set_flag :: "u64 \<Rightarrow> dare \<Rightarrow> dare" where
  "set_flag f s = s\<lparr>d_state := d_state s OR f\<rparr>"

definition clear_flag :: "u64 \<Rightarrow> dare \<Rightarrow> dare" where
  "clear_flag f s = s\<lparr>d_state := d_state s AND NOT f\<rparr>"

end
