(* ===== verification/EpDb.thy ===== *)
theory EpDb
  imports State
begin

text \<open>
  The endpoint database of \<^verbatim>\<open>dare_ep_db.c\<close>: a red-black tree of endpoints ordered by LID. A pointer to
  an endpoint of the tree is its LID, and a store through it is \<open>ep_store\<close>. The specification is a map
  from LIDs to endpoints; \<open>ep_inv\<close> says that the tree is red-black and ordered.
\<close>

abbreviation lid_of :: "dare_ep_t \<Rightarrow> u16" where "lid_of ep \<equiv> ud_lid (de_ud_ep ep)"

subsection \<open>Operations\<close>

fun ep_search :: "dare_ep_t rbt \<Rightarrow> u16 \<Rightarrow> dare_ep_t option" where
  "ep_search Leaf lid = None"
| "ep_search (Node c l ep r) lid =
     (if lid < lid_of ep then ep_search l lid else if lid > lid_of ep then ep_search r lid else Some ep)"

fun ep_store :: "u16 \<Rightarrow> (dare_ep_t \<Rightarrow> dare_ep_t) \<Rightarrow> dare_ep_t rbt \<Rightarrow> dare_ep_t rbt" where
  "ep_store lid f Leaf = Leaf"
| "ep_store lid f (Node c l ep r) =
     (if lid < lid_of ep then Node c (ep_store lid f l) ep r
      else if lid > lid_of ep then Node c l ep (ep_store lid f r)
      else Node c l (f ep) r)"

text \<open>The descent of \<^verbatim>\<open>ep_insert\<close> to the link for a new node; \<open>None\<close> if the LID is present.\<close>

fun ep_link :: "u16 \<Rightarrow> dare_ep_t rbt \<Rightarrow> dare_ep_t frame list \<Rightarrow> dare_ep_t frame list option" where
  "ep_link lid Leaf p = Some p"
| "ep_link lid (Node c l this r) p =
     (if lid < lid_of this then ep_link lid l (LeftOf c this r # p)
      else if lid > lid_of this then ep_link lid r (RightOf c this l # p)
      else None)"

text \<open>
  The fields the function sets; \<open>fresh\<close> is what the new memory holds, and \<open>ah\<close> the address handle.
\<close>

definition new_ep :: "dare_ep_t \<Rightarrow> u16 \<Rightarrow> nat \<Rightarrow> nat option \<Rightarrow> dare_ep_t" where
  "new_ep fresh lid gid ah =
     fresh\<lparr>de_ud_ep := (de_ud_ep fresh)\<lparr>ud_lid := lid, ud_gid := gid, ud_ah := ah\<rparr>, de_wait_for_idx := 0,
           de_last_req_id := 0, de_cid_idx := 0, de_committed := 0\<rparr>"

definition ep_insert ::
    "dare_ep_t \<Rightarrow> nat option \<Rightarrow> dare_ep_t rbt \<Rightarrow> u16 \<Rightarrow> nat \<Rightarrow> (dare_ep_t option \<times> dare_ep_t rbt) option" where
  "ep_insert fresh ah root lid gid =
     (case ep_link lid root [] of
        None \<Rightarrow> Some (None, root)
      | Some p \<Rightarrow>
          let ep = new_ep fresh lid gid ah
          in map_option (\<lambda>t. (Some ep, t)) (rb_insert_color ep p))"

text \<open>The node \<^verbatim>\<open>ep_search\<close> returns, with its ancestors.\<close>

fun ep_locate :: "u16 \<Rightarrow> dare_ep_t cursor \<Rightarrow> dare_ep_t cursor option" where
  "ep_locate lid (Leaf, p) = None"
| "ep_locate lid (Node c l ep r, p) =
     (if lid < lid_of ep then ep_locate lid (l, LeftOf c ep r # p)
      else if lid > lid_of ep then ep_locate lid (r, RightOf c ep l # p)
      else Some (Node c l ep r, p))"

definition ep_erase :: "dare_ep_t rbt \<Rightarrow> u16 \<Rightarrow> dare_ep_t rbt option" where
  "ep_erase root lid = (case ep_locate lid (root, []) of None \<Rightarrow> Some root | Some cur \<Rightarrow> rb_erase cur)"

definition ep_dp_reset_wait_idx :: "dare_ep_t rbt \<Rightarrow> dare_ep_t rbt" where
  "ep_dp_reset_wait_idx root =
     fold (\<lambda>ep. ep_store (lid_of ep) (\<lambda>ep. ep\<lparr>de_wait_for_idx := 0\<rparr>)) (rb_nodes root) root"

text \<open>
  The nodes \<^verbatim>\<open>ep_db_free\<close> passes to \<^verbatim>\<open>free_ep\<close>, in at most \<open>n\<close> turns of its loop: the successor is taken
  before a node is freed.
\<close>

fun postorder_iter :: "'a cursor \<Rightarrow> nat \<Rightarrow> 'a list" where
  "postorder_iter cur 0 = []"
| "postorder_iter cur (Suc n) =
     (case elem cur of None \<Rightarrow> []
      | Some x \<Rightarrow> x # (case rb_next_postorder cur of None \<Rightarrow> [] | Some cur' \<Rightarrow> postorder_iter cur' n))"

definition ep_db_free :: "dare_ep_t rbt \<Rightarrow> nat \<Rightarrow> dare_ep_t list" where
  "ep_db_free root n = (case rb_first_postorder root of None \<Rightarrow> [] | Some cur \<Rightarrow> postorder_iter cur n)"

subsection \<open>The database as a map\<close>

definition ep_ordered :: "dare_ep_t list \<Rightarrow> bool" where
  "ep_ordered eps \<longleftrightarrow> sorted_wrt (\<lambda>a b. lid_of a < lid_of b) eps"

definition ep_inv :: "dare_ep_t rbt \<Rightarrow> bool" where
  "ep_inv t \<longleftrightarrow> rb_tree t \<and> ep_ordered (inorder t)"

definition ep_map :: "dare_ep_t rbt \<Rightarrow> u16 \<rightharpoonup> dare_ep_t" where
  "ep_map t = map_of (map (\<lambda>ep. (lid_of ep, ep)) (inorder t))"

abbreviation eps_map :: "dare_ep_t list \<Rightarrow> u16 \<rightharpoonup> dare_ep_t" where
  "eps_map eps \<equiv> map_of (map (\<lambda>ep. (lid_of ep, ep)) eps)"

lemma ep_ordered_append:
  "ep_ordered (xs @ ys) \<longleftrightarrow> ep_ordered xs \<and> ep_ordered ys \<and> (\<forall>x \<in> set xs. \<forall>y \<in> set ys. lid_of x < lid_of y)"
  by (simp add: ep_ordered_def sorted_wrt_append)

lemma ep_ordered_Cons:
  "ep_ordered (x # ys) \<longleftrightarrow> (\<forall>y \<in> set ys. lid_of x < lid_of y) \<and> ep_ordered ys"
  by (simp add: ep_ordered_def)

lemma eps_map_None: "(\<And>y. y \<in> set eps \<Longrightarrow> lid_of y \<noteq> lid) \<Longrightarrow> eps_map eps lid = None"
  by (induction eps) auto

lemma eps_map_insert:
  assumes "\<And>y. y \<in> set xs \<Longrightarrow> lid_of y \<noteq> lid_of x"
  shows "eps_map (xs @ x # ys) = (eps_map (xs @ ys))(lid_of x \<mapsto> x)"
  using assms by (induction xs) (auto simp: fun_upd_twist)

lemma eps_map_remove:
  assumes "ep_ordered (xs @ x # ys)"
  shows "eps_map (xs @ ys) = (eps_map (xs @ x # ys))(lid_of x := None)"
proof -
  have "lid_of y \<noteq> lid_of x" if "y \<in> set (xs @ ys)" for y
    using assms that by (auto simp: ep_ordered_append ep_ordered_Cons)
  then show ?thesis
    using eps_map_insert [of xs x ys] eps_map_None [of "xs @ ys" "lid_of x"] by (auto simp: fun_eq_iff)
qed

lemma ep_search_map: "ep_ordered (inorder t) \<Longrightarrow> ep_search t lid = ep_map t lid"
proof (induction t)
  case Leaf
  show ?case by (simp add: ep_map_def)
next
  case (Node c l ep r)
  have o: "ep_ordered (inorder l)" "ep_ordered (inorder r)"
    "\<And>x. x \<in> set (inorder l) \<Longrightarrow> lid_of x < lid_of ep" "\<And>y. y \<in> set (inorder r) \<Longrightarrow> lid_of ep < lid_of y"
    using Node.prems by (auto simp: ep_ordered_append ep_ordered_Cons)
  have l: "eps_map (inorder l) lid = None" if "\<not> lid < lid_of ep"
    using o(3) that by (intro eps_map_None) auto
  have r: "eps_map (inorder r) lid = None" if "\<not> lid > lid_of ep"
    using o(4) that by (intro eps_map_None) auto
  show ?case
    using Node.IH(1) [OF o(1)] Node.IH(2) [OF o(2)] l r
    by (auto simp: ep_map_def map_add_def split: option.splits)
qed

lemma ep_link_plug:
  "ep_link lid t p = Some q \<Longrightarrow> plug Leaf q = plug t p \<and>
     (\<exists>b a. before q = before p @ b \<and> after q = a @ after p \<and> inorder t = b @ a \<and>
        (ep_ordered (inorder t) \<longrightarrow> (\<forall>x \<in> set b. lid_of x < lid) \<and> (\<forall>x \<in> set a. lid < lid_of x)))"
proof (induction lid t p arbitrary: q rule: ep_link.induct)
  case (1 lid p)
  then show ?case by simp
next
  case (2 lid c l this r p)
  consider (lt) "lid < lid_of this" | (gt) "lid > lid_of this" "\<not> lid < lid_of this"
    using 2(3) by (auto split: if_splits)
  then show ?case
  proof cases
    case lt
    obtain b a where ba: "plug Leaf q = plug l (LeftOf c this r # p)"
      "before q = before (LeftOf c this r # p) @ b" "after q = a @ after (LeftOf c this r # p)"
      "inorder l = b @ a"
      "ep_ordered (inorder l) \<longrightarrow> (\<forall>x \<in> set b. lid_of x < lid) \<and> (\<forall>x \<in> set a. lid < lid_of x)"
      using 2(1) [OF lt] 2(3) lt by fastforce
    then show ?thesis
      using lt by (intro conjI exI [of _ b] exI [of _ "a @ this # inorder r"])
        (auto simp: ep_ordered_append ep_ordered_Cons)
  next
    case gt
    obtain b a where ba: "plug Leaf q = plug r (RightOf c this l # p)"
      "before q = before (RightOf c this l # p) @ b" "after q = a @ after (RightOf c this l # p)"
      "inorder r = b @ a"
      "ep_ordered (inorder r) \<longrightarrow> (\<forall>x \<in> set b. lid_of x < lid) \<and> (\<forall>x \<in> set a. lid < lid_of x)"
      using 2(2) [OF gt(2,1)] 2(3) gt by fastforce
    then show ?thesis
      using gt by (intro conjI exI [of _ "inorder l @ this # b"] exI [of _ a])
        (auto simp: ep_ordered_append ep_ordered_Cons)
  qed
qed

lemma ep_link_None: "ep_link lid t p = None \<longleftrightarrow> ep_search t lid \<noteq> None"
  by (induction lid t p rule: ep_link.induct) auto

lemma ep_locate_plug:
  "ep_locate lid (t, p) = Some cur \<Longrightarrow> \<exists>c l ep r q. cur = (Node c l ep r, q) \<and> lid_of ep = lid \<and>
     plug (Node c l ep r) q = plug t p"
proof (induction lid "(t, p)" arbitrary: t p rule: ep_locate.induct)
  case (2 lid c l ep r p)
  show ?case
  proof (cases "lid < lid_of ep")
    case True
    then show ?thesis using 2(1) [OF True] 2(3) by auto
  next
    case False
    show ?thesis
    proof (cases "lid > lid_of ep")
      case True
      then show ?thesis using 2(2) [OF False True] 2(3) False by auto
    next
      case eq: False
      then have "lid_of ep = lid" using False by simp
      then show ?thesis using 2(3) by auto
    qed
  qed
qed simp

lemma ep_locate_None: "ep_locate lid (t, p) = None \<longleftrightarrow> ep_search t lid = None"
  by (induction lid "(t, p)" arbitrary: t p rule: ep_locate.induct) auto

lemma ep_insert_ok:
  assumes inv: "ep_inv t" and new: "ep_map t lid = None"
  obtains t' where "ep_insert fresh ah t lid gid = Some (Some (new_ep fresh lid gid ah), t')"
    and "ep_inv t'" and "ep_map t' = (ep_map t)(lid \<mapsto> new_ep fresh lid gid ah)"
proof -
  let ?ep = "new_ep fresh lid gid ah"
  have o: "ep_ordered (inorder t)" using inv by (simp add: ep_inv_def)
  then obtain p where p: "ep_link lid t [] = Some p"
    using new ep_link_None [of lid t "[]"] ep_search_map [of t lid] by auto
  have lid: "lid_of ?ep = lid" by (simp add: new_ep_def)
  obtain b a where ba: "before p = b" "after p = a" "inorder t = b @ a"
    "\<And>x. x \<in> set b \<Longrightarrow> lid_of x < lid" "\<And>x. x \<in> set a \<Longrightarrow> lid < lid_of x" "plug Leaf p = t"
    using ep_link_plug [OF p] o by auto
  then obtain t' where t': "rb_insert_color ?ep p = Some t'" "rb_tree t'" "inorder t' = b @ ?ep # a"
    using rb_insert_color_ok [of p ?ep] inv by (auto simp: ep_inv_def)
  have "ep_ordered (b @ ?ep # a)"
    using o ba lid by (auto simp: ep_ordered_append ep_ordered_Cons)
  moreover have "eps_map (b @ ?ep # a) = (eps_map (b @ a))(lid \<mapsto> ?ep)"
    using eps_map_insert [of b ?ep a] ba(4) lid by auto
  ultimately show thesis
    using that [of t'] p t' ba(3) by (simp add: ep_insert_def ep_inv_def ep_map_def)
qed

lemma ep_insert_present:
  "ep_inv t \<Longrightarrow> ep_map t lid \<noteq> None \<Longrightarrow> ep_insert fresh ah t lid gid = Some (None, t)"
  using ep_link_None [of lid t "[]"] ep_search_map [of t lid] by (simp add: ep_insert_def ep_inv_def)

lemma ep_erase_ok:
  assumes inv: "ep_inv t"
  obtains t' where "ep_erase t lid = Some t'" and "ep_inv t'" and "ep_map t' = (ep_map t)(lid := None)"
proof (cases "ep_locate lid (t, [])")
  case None
  then have "ep_map t lid = None"
    using ep_locate_None [of lid t "[]"] ep_search_map [of t lid] inv by (simp add: ep_inv_def)
  then have "ep_map t = (ep_map t)(lid := None)" by (simp add: fun_upd_idem)
  then show thesis using that [of t] None inv by (simp add: ep_erase_def)
next
  case (Some cur)
  then obtain c l ep r q where q: "cur = (Node c l ep r, q)" "lid_of ep = lid" "plug (Node c l ep r) q = t"
    using ep_locate_plug [OF Some] by auto
  then obtain t' where t': "rb_erase cur = Some t'" "rb_tree t'"
    "inorder t' = before q @ inorder l @ inorder r @ after q"
    using rb_erase_ok [of c l ep r q] inv by (auto simp: ep_inv_def)
  have it: "inorder t = (before q @ inorder l) @ ep # (inorder r @ after q)"
    using q(3) inorder_plug [of "Node c l ep r" q] by simp
  then have o: "ep_ordered ((before q @ inorder l) @ ep # (inorder r @ after q))"
    using inv by (simp add: ep_inv_def)
  have "ep_ordered (inorder t')"
    using o t'(3) by (auto simp: ep_ordered_append ep_ordered_Cons)
  moreover have "ep_map t' = (ep_map t)(lid := None)"
    using eps_map_remove [OF o] t'(3) it q(2) by (simp add: ep_map_def)
  ultimately show thesis using that [of t'] Some t' by (simp add: ep_erase_def ep_inv_def)
qed

subsection \<open>Visiting all endpoints\<close>

lemma ep_store_inorder:
  assumes "ep_ordered (xs @ ep # ys)" and "inorder t = xs @ ep # ys"
  shows "inorder (ep_store (lid_of ep) f t) = xs @ f ep # ys"
  using assms
proof (induction t arbitrary: xs ys)
  case Leaf
  then show ?case by simp
next
  case (Node c l x r)
  have o: "ep_ordered (inorder l @ x # inorder r)" using Node.prems by simp
  from Node.prems(2) consider (l) ys' where "inorder l = xs @ ep # ys'" "ys = ys' @ x # inorder r"
    | (here) "xs = inorder l" "ep = x" "ys = inorder r"
    | (r) xs' where "inorder r = xs' @ ep # ys" "xs = inorder l @ x # xs'"
    by (auto simp: append_eq_append_conv2 append_eq_Cons_conv Cons_eq_append_conv)
  then show ?case
  proof cases
    case l
    then have "lid_of ep < lid_of x" "ep_ordered (xs @ ep # ys')"
      using o by (auto simp: ep_ordered_append ep_ordered_Cons)
    then show ?thesis using Node.IH(1) [of xs ys'] l by simp
  next
    case here
    then show ?thesis by simp
  next
    case r
    then have "lid_of x < lid_of ep" "ep_ordered (xs' @ ep # ys)"
      using o by (auto simp: ep_ordered_append ep_ordered_Cons)
    moreover from this(1) have "\<not> lid_of ep < lid_of x" by simp
    ultimately show ?thesis using Node.IH(2) [of xs' ys] r by simp
  qed
qed

lemma ep_store_shape: "rb_ok (ep_store lid f t) n = rb_ok t n" "color_of (ep_store lid f t) = color_of t"
proof -
  show c: "color_of (ep_store lid f t) = color_of t" for t by (cases t) auto
  show "rb_ok (ep_store lid f t) n = rb_ok t n"
  proof (induction t arbitrary: n)
    case (Node k l x r)
    then show ?case by (cases k) (auto simp: c)
  qed simp
qed

lemma fold_ep_store:
  assumes "\<And>ep. lid_of (f ep) = lid_of ep" and "ep_ordered (done @ eps)" and "inorder t = map f done @ eps"
  shows "inorder (fold (\<lambda>ep. ep_store (lid_of ep) f) eps t) = map f (done @ eps)"
  using assms(2,3)
proof (induction eps arbitrary: "done" t)
  case Nil
  then show ?case by simp
next
  case (Cons ep eps)
  have "ep_ordered (map f done @ ep # eps)"
    using Cons.prems(1) assms(1) by (auto simp: ep_ordered_def sorted_wrt_append sorted_wrt_map)
  then have "inorder (ep_store (lid_of ep) f t) = map f (done @ [ep]) @ eps"
    using ep_store_inorder Cons.prems(2) by simp
  then show ?case using Cons.IH [of "done @ [ep]"] Cons.prems(1) by simp
qed

lemma reset_wait_idx_inorder:
  "ep_ordered (inorder t) \<Longrightarrow>
    inorder (ep_dp_reset_wait_idx t) = map (\<lambda>ep. ep\<lparr>de_wait_for_idx := 0\<rparr>) (inorder t)"
  using fold_ep_store [of "\<lambda>ep. ep\<lparr>de_wait_for_idx := 0\<rparr>" "[]" "inorder t" t]
  by (simp add: ep_dp_reset_wait_idx_def rb_nodes_inorder)

primrec postorder :: "'a rbt \<Rightarrow> 'a list" where
  "postorder Leaf = []"
| "postorder (Node c l x r) = postorder l @ postorder r @ [x]"

fun post_after :: "'a frame list \<Rightarrow> 'a list" where
  "post_after [] = []"
| "post_after (LeftOf c x r # p) = postorder r @ x # post_after p"
| "post_after (RightOf c x l # p) = x # post_after p"

text \<open>A node whose subtrees have been visited, and the elements to come from it on.\<close>

fun post_rest :: "'a cursor \<Rightarrow> 'a list" where
  "post_rest (Leaf, p) = []"
| "post_rest (Node c l x r, p) = x # post_after p"

lemma left_deepest_post: "t \<noteq> Leaf \<Longrightarrow> post_rest (rb_left_deepest_node t p) = postorder t @ post_after p"
  by (induction t p rule: rb_left_deepest_node.induct) auto

lemma next_postorder_rest:
  assumes "elem cur = Some x"
  shows "post_rest cur = x # (case rb_next_postorder cur of None \<Rightarrow> [] | Some cur' \<Rightarrow> post_rest cur')"
    and "rb_next_postorder cur = Some cur' \<Longrightarrow> elem cur' \<noteq> None"
proof -
  obtain c l r p where cur: "cur = (Node c l x r, p)" using assms by (cases cur rule: elem.cases) auto
  have deep: "t \<noteq> Leaf \<Longrightarrow> elem (rb_left_deepest_node t q) \<noteq> None" for t :: "'a rbt" and q
    by (induction t q rule: rb_left_deepest_node.induct) auto
  show "post_rest cur = x # (case rb_next_postorder cur of None \<Rightarrow> [] | Some cur' \<Rightarrow> post_rest cur')"
    using cur by (cases "(Node c l x r, p)" rule: rb_next_postorder.cases) (auto simp: left_deepest_post)
  show "rb_next_postorder cur = Some cur' \<Longrightarrow> elem cur' \<noteq> None"
    using cur deep by (cases "(Node c l x r, p)" rule: rb_next_postorder.cases) (auto split: if_splits)
qed

lemma postorder_iter_rest:
  "elem cur \<noteq> None \<Longrightarrow> length (post_rest cur) \<le> n \<Longrightarrow> postorder_iter cur n = post_rest cur"
proof (induction n arbitrary: cur)
  case 0
  then show ?case by (cases cur rule: post_rest.cases) auto
next
  case (Suc n)
  obtain x where x: "elem cur = Some x" using Suc.prems(1) by auto
  show ?case
    using next_postorder_rest [OF x] Suc x by (auto split: option.splits)
qed

lemma ep_db_free_postorder: "length (postorder root) \<le> n \<Longrightarrow> ep_db_free root n = postorder root"
proof (cases "root = Leaf")
  case False
  assume n: "length (postorder root) \<le> n"
  have "post_rest (rb_left_deepest_node root []) = postorder root" using left_deepest_post [OF False, of "[]"] by simp
  moreover have "postorder root \<noteq> []" using False by (cases root) auto
  ultimately have "elem (rb_left_deepest_node root []) \<noteq> None"
    by (cases "rb_left_deepest_node root []" rule: elem.cases) auto
  then show ?thesis
    using False n postorder_iter_rest [of "rb_left_deepest_node root []" n] left_deepest_post [OF False, of "[]"]
    by (simp add: ep_db_free_def rb_first_postorder_def)
qed (simp add: ep_db_free_def rb_first_postorder_def)

subsection \<open>The contract of the database\<close>

definition example_ep :: "u16 \<Rightarrow> dare_ep_t" where
  "example_ep lid =
     \<lparr>de_ud_ep = \<lparr>ud_lid = lid, ud_gid = 0, ud_qpn = 0, ud_ah = None\<rparr>, de_last_read_request = [],
      de_wait_for_idx = 7, de_last_req_id = 0, de_cid_idx = 0, de_committed = 0\<rparr>"

definition example_db :: "dare_ep_t rbt" where
  "example_db = Node RB_BLACK (Node RB_RED Leaf (example_ep 3) Leaf) (example_ep 5) (Node RB_RED Leaf (example_ep 9) Leaf)"

lemma example_db_inv: "ep_inv example_db"
proof -
  have "rb_ok example_db 1" by (simp add: example_db_def)
  then show ?thesis
    by (auto simp: ep_inv_def rb_tree_def ep_ordered_def example_db_def example_ep_def)
qed

text \<open>
  C23. \<^verbatim>\<open>ep_insert\<close> on a well-formed database never follows a null pointer, keeps the tree ordered by LID
  and red-black, and answers null exactly when the LID is present already. Afterwards a search finds
  the new endpoint under its LID and every other endpoint as before.
\<close>

theorem ep_insert_search:
  assumes "ep_inv t"
  shows "\<exists>r t'. ep_insert fresh ah t lid gid = Some (r, t') \<and> ep_inv t' \<and>
    (r = None \<longleftrightarrow> ep_search t lid \<noteq> None) \<and>
    (\<forall>k. ep_search t' k =
       (if k = lid \<and> ep_search t lid = None then Some (new_ep fresh lid gid ah) else ep_search t k))"
proof (cases "ep_map t lid")
  case None
  then obtain t' where t': "ep_insert fresh ah t lid gid = Some (Some (new_ep fresh lid gid ah), t')"
    "ep_inv t'" "ep_map t' = (ep_map t)(lid \<mapsto> new_ep fresh lid gid ah)"
    using ep_insert_ok [OF assms None] by blast
  have "ep_search t k = ep_map t k" "ep_search t' k = ep_map t' k" for k
    using assms t'(2) by (simp_all add: ep_search_map ep_inv_def)
  then show ?thesis using t' None by (intro exI [of _ "Some (new_ep fresh lid gid ah)"] exI [of _ t']) simp
next
  case (Some e)
  then show ?thesis
    using assms ep_insert_present [OF assms, of lid] ep_search_map [of t lid] by (auto simp: ep_inv_def)
qed

theorem ep_insert_search_witness:
  "ep_inv example_db \<and> (\<exists>r t'. ep_insert (example_ep 0) None example_db 4 0 = Some (r, t') \<and> ep_inv t' \<and>
     ep_search t' 4 \<noteq> None \<and> ep_search t' 9 = Some (example_ep 9))"
proof -
  have s: "ep_search example_db 4 = None" "ep_search example_db 9 = Some (example_ep 9)"
    by (simp_all add: example_db_def example_ep_def)
  obtain r t' where "ep_insert (example_ep 0) None example_db 4 0 = Some (r, t')" "ep_inv t'"
    "\<forall>k. ep_search t' k =
       (if k = 4 \<and> ep_search example_db 4 = None then Some (new_ep (example_ep 0) 4 0 None) else ep_search example_db k)"
    using ep_insert_search [OF example_db_inv, of "example_ep 0" None 4 0] by blast
  then show ?thesis using s example_db_inv by auto
qed

text \<open>
  C24. \<^verbatim>\<open>ep_erase\<close> on a well-formed database never follows a null pointer, keeps the tree ordered and
  red-black, and removes exactly the endpoint with the given LID.
\<close>

theorem ep_erase_search:
  assumes "ep_inv t"
  shows "\<exists>t'. ep_erase t lid = Some t' \<and> ep_inv t' \<and>
    (\<forall>k. ep_search t' k = (if k = lid then None else ep_search t k))"
proof -
  obtain t' where t': "ep_erase t lid = Some t'" "ep_inv t'" "ep_map t' = (ep_map t)(lid := None)"
    using ep_erase_ok [OF assms] .
  have "ep_search t k = ep_map t k" "ep_search t' k = ep_map t' k" for k
    using assms t'(2) by (simp_all add: ep_search_map ep_inv_def)
  then show ?thesis using t' by simp
qed

theorem ep_erase_search_witness:
  "ep_inv example_db \<and> (\<exists>t'. ep_erase example_db 5 = Some t' \<and> ep_search t' 5 = None \<and>
     ep_search t' 9 = Some (example_ep 9))"
proof -
  have s: "ep_search example_db 9 = Some (example_ep 9)"
    by (simp add: example_db_def example_ep_def)
  obtain t' where "ep_erase example_db 5 = Some t'"
    "\<forall>k. ep_search t' k = (if k = 5 then None else ep_search example_db k)"
    using ep_erase_search [OF example_db_inv, of 5] by blast
  then show ?thesis using s example_db_inv by auto
qed

text \<open>
  C29. The loops of \<^verbatim>\<open>ep_dp_reset_wait_idx\<close> and \<^verbatim>\<open>ep_db_free\<close> visit every endpoint exactly once: the reset
  changes the wait index of each endpoint to 0 and nothing else, and the free loop passes the
  endpoints to \<^verbatim>\<open>free_ep\<close> in post-order, children before their parent, and then stops.
\<close>

theorem ep_db_visits_all:
  assumes "ep_inv t"
  shows "inorder (ep_dp_reset_wait_idx t) = map (\<lambda>ep. ep\<lparr>de_wait_for_idx := 0\<rparr>) (inorder t) \<and>
    ep_db_free t (length (inorder t) + n) = postorder t"
proof
  show "inorder (ep_dp_reset_wait_idx t) = map (\<lambda>ep. ep\<lparr>de_wait_for_idx := 0\<rparr>) (inorder t)"
    using assms by (intro reset_wait_idx_inorder) (simp add: ep_inv_def)
  have "length (postorder t) = length (inorder t)" by (induction t) auto
  then show "ep_db_free t (length (inorder t) + n) = postorder t"
    by (intro ep_db_free_postorder) simp
qed

theorem ep_db_visits_all_witness:
  "map de_wait_for_idx (inorder (ep_dp_reset_wait_idx example_db)) = [0, 0, 0] \<and>
   ep_db_free example_db 4 = [example_ep 3, example_ep 9, example_ep 5]"
  using ep_db_visits_all [OF example_db_inv, where n = 1] by (simp add: example_db_def eval_nat_numeral)

end
