(* ===== verification/RcPoll.thy ===== *)
theory RcPoll
  imports State
begin

text \<open>
  The completion handling of \<^verbatim>\<open>dare_ibv_rc.c\<close>: posting a send, emptying a completion queue, waiting
  for a majority or for one completion, the replication state machine driven by completions, and
  the state changes of the queue pairs. The model is that of a build without \<^verbatim>\<open>DEBUG\<close>.
\<close>

definition RC_ERROR :: int where "RC_ERROR = 1"
definition RC_SUCCESS :: int where "RC_SUCCESS = 0"
definition RC_INSUCCESS :: int where "RC_INSUCCESS = - 1"
definition WC_SUCCESS :: int where "WC_SUCCESS = 0"
definition WC_ERROR :: int where "WC_ERROR = 1"
definition WC_FAILURE :: int where "WC_FAILURE = 2"
definition WC_SOFTWARE_BUG :: int where "WC_SOFTWARE_BUG = 3"

lemmas rc_codes = RC_ERROR_def RC_SUCCESS_def RC_INSUCCESS_def
lemmas wc_codes = WC_SUCCESS_def WC_ERROR_def WC_FAILURE_def WC_SOFTWARE_BUG_def

subsection \<open>Work completions\<close>

definition handle_work_completion :: "wc \<Rightarrow> int" where
  "handle_work_completion c =
     (case wc_status c of
        IBV_WC_SUCCESS \<Rightarrow> WC_SUCCESS
      | IBV_WC_LOC_LEN_ERR \<Rightarrow> WC_SOFTWARE_BUG
      | IBV_WC_LOC_QP_OP_ERR \<Rightarrow> WC_SOFTWARE_BUG
      | IBV_WC_LOC_EEC_OP_ERR \<Rightarrow> WC_SOFTWARE_BUG
      | IBV_WC_LOC_PROT_ERR \<Rightarrow> WC_SOFTWARE_BUG
      | IBV_WC_MW_BIND_ERR \<Rightarrow> WC_SOFTWARE_BUG
      | IBV_WC_LOC_ACCESS_ERR \<Rightarrow> WC_SOFTWARE_BUG
      | IBV_WC_REM_ACCESS_ERR \<Rightarrow> WC_SOFTWARE_BUG
      | IBV_WC_RNR_RETRY_EXC_ERR \<Rightarrow> WC_SOFTWARE_BUG
      | IBV_WC_LOC_RDD_VIOL_ERR \<Rightarrow> WC_SOFTWARE_BUG
      | IBV_WC_REM_INV_RD_REQ_ERR \<Rightarrow> WC_SOFTWARE_BUG
      | IBV_WC_REM_ABORT_ERR \<Rightarrow> WC_SOFTWARE_BUG
      | IBV_WC_INV_EECN_ERR \<Rightarrow> WC_SOFTWARE_BUG
      | IBV_WC_INV_EEC_STATE_ERR \<Rightarrow> WC_SOFTWARE_BUG
      | IBV_WC_WR_FLUSH_ERR \<Rightarrow> WC_FAILURE
      | IBV_WC_BAD_RESP_ERR \<Rightarrow> WC_ERROR
      | IBV_WC_REM_INV_REQ_ERR \<Rightarrow> WC_ERROR
      | IBV_WC_REM_OP_ERR \<Rightarrow> WC_ERROR
      | IBV_WC_RETRY_EXC_ERR \<Rightarrow> WC_FAILURE
      | IBV_WC_FATAL_ERR \<Rightarrow> WC_ERROR
      | IBV_WC_RESP_TIMEOUT_ERR \<Rightarrow> WC_ERROR
      | IBV_WC_GENERAL_ERR \<Rightarrow> WC_ERROR)"

text \<open>The change of the server entry by a completion of the request it waits for.\<close>

definition lr_step :: "int \<Rightarrow> server_t \<Rightarrow> server_t" where
  "lr_step wc_rc server =
     (if wc_rc = WC_SUCCESS then
        if s_next_lr_step server = LR_UPDATE_LOG then
          if s_send_count server = 0 then server\<lparr>s_send_flag := 1\<rparr>
          else if s_send_count server = 1 then server\<lparr>s_next_lr_step := LR_UPDATE_END, s_send_flag := 1\<rparr>
          else if s_send_count server = 2 then server\<lparr>s_send_count := s_send_count server - 1\<rparr>
          else server
        else if s_next_lr_step server \<noteq> LR_UPDATE_END
        then server\<lparr>s_next_lr_step := s_next_lr_step server + 1, s_send_flag := 1\<rparr>
        else server\<lparr>s_next_lr_step := LR_UPDATE_LOG, s_send_flag := 1\<rparr>
      else
        if s_next_lr_step server = LR_UPDATE_LOG then
          if s_send_count server = 0 \<or> s_send_count server = 1 then server\<lparr>s_send_flag := 1\<rparr>
          else if s_send_count server = 2 then server\<lparr>s_send_count := 0\<rparr>
          else server
        else server\<lparr>s_send_flag := 1\<rparr>)"

definition handle_lr_work_completion :: "u64 \<Rightarrow> int \<Rightarrow> dare \<Rightarrow> dare" where
  "handle_lr_work_completion wrid wc_rc s =
     (let wrid = WRID_UNSET_WA (WRID_UNSET_TAG wrid);
          idx = unat (WRID_GET_CONN wrid)
      in if wrid = s_next_wr_id (d_server s idx) then upd_server idx (lr_step wc_rc) s else s)"

subsection \<open>Queue pairs\<close>

text \<open>\<^verbatim>\<open>ibv_modify_qp\<close> takes its return code from the script; it succeeds when the script is used up.\<close>

definition ibv_modify_qp :: "nat \<Rightarrow> nat \<Rightarrow> (ibv_qp \<Rightarrow> ibv_qp) \<Rightarrow> dare \<Rightarrow> int \<times> dare" where
  "ibv_modify_qp idx qp_id f s =
     (let rc = (case d_modify_rcs s of [] \<Rightarrow> 0 | r # _ \<Rightarrow> r);
          s = s\<lparr>d_modify_rcs := tl (d_modify_rcs s)\<rparr>
      in (rc, if rc = 0 then upd_qp idx qp_id (\<lambda>q. q\<lparr>q_qp := f (q_qp q)\<rparr>) s else s))"

definition rc_qp_reset :: "nat \<Rightarrow> nat \<Rightarrow> dare \<Rightarrow> int \<times> dare" where
  "rc_qp_reset idx qp_id s =
     (case ibv_modify_qp idx qp_id (\<lambda>q. q\<lparr>hw_state := IBV_QPS_RESET\<rparr>) s of
        (rc, s) \<Rightarrow> (if rc \<noteq> 0 then 1 else 0, s))"

definition rc_qp_reset_to_init :: "nat \<Rightarrow> nat \<Rightarrow> dare \<Rightarrow> int \<times> dare" where
  "rc_qp_reset_to_init idx qp_id s =
     (let s = upd_qp idx qp_id (\<lambda>q. q\<lparr>q_signaled_wr_id := 0, q_send_count := 0, q_state := RC_QP_ACTIVE\<rparr>) s
      in case ibv_modify_qp idx qp_id (\<lambda>q. q\<lparr>hw_state := IBV_QPS_INIT\<rparr>) s of
           (rc, s) \<Rightarrow> (if rc \<noteq> 0 then 1 else 0, s))"

definition rc_qp_init_to_rtr :: "nat \<Rightarrow> nat \<Rightarrow> dare \<Rightarrow> int \<times> dare" where
  "rc_qp_init_to_rtr idx qp_id s =
     (let psn = (if qp_id = LOG_QP then LOG_PSN else CTRL_PSN);
          qpn = q_qpn (d_qp s idx qp_id)
      in case ibv_modify_qp idx qp_id (\<lambda>q. q\<lparr>hw_state := IBV_QPS_RTR, hw_dest_qpn := qpn, hw_rq_psn := psn\<rparr>) s of
           (rc, s) \<Rightarrow> (if rc \<noteq> 0 then 1 else 0, s))"

definition rc_qp_rtr_to_rts :: "nat \<Rightarrow> nat \<Rightarrow> dare \<Rightarrow> int \<times> dare" where
  "rc_qp_rtr_to_rts idx qp_id s =
     (let psn = (if qp_id = LOG_QP then LOG_PSN else CTRL_PSN)
      in case ibv_modify_qp idx qp_id (\<lambda>q. q\<lparr>hw_state := IBV_QPS_RTS, hw_sq_psn := psn\<rparr>) s of
           (rc, s) \<Rightarrow> (if rc \<noteq> 0 then 1 else 0, s))"

text \<open>The chain of transitions to \<open>RTS\<close>, each step only if the one before succeeded.\<close>

definition qp_to_rts :: "nat \<Rightarrow> nat \<Rightarrow> dare \<Rightarrow> int \<times> dare" where
  "qp_to_rts idx qp_id s =
     (case rc_qp_reset_to_init idx qp_id s of (rc, s) \<Rightarrow>
        if rc \<noteq> 0 then (1, s)
        else case rc_qp_init_to_rtr idx qp_id s of (rc, s) \<Rightarrow>
          if rc \<noteq> 0 then (1, s)
          else case rc_qp_rtr_to_rts idx qp_id s of (rc, s) \<Rightarrow>
            if rc \<noteq> 0 then (1, s) else (0, s))"

definition rc_qp_restart :: "nat \<Rightarrow> nat \<Rightarrow> dare \<Rightarrow> int \<times> dare" where
  "rc_qp_restart idx qp_id s =
     (case rc_qp_reset idx qp_id s of (rc, s) \<Rightarrow> if rc \<noteq> 0 then (1, s) else qp_to_rts idx qp_id s)"

text \<open>
  \<^verbatim>\<open>rc_qp_reset_to_rts\<close> does not return a value when all four steps succeed: the argument
  \<open>garbage\<close> is what the caller then reads.
\<close>

definition rc_qp_reset_to_rts :: "int \<Rightarrow> nat \<Rightarrow> nat \<Rightarrow> dare \<Rightarrow> int \<times> dare" where
  "rc_qp_reset_to_rts garbage idx qp_id s =
     (case rc_qp_reset idx qp_id s of (rc, s) \<Rightarrow>
        if rc \<noteq> 0 then (1, s)
        else case qp_to_rts idx qp_id s of (rc, s) \<Rightarrow> if rc \<noteq> 0 then (1, s) else (garbage, s))"

subsection \<open>Emptying a completion queue\<close>

definition nic_write :: "poll \<Rightarrow> dare \<Rightarrow> dare" where
  "nic_write p s =
     (case p_nic p (d_ctrl s, d_log s, d_snapshot s) of
        (c, l, sn) \<Rightarrow> s\<lparr>d_ctrl := c, d_log := l, d_snapshot := sn\<rparr>)"

definition check_last_get_read :: "nat \<Rightarrow> u64 \<Rightarrow> dare \<Rightarrow> dare" where
  "check_last_get_read qp_id wrid s =
     (let conn = unat (WRID_GET_CONN wrid) in
      if qp_id = LOG_QP \<and> WRID_GET_SSN wrid \<ge> s_last_get_read_ssn (d_server s conn)
      then upd_server conn (\<lambda>v. v\<lparr>s_last_get_read_ssn := 0\<rparr>) s else s)"

text \<open>
  The check for the special signaled request: whether the queue pair may be restarted, whether the
  request was the signaled one, and the new state.
\<close>

definition check_signaled :: "nat \<Rightarrow> u64 \<Rightarrow> dare \<Rightarrow> bool \<times> bool \<times> dare" where
  "check_signaled qp_id wrid s =
     (let conn = unat (WRID_GET_CONN wrid);
          q = d_qp s conn qp_id
      in if q_signaled_wr_id q = 0 then (True, False, s)
         else if wrid = q_signaled_wr_id q
         then (True, True, upd_qp conn qp_id (\<lambda>q. q\<lparr>q_signaled_wr_id := WRID_UNSET_TAG (q_signaled_wr_id q),
                 q_state := (if q_state q = RC_QP_BLOCKED then RC_QP_ERROR else q_state q)\<rparr>) s)
         else (False, False, s))"

definition qp_failed :: "nat \<Rightarrow> nat \<Rightarrow> bool \<Rightarrow> dare \<Rightarrow> dare" where
  "qp_failed conn qp_id can_restart_qp s =
     (let s = (if can_restart_qp then upd_qp conn qp_id (\<lambda>q. q\<lparr>q_state := RC_QP_ERROR\<rparr>) s
               else if q_state (d_qp s conn qp_id) \<noteq> RC_QP_ERROR
               then upd_qp conn qp_id (\<lambda>q. q\<lparr>q_state := RC_QP_BLOCKED\<rparr>) s else s)
      in if qp_id = CTRL_QP then upd_server conn (\<lambda>v. v\<lparr>s_fail_count := s_fail_count v + 1\<rparr>) s else s)"

type_synonym sends = "nat \<Rightarrow> int"

text \<open>
  The body of the loop over the completions of one poll; \<^verbatim>\<open>handle_lr_work_completion\<close> takes the
  position of the completion as an 8-bit number.
\<close>

definition empty_cq_wc ::
    "nat \<Rightarrow> nat \<Rightarrow> wc list \<Rightarrow> nat \<Rightarrow> bool \<times> sends option \<times> dare \<Rightarrow> bool \<times> sends option \<times> dare" where
  "empty_cq_wc server_id qp_id wcs i st =
     (case st of (wait, posted_sends, s) \<Rightarrow>
        let wrid = wc_wr_id (wcs ! i);
            conn = unat (WRID_GET_CONN wrid);
            s = check_last_get_read qp_id wrid s
        in case check_signaled qp_id wrid s of (can_restart_qp, found, s) \<Rightarrow>
             let wait = (if found \<and> conn = server_id then False else wait);
                 rc = handle_work_completion (wcs ! i);
                 s = handle_lr_work_completion (wc_wr_id (wcs ! (i mod 256))) rc s
             in if rc = WC_SUCCESS then
                  (wait,
                   (if WRID_GET_SSN wrid = d_ssn s then map_option (\<lambda>p. p(conn := p conn - 1)) posted_sends
                    else posted_sends),
                   upd_server conn (\<lambda>v. v\<lparr>s_fail_count := 0\<rparr>) s)
                else if rc = WC_FAILURE then
                  (wait,
                   (if WRID_GET_SSN wrid = d_ssn s then map_option (\<lambda>p. p(conn := - 1)) posted_sends
                    else posted_sends),
                   qp_failed conn qp_id can_restart_qp s)
                else (wait, posted_sends, s))"

fun empty_cq_loop :: "poll list \<Rightarrow> nat \<Rightarrow> nat \<Rightarrow> bool \<Rightarrow> sends option \<Rightarrow> dare \<Rightarrow> sends option result" where
  "empty_cq_loop [] server_id qp_id wait_signaled_wr posted_sends s =
     (let s = s\<lparr>d_polls := []\<rparr> in if wait_signaled_wr then Hang s else Ret posted_sends s)"
| "empty_cq_loop (p # ps) server_id qp_id wait_signaled_wr posted_sends s =
     (let s = nic_write p (s\<lparr>d_polls := ps\<rparr>) in
      case p_wcs p of
        None \<Rightarrow> empty_cq_loop ps server_id qp_id wait_signaled_wr posted_sends s
      | Some wcs \<Rightarrow>
          if wcs = [] then
            if wait_signaled_wr then empty_cq_loop ps server_id qp_id wait_signaled_wr posted_sends s
            else Ret posted_sends s
          else
            case for_to (length wcs) (empty_cq_wc server_id qp_id wcs) (wait_signaled_wr, posted_sends, s) of
              (wait_signaled_wr, posted_sends, s) \<Rightarrow>
                empty_cq_loop ps server_id qp_id wait_signaled_wr posted_sends s)"

definition empty_completion_queue :: "nat \<Rightarrow> nat \<Rightarrow> bool \<Rightarrow> sends option \<Rightarrow> dare \<Rightarrow> sends option result" where
  "empty_completion_queue server_id qp_id wait_signaled_wr posted_sends s =
     empty_cq_loop (d_polls s) server_id qp_id wait_signaled_wr posted_sends s"

subsection \<open>Posting a send\<close>

text \<open>\<^verbatim>\<open>ibv_post_send\<close>: the return code comes from the script, and 0 when it is used up.\<close>

definition ibv_post_send :: "wr \<Rightarrow> dare \<Rightarrow> int \<times> dare" where
  "ibv_post_send w s =
     (let rc = (case d_post_rcs s of [] \<Rightarrow> 0 | r # _ \<Rightarrow> r);
          s = s\<lparr>d_post_rcs := tl (d_post_rcs s)\<rparr>
      in (rc, if rc = 0 then emit (Posted w) s else s))"

text \<open>
  The bookkeeping against an overflow of the send queue: the tag, the request to wait, and the new
  state of the queue pair, for a request with identifier \<open>wrid\<close>.
\<close>

definition send_queue_guard :: "u32 \<Rightarrow> u64 \<Rightarrow> rc_qp_t \<Rightarrow> u64 \<times> bool \<times> bool \<times> rc_qp_t" where
  "send_queue_guard max_send_wr wrid q =
     (let q = (if q_signaled_wr_id q \<noteq> 0 \<and> \<not> WRID_GET_TAG (q_signaled_wr_id q)
               then q\<lparr>q_signaled_wr_id := 0\<rparr> else q)
      in if q_send_count q = drop_bit 2 max_send_wr \<and> q_signaled_wr_id q = 0 then
           let wrid = WRID_SET_TAG wrid in (wrid, True, False, q\<lparr>q_signaled_wr_id := wrid, q_send_count := 0\<rparr>)
         else if q_send_count q = drop_bit 2 (3 * max_send_wr) then (wrid, False, q_signaled_wr_id q \<noteq> 0, q)
         else (wrid, False, False, q))"

definition post_send ::
    "nat \<Rightarrow> nat \<Rightarrow> lbuf \<Rightarrow> u64 \<Rightarrow> opcode \<Rightarrow> bool \<Rightarrow> rbuf \<Rightarrow> sends option \<Rightarrow> dare \<Rightarrow> (int \<times> sends option) result" where
  "post_send server_id qp_id buf len opcode signaled rm posted_sends s =
     bnd (if q_state (d_qp s server_id qp_id) = RC_QP_BLOCKED
          then empty_completion_queue server_id qp_id True None s else Ret None s)
       (\<lambda>_ s.
        let s = (if q_state (d_qp s server_id qp_id) = RC_QP_ERROR
                 then upd_qp server_id qp_id (\<lambda>q. q\<lparr>q_state := RC_QP_ACTIVE, q_send_count := 0\<rparr>)
                        (snd (rc_qp_restart server_id qp_id s))
                 else s);
            s = upd_qp server_id qp_id (\<lambda>q. q\<lparr>q_send_count := q_send_count q + 1\<rparr>) s;
            wrid = WRID_SET_CONN (WRID_SET_SSN 0 (d_ssn s)) (of_nat server_id);
            wrid = (if d_wa_flag s then WRID_SET_WA wrid else wrid);
            s = s\<lparr>d_wa_flag := False\<rparr>
        in case send_queue_guard (d_rc_max_send_wr s) wrid (d_qp s server_id qp_id) of
             (wrid, tagged, wait_signaled_wr, q) \<Rightarrow>
               let s = upd_qp server_id qp_id (\<lambda>_. q) s;
                   w = \<lparr>wr_id = wrid, wr_server = server_id, wr_qp = qp_id, wr_opcode = opcode,
                        wr_local = buf, wr_len = len, wr_remote = rm, wr_signaled = (signaled \<or> tagged)\<rparr>
               in case ibv_post_send w s of (rc, s) \<Rightarrow>
                    if rc \<noteq> 0 then Ret (1, posted_sends) s
                    else bnd (empty_completion_queue server_id qp_id wait_signaled_wr posted_sends s)
                           (\<lambda>posted_sends s. Ret (0, posted_sends) s))"

subsection \<open>Waiting for completions\<close>

text \<open>The number of sends posted, over the servers of the group, as 8-bit sums.\<close>

definition posted_send_count :: "u8 \<Rightarrow> sends \<Rightarrow> u8" where
  "posted_send_count sz posted_sends =
     for_to (unat sz) (\<lambda>i n. if posted_sends i < 0 then n else n + of_int (posted_sends i)) 0"

definition success_count :: "u8 \<Rightarrow> sends \<Rightarrow> u8" where
  "success_count sz posted_sends = for_to (unat sz) (\<lambda>i n. if posted_sends i = 0 then n + 1 else n) 0"

text \<open>
  The body of the loop over the completions in \<^verbatim>\<open>wait_for_majority\<close> and in \<^verbatim>\<open>wait_for_one\<close>, up to the
  treatment of a success, which the argument \<open>on_success\<close> gives: both look at the status of the
  first completion of the poll, not at that of the current one.
\<close>

definition wait_wc ::
    "(u64 \<Rightarrow> u64 \<Rightarrow> sends \<times> u8 \<Rightarrow> sends \<times> u8) \<Rightarrow> nat \<Rightarrow> wc list \<Rightarrow> nat \<Rightarrow>
     sends \<times> u8 \<times> u8 \<times> dare \<Rightarrow> sends \<times> u8 \<times> u8 \<times> dare" where
  "wait_wc on_success qp_id wcs i st =
     (case st of (posted_sends, posted_count, succ_count, s) \<Rightarrow>
        let wrid = wc_wr_id (wcs ! i);
            conn = unat (WRID_GET_CONN wrid);
            s = check_last_get_read qp_id wrid s
        in case check_signaled qp_id wrid s of (can_restart_qp, found, s) \<Rightarrow>
             let posted_count = (if WRID_GET_SSN wrid = d_ssn s then posted_count - 1 else posted_count)
             in if \<not> ep_rc_connected (d_ep s conn) then (posted_sends, posted_count, succ_count, s)
                else
                  let rc = handle_work_completion (wcs ! 0);
                      s = handle_lr_work_completion wrid rc s
                  in if rc = WC_SUCCESS then
                       case on_success (d_ssn s) wrid (posted_sends, succ_count) of (posted_sends, succ_count) \<Rightarrow>
                         (posted_sends, posted_count, succ_count, upd_server conn (\<lambda>v. v\<lparr>s_fail_count := 0\<rparr>) s)
                     else if rc = WC_FAILURE then
                       (posted_sends, posted_count, succ_count, qp_failed conn qp_id can_restart_qp s)
                     else (posted_sends, posted_count, succ_count, s))"

definition majority_success :: "u8 \<Rightarrow> u64 \<Rightarrow> u64 \<Rightarrow> sends \<times> u8 \<Rightarrow> sends \<times> u8" where
  "majority_success sz cur_ssn wrid st =
     (case st of (posted_sends, succ_count) \<Rightarrow>
        let conn = unat (WRID_GET_CONN wrid) in
        if cur_ssn > WRID_GET_SSN wrid then (posted_sends, succ_count)
        else
          let posted_sends = posted_sends(conn := posted_sends conn - 1) in
          if posted_sends conn \<noteq> 0 then (posted_sends, succ_count)
          else if conn < unat sz then (posted_sends, succ_count + 1) else (posted_sends, succ_count))"

definition one_success :: "u64 \<Rightarrow> u64 \<Rightarrow> sends \<times> u8 \<Rightarrow> sends \<times> u8" where
  "one_success cur_ssn wrid st =
     (case st of (posted_sends, succ_count) \<Rightarrow>
        let conn = unat (WRID_GET_CONN wrid) in
        if WRID_GET_SSN wrid = cur_ssn then (posted_sends(conn := posted_sends conn - 1), succ_count + 1)
        else (posted_sends, succ_count))"

text \<open>
  The polling loop: it runs while \<open>go_on\<close> holds of the two counts. The number of completions of a
  poll is read as an 8-bit number. \<open>None\<close> is a failed poll.
\<close>

fun wait_loop ::
    "poll list \<Rightarrow> (u8 \<Rightarrow> u8 \<Rightarrow> bool) \<Rightarrow> (u64 \<Rightarrow> u64 \<Rightarrow> sends \<times> u8 \<Rightarrow> sends \<times> u8) \<Rightarrow> nat \<Rightarrow> sends \<Rightarrow> u8 \<Rightarrow> u8 \<Rightarrow>
     dare \<Rightarrow> (sends \<times> u8 \<times> u8) option result" where
  "wait_loop polls go_on on_success qp_id posted_sends posted_count succ_count s =
     (if \<not> go_on posted_count succ_count then Ret (Some (posted_sends, posted_count, succ_count)) s
      else case polls of
        [] \<Rightarrow> Hang s
      | p # ps \<Rightarrow>
          let s = nic_write p (s\<lparr>d_polls := ps\<rparr>) in
          case p_wcs p of
            None \<Rightarrow> Ret None s
          | Some wcs \<Rightarrow>
              case for_to (length wcs mod 256) (wait_wc on_success qp_id wcs)
                     (posted_sends, posted_count, succ_count, s) of
                (posted_sends, posted_count, succ_count, s) \<Rightarrow>
                  wait_loop ps go_on on_success qp_id posted_sends posted_count succ_count s)"

text \<open>
  The loop over the two group sizes: it ends after the first one in a stable configuration, and the
  answer is that of the last majority looked at.
\<close>

fun wait_majorities :: "u8 list \<Rightarrow> nat \<Rightarrow> sends \<Rightarrow> u8 \<Rightarrow> dare \<Rightarrow> (int \<times> sends) result" where
  "wait_majorities [] qp_id posted_sends posted_count s = Ret (RC_INSUCCESS, posted_sends) s"
| "wait_majorities (sz # szs) qp_id posted_sends posted_count s =
     bnd (wait_loop (d_polls s) (\<lambda>posted succ. unat succ \<le> unat sz div 2 \<and> posted \<noteq> 0) (majority_success sz)
            qp_id posted_sends posted_count (success_count sz posted_sends) s)
       (\<lambda>r s. case r of
          None \<Rightarrow> Ret (RC_ERROR, posted_sends) s
        | Some (posted_sends, posted_count, succ_count) \<Rightarrow>
            if cid_state (d_cid s) = CID_STABLE \<or> szs = [] then
              Ret (if unat succ_count > unat sz div 2 then RC_SUCCESS else RC_INSUCCESS, posted_sends) s
            else wait_majorities szs qp_id posted_sends posted_count s)"

definition wait_for_majority :: "sends \<Rightarrow> nat \<Rightarrow> dare \<Rightarrow> (int \<times> sends) result" where
  "wait_for_majority posted_sends qp_id s =
     wait_majorities [cid_size0 (d_cid s), cid_size1 (d_cid s)] qp_id posted_sends
       (posted_send_count (get_group_size (d_cid s)) posted_sends) s"

definition wait_for_one :: "sends \<Rightarrow> nat \<Rightarrow> dare \<Rightarrow> (int \<times> sends) result" where
  "wait_for_one posted_sends qp_id s =
     (let sz = get_group_size (d_cid s) in
      bnd (wait_loop (d_polls s) (\<lambda>posted succ. succ = 0 \<and> posted \<noteq> 0) one_success qp_id posted_sends
             (posted_send_count sz posted_sends) (success_count sz posted_sends) s)
        (\<lambda>r s. case r of
           None \<Rightarrow> Ret (RC_ERROR, posted_sends) s
         | Some (posted_sends, posted_count, succ_count) \<Rightarrow>
             Ret (if succ_count \<noteq> 0 then RC_SUCCESS else RC_INSUCCESS, posted_sends) s))"

end
