(* ===== verification/RcOps.thy ===== *)
theory RcOps
  imports RcPoll
begin

text \<open>
  The RDMA operations of \<^verbatim>\<open>dare_ibv_rc.c\<close> for start-up, heart-beats, elections and log access. Each
  posts its work requests server by server; a server is skipped when it is the local one, switched
  off in the configuration or not connected. A remote address is the region of the server plus an
  offset of 32 bits; the log has less than \<open>2 ^ 32\<close> bytes, so the offset of an entry is not cut.
\<close>

definition server_on :: "dare \<Rightarrow> nat \<Rightarrow> bool" where
  "server_on s i \<longleftrightarrow> CID_IS_SERVER_ON (d_cid s) i"

definition connected :: "dare \<Rightarrow> nat \<Rightarrow> bool" where
  "connected s i \<longleftrightarrow> ep_rc_connected (d_ep s i)"

definition group :: "dare \<Rightarrow> nat list" where
  "group s = [0..<unat (get_group_size (d_cid s))]"

definition extended_group :: "dare \<Rightarrow> nat list" where
  "extended_group s = [0..<unat (get_extended_group_size (d_cid s))]"

definition inc_ssn :: "dare \<Rightarrow> dare" where
  "inc_ssn s = s\<lparr>d_ssn := d_ssn s + 1\<rparr>"

text \<open>
  A signaled send to each server of the group that is on and connected, recorded in
  \<^verbatim>\<open>posted_sends\<close>, where \<open>own\<close> is the entry of the local server; \<open>Inl\<close> is the error return.
\<close>

definition post_all_signaled ::
    "nat \<Rightarrow> int \<Rightarrow> (nat \<Rightarrow> lbuf) \<Rightarrow> u64 \<Rightarrow> opcode \<Rightarrow> rbuf \<Rightarrow> dare \<Rightarrow> (int + sends) result" where
  "post_all_signaled qp_id own buf len opcode rm s =
     loop (group s)
       (\<lambda>i posted_sends s.
          if i = d_idx s then Ret (Inr (posted_sends(i := own))) s
          else if \<not> server_on s i \<or> \<not> connected s i then Ret (Inr (posted_sends(i := - 1))) s
          else
            bnd (post_send i qp_id (buf i) len opcode True rm (Some (posted_sends(i := 1))) s)
              (\<lambda>(rc, p) s. if rc \<noteq> 0 then Ret (Inl RC_ERROR) s
                           else Ret (Inr (case p of Some p \<Rightarrow> p | None \<Rightarrow> posted_sends)) s))
       (\<lambda>_. 0) s"

text \<open>An unsignaled write to each server of the group that is on and connected.\<close>

definition write_all :: "lbuf \<Rightarrow> u64 \<Rightarrow> rbuf \<Rightarrow> dare \<Rightarrow> int result" where
  "write_all buf len rm s =
     bnd (loop (group s)
            (\<lambda>i _ s.
               if i = d_idx s \<or> \<not> server_on s i \<or> \<not> connected s i then Ret (Inr ()) s
               else bnd (post_send i CTRL_QP buf len IBV_WR_RDMA_WRITE False rm None s)
                      (\<lambda>(rc, _) s. if rc \<noteq> 0 then Ret (Inl RC_ERROR) s else Ret (Inr ()) s))
            () s)
       (\<lambda>r s. case r of Inl rc \<Rightarrow> Ret rc s | Inr _ \<Rightarrow> Ret 0 s)"

subsection \<open>Starting a server\<close>

definition rc_get_replicated_vote :: "dare \<Rightarrow> int result" where
  "rc_get_replicated_vote s =
     bnd (post_all_signaled CTRL_QP (- 1) L_rsid 8 IBV_WR_RDMA_READ (R_vote_sid (d_idx s)) (inc_ssn s))
       (\<lambda>r s. case r of Inl rc \<Rightarrow> Ret rc s
        | Inr posted_sends \<Rightarrow>
            bnd (wait_for_majority posted_sends CTRL_QP s)
              (\<lambda>(rc, posted_sends) s.
                 if rc = RC_ERROR then Ret 1 s
                 else if rc \<noteq> RC_SUCCESS then Ret (- 1) s
                 else Ret 0 (fold (\<lambda>i s.
                        if posted_sends i = 0 then
                          let s = (if d_sid s < c_rsid (d_ctrl s) i
                                   then upd_ctrl (\<lambda>c. c\<lparr>c_sid := c_rsid c i\<rparr>) s else s)
                          in upd_ctrl (\<lambda>c. c\<lparr>c_rsid := (c_rsid c)(i := 0)\<rparr>) s
                        else s) (group s) s)))"

definition rc_send_sm_request :: "dare \<Rightarrow> int result" where
  "rc_send_sm_request s =
     (let idx = d_idx s;
          s = upd_ctrl (\<lambda>c. c\<lparr>c_sm_req := (c_sm_req c)(idx := 1)\<rparr>) s
      in write_all (L_sm_req idx) 8 (R_sm_req idx) (inc_ssn s))"

text \<open>
  Where a snapshot is: in the preregistered buffer, in a buffer allocated for it, or behind a
  pointer that was never set.
\<close>

datatype snapshot_ptr = Prereg | Allocated u64 | Uninitialised

definition posix_memalign :: "dare \<Rightarrow> u64 option \<times> dare" where
  "posix_memalign s =
     (case d_allocs s of [] \<Rightarrow> (None, s) | a # as \<Rightarrow> (a, s\<lparr>d_allocs := as\<rparr>))"

definition ibv_reg_mr :: "dare \<Rightarrow> u32 option \<times> dare" where
  "ibv_reg_mr s =
     (case d_reg_mrs s of [] \<Rightarrow> (None, s) | k # ks \<Rightarrow> (k, s\<lparr>d_reg_mrs := ks\<rparr>))"

text \<open>
  Registering the snapshot: a region left from before is deregistered, which only logs an error, and
  the new one or null takes its place.
\<close>

definition register_snapshot :: "dare \<Rightarrow> dare" where
  "register_snapshot s = (case ibv_reg_mr s of (mr, s) \<Rightarrow> s\<lparr>d_snapshot_mr := mr\<rparr>)"

definition rc_send_sm_reply :: "nat \<Rightarrow> snapshot_ptr \<Rightarrow> bool \<Rightarrow> dare \<Rightarrow> int result" where
  "rc_send_sm_reply target snapshot reg_mem s =
     (if snapshot = Uninitialised then Fault s
      else
        let s = (if reg_mem then register_snapshot s else s) in
        if reg_mem \<and> d_snapshot_mr s = None then Ret 1 s
        else
          let (addr, lcl_mr) = (case snapshot of Allocated a \<Rightarrow> (a, d_snapshot_mr s)
                                | _ \<Rightarrow> (fst (d_prereg_mr s), Some (snd (d_prereg_mr s))))
          in case lcl_mr of
               None \<Rightarrow> Fault s
             | Some key \<Rightarrow>
                 let idx = d_idx s;
                     reply = \<lparr>sr_sid = d_sid s, sr_raddr = addr, sr_rkey = key,
                              sr_len = sizeof_snapshot_t + sn_len (d_snapshot s)\<rparr>;
                     s = upd_ctrl (\<lambda>c. c\<lparr>c_sm_rep := (c_sm_rep c)(idx := reply)\<rparr>) s
                 in if \<not> connected s target then Ret 0 s
                    else
                      bnd (post_send target CTRL_QP (L_sm_rep idx) 24 IBV_WR_RDMA_WRITE False (R_sm_rep idx) None
                             (inc_ssn s))
                        (\<lambda>(rc, _) s. if rc \<noteq> 0 then Ret RC_ERROR s else Ret 0 s))"

text \<open>
  The snapshot is read into the buffer by the network card; then its records are loaded, and the
  apply offset is the one of the snapshot. The buffer is the preregistered one or a new one, which
  may fail to be allocated or registered (\<open>Inl\<close>). The pointer \<^verbatim>\<open>data.snapshot\<close> is null throughout: no code
  sets it.
\<close>

definition recover_sm_buffer :: "sm_rep_t \<Rightarrow> dare \<Rightarrow> bool \<times> dare" where
  "recover_sm_buffer rep s =
     (if sr_len rep \<le> PREREG_SNAPSHOT_SIZE then (True, s)
      else case posix_memalign s of
             (None, s) \<Rightarrow> (False, s)
           | (Some _, s) \<Rightarrow> let s = register_snapshot s in (d_snapshot_mr s \<noteq> None, s))"

definition apply_snapshot :: "nat \<Rightarrow> dare \<Rightarrow> int result" where
  "apply_snapshot target s =
     (case stablestorage_load_records (sn_data (d_snapshot s)) (unat (sn_len (d_snapshot s))) (d_proxy s) of
        None \<Rightarrow> Hang s
      | Some proxy \<Rightarrow>
          let offset = det_offset (sn_last_entry (d_snapshot s));
              s = upd_log (\<lambda>l. l\<lparr>l_apply := offset\<rparr>) (s\<lparr>d_proxy := proxy\<rparr>)
          in Ret 0 (if sr_len (c_sm_rep (d_ctrl s) target) > PREREG_SNAPSHOT_SIZE
                    then s\<lparr>d_snapshot_mr := None\<rparr> else s))"

definition rc_recover_sm :: "nat \<Rightarrow> dare \<Rightarrow> int result" where
  "rc_recover_sm target s =
     (let rep = c_sm_rep (d_ctrl s) target in
      case recover_sm_buffer rep s of (ok, s) \<Rightarrow>
        if \<not> ok then Ret 1 s
        else
          bnd (post_send target CTRL_QP L_snapshot (ucast (sr_len rep)) IBV_WR_RDMA_READ True
                 (R_addr (sr_raddr rep) (sr_rkey rep)) (Some ((\<lambda>_. - 1)(target := 1))) (inc_ssn s))
            (\<lambda>(rc, p) s.
               if rc \<noteq> 0 then Ret RC_ERROR s
               else
                 bnd (wait_for_one (case p of Some p \<Rightarrow> p | None \<Rightarrow> \<lambda>_. - 1) CTRL_QP s)
                   (\<lambda>(rc, _) s.
                      if rc = RC_ERROR then Ret 1 s
                      else if rc \<noteq> RC_SUCCESS then Ret (- 1) s
                      else apply_snapshot target s)))"

text \<open>The index of the first server whose read succeeded, or the size of the group.\<close>

fun first_done :: "sends \<Rightarrow> nat list \<Rightarrow> nat \<Rightarrow> nat" where
  "first_done posted_sends [] sz = sz"
| "first_done posted_sends (i # is) sz = (if posted_sends i = 0 then i else first_done posted_sends is sz)"

definition recover_offsets :: "nat \<Rightarrow> dare \<Rightarrow> dare" where
  "recover_offsets target s =
     (let rmt = c_log_offsets (d_ctrl s) target;
          s = upd_log (\<lambda>l. l\<lparr>l_end := lo_end rmt\<rparr>) s;
          rmt = (if lo_end rmt > 0 \<and> lo_end rmt < l_head (d_log s) then rmt\<lparr>lo_end := 0\<rparr> else rmt);
          rmt = (if log_is_offset_larger (d_log s) (lo_commit rmt) (lo_end rmt)
                 then rmt\<lparr>lo_commit := lo_end rmt\<rparr> else rmt);
          s = upd_ctrl (\<lambda>c. c\<lparr>c_log_offsets := (c_log_offsets c)(target := rmt)\<rparr>) s
      in upd_log (\<lambda>l. l\<lparr>l_end := lo_end rmt, l_commit := lo_commit rmt\<rparr>) s)"

definition rc_recover_log :: "dare \<Rightarrow> int result" where
  "rc_recover_log s =
     bnd (post_all_signaled CTRL_QP (- 1) L_log_offsets 16 IBV_WR_RDMA_READ R_commit_end (inc_ssn s))
       (\<lambda>r s. case r of Inl rc \<Rightarrow> Ret rc s
        | Inr posted_sends \<Rightarrow>
            bnd (wait_for_one posted_sends CTRL_QP s)
              (\<lambda>(rc, posted_sends) s.
                 if rc = RC_ERROR then Ret 1 s
                 else if rc \<noteq> RC_SUCCESS then Ret (- 1) s
                 else
                   let target = first_done posted_sends (group s) (length (group s))
                   in if lo_end (c_log_offsets (d_ctrl s) target) = l_len (d_log s) then Ret 0 s
                      else
                        let s = recover_offsets target s;
                            head = l_head (d_log s);
                            len = ucast (ucast (log_offset_end_distance (d_log s) head) :: u32)
                        in bnd (post_send target CTRL_QP (L_entries head) len IBV_WR_RDMA_READ True (R_entries head)
                                  (Some ((\<lambda>_. - 1)(target := 1))) (inc_ssn s))
                             (\<lambda>(rc, p) s.
                                if rc \<noteq> 0 then Ret RC_ERROR s
                                else
                                  bnd (wait_for_one (case p of Some p \<Rightarrow> p | None \<Rightarrow> \<lambda>_. - 1) CTRL_QP s)
                                    (\<lambda>(rc, _) s.
                                       if rc = RC_ERROR then Ret 1 s
                                       else if rc \<noteq> RC_SUCCESS then Ret (- 1) s
                                       else Ret 0 s))))"

subsection \<open>Heart-beats\<close>

definition rc_send_hb :: "dare \<Rightarrow> int result" where
  "rc_send_hb s = write_all L_sid 8 (R_hb (d_idx s)) (inc_ssn s)"

definition rc_send_hb_reply :: "nat \<Rightarrow> dare \<Rightarrow> int result" where
  "rc_send_hb_reply idx s =
     (if idx \<ge> unat (get_group_size (d_cid s)) then Ret 1 s
      else
        let s = inc_ssn s in
        if \<not> server_on s idx then Ret 0 s
        else if \<not> connected s idx then Ret 0 s
        else bnd (post_send idx CTRL_QP L_sid 8 IBV_WR_RDMA_WRITE False (R_hb (d_idx s)) None s)
               (\<lambda>(rc, _) s. if rc \<noteq> 0 then Ret 1 s else Ret 0 s))"

subsection \<open>Leader election\<close>

text \<open>
  The position of the last log entry in a vote request; a log whose walk does not end hangs, and a
  log without a last entry (end at the head) goes through a null pointer.
\<close>

definition rc_send_vote_request :: "dare \<Rightarrow> int result" where
  "rc_send_vote_request s =
     (let idx = d_idx s; l = d_log s;
          send = (\<lambda>index trm s.
            let request = \<lparr>vr_sid = d_sid s, vr_index = index, vr_term = trm, vr_cid = d_cid s\<rparr>;
                s = upd_ctrl (\<lambda>c. c\<lparr>c_vote_req := (c_vote_req c)(idx := request)\<rparr>) s
            in write_all (L_vote_req idx) 40 (R_vote_req idx) (inc_ssn s))
      in if is_log_empty l then send 0 0 s
         else case log_get_tail l of
                None \<Rightarrow> Hang s
              | Some tail \<Rightarrow>
                  case fst (log_get_entry l tail) of
                    None \<Rightarrow> Fault s
                  | Some e \<Rightarrow> send (entry_idx (l_mem l) (unat e)) (entry_term (l_mem l) (unat e)) s)"

definition rc_replicate_vote :: "dare \<Rightarrow> int result" where
  "rc_replicate_vote s =
     (let idx = d_idx s;
          s = upd_ctrl (\<lambda>c. c\<lparr>c_prv_data := (c_prv_data c)(idx := c_sid c)\<rparr>) s
      in bnd (post_all_signaled CTRL_QP 0 (\<lambda>_. L_vote_sid idx) 8 IBV_WR_RDMA_WRITE (R_vote_sid idx) (inc_ssn s))
           (\<lambda>r s. case r of Inl rc \<Rightarrow> Ret 1 s
            | Inr posted_sends \<Rightarrow>
                bnd (wait_for_majority posted_sends CTRL_QP s)
                  (\<lambda>(rc, _) s. if rc = RC_ERROR then Ret 1 s else Ret 0 s)))"

definition rc_send_vote_ack :: "dare \<Rightarrow> int result" where
  "rc_send_vote_ack s =
     (let candidate = unat (SID_GET_IDX (d_sid s)); idx = d_idx s in
      if \<not> server_on s candidate then Ret 0 s
      else if \<not> connected s candidate then Ret 0 s
      else
        bnd (post_send candidate CTRL_QP L_commit 8 IBV_WR_RDMA_WRITE True (R_vote_ack idx)
               (Some ((\<lambda>_. - 1)(candidate := 1))) (inc_ssn s))
          (\<lambda>(rc, p) s.
             if rc \<noteq> 0 then Ret 1 s
             else
               bnd (wait_for_one (case p of Some p \<Rightarrow> p | None \<Rightarrow> \<lambda>_. - 1) CTRL_QP s)
                 (\<lambda>(rc, _) s.
                    if rc = RC_ERROR then Ret 1 s
                    else if rc \<noteq> RC_SUCCESS then Ret (- 1) s
                    else Ret 0 s)))"

subsection \<open>Log access\<close>

definition rc_disconnect_server :: "nat \<Rightarrow> dare \<Rightarrow> int \<times> dare" where
  "rc_disconnect_server idx s =
     (if \<not> connected s idx then (0, s)
      else
        let s = upd_ep idx (\<lambda>e. e\<lparr>ep_ud := (ep_ud e)\<lparr>ud_lid := 0, ud_ah := None\<rparr>, ep_rc_connected := False\<rparr>) s
        in case rc_qp_reset idx LOG_QP s of (rc, s) \<Rightarrow>
             if rc \<noteq> 0 then (1, s)
             else case rc_qp_reset idx CTRL_QP s of (rc, s) \<Rightarrow> if rc \<noteq> 0 then (1, s) else (0, s))"

definition rc_connect_server :: "nat \<Rightarrow> nat \<Rightarrow> dare \<Rightarrow> int \<times> dare" where
  "rc_connect_server idx qp_id s =
     (if hw_state (q_qp (d_qp s idx qp_id)) \<noteq> IBV_QPS_RESET then
        case rc_qp_reset idx qp_id s of (rc, s) \<Rightarrow> if rc \<noteq> 0 then (1, s) else qp_to_rts idx qp_id s
      else qp_to_rts idx qp_id s)"

text \<open>Loops over the extended group that stop at the first error.\<close>

fun each_server :: "nat list \<Rightarrow> (nat \<Rightarrow> dare \<Rightarrow> int \<times> dare) \<Rightarrow> dare \<Rightarrow> int \<times> dare" where
  "each_server [] f s = (0, s)"
| "each_server (i # is) f s = (case f i s of (rc, s) \<Rightarrow> if rc \<noteq> 0 then (1, s) else each_server is f s)"

definition rc_revoke_log_access :: "dare \<Rightarrow> int \<times> dare" where
  "rc_revoke_log_access s =
     each_server (extended_group s)
       (\<lambda>i s.
          if i = d_idx s then (0, s)
          else if \<not> server_on s i then (0, s)
          else if \<not> connected s i then (0, s)
          else if \<not> ep_log_access (d_ep s i) then (0, s)
          else case rc_qp_reset i LOG_QP s of (rc, s) \<Rightarrow>
                 if rc \<noteq> 0 then (1, s) else (0, upd_ep i (\<lambda>e. e\<lparr>ep_log_access := False\<rparr>) s)) s"

text \<open>Granting access to one server; \<open>garbage\<close> as for \<open>rc_qp_reset_to_rts\<close>.\<close>

definition grant_log_access :: "int \<Rightarrow> nat \<Rightarrow> dare \<Rightarrow> int \<times> dare" where
  "grant_log_access garbage i s =
     (case rc_qp_reset_to_rts garbage i LOG_QP s of (rc, s) \<Rightarrow>
        if rc \<noteq> 0 then (1, s) else (0, upd_ep i (\<lambda>e. e\<lparr>ep_log_access := True\<rparr>) s))"

definition rc_restore_log_access :: "int \<Rightarrow> dare \<Rightarrow> int \<times> dare" where
  "rc_restore_log_access garbage s =
     (let leader_idx = unat (SID_GET_IDX (d_sid s)) in
      if leader_idx \<noteq> d_idx s then
        if \<not> server_on s leader_idx then (1, s)
        else if \<not> connected s leader_idx then (1, s)
        else if ep_log_access (d_ep s leader_idx) then (0, s)
        else grant_log_access garbage leader_idx s
      else if SID_GET_L (d_sid s) then
        each_server (extended_group s)
          (\<lambda>i s.
             if i = d_idx s then (0, s)
             else if \<not> server_on s i then (0, s)
             else if \<not> connected s i then (0, s)
             else if ep_log_access (d_ep s i) then (0, s)
             else grant_log_access garbage i s) s
      else (0, s))"

end
