(* ===== verification/RcRep.thy ===== *)
theory RcRep
  imports RcOps
begin

text \<open>
  Log replication by the leader (\<^verbatim>\<open>dare_ibv_rc.c\<close>): the adjustment of the remote logs, the update of
  the remote logs with the rule that advances the commit offset, the loop that waits for a commit,
  and the reading of the remote apply offsets that log pruning needs.
\<close>

definition suspected :: "dare \<Rightarrow> nat \<Rightarrow> bool" where
  "suspected s i \<longleftrightarrow> s_fail_count (d_server s i) \<ge> PERMANENT_FAILURE"

definition no_vote_ack :: "dare \<Rightarrow> nat \<Rightarrow> bool" where
  "no_vote_ack s i \<longleftrightarrow> l_len (d_log s) = c_vote_ack (d_ctrl s) i"

definition set_commit_of :: "nat \<Rightarrow> u64 \<Rightarrow> dare \<Rightarrow> dare" where
  "set_commit_of i x =
     upd_ctrl (\<lambda>c. c\<lparr>c_log_offsets := (c_log_offsets c)(i := (c_log_offsets c i)\<lparr>lo_commit := x\<rparr>)\<rparr>)"

definition set_end_of :: "nat \<Rightarrow> u64 \<Rightarrow> dare \<Rightarrow> dare" where
  "set_end_of i x =
     upd_ctrl (\<lambda>c. c\<lparr>c_log_offsets := (c_log_offsets c)(i := (c_log_offsets c i)\<lparr>lo_end := x\<rparr>)\<rparr>)"

definition set_lr_step :: "nat \<Rightarrow> u8 \<Rightarrow> dare \<Rightarrow> dare" where
  "set_lr_step i x = upd_server i (\<lambda>v. v\<lparr>s_next_lr_step := x\<rparr>)"

definition raise_commit :: "u64 \<Rightarrow> dare \<Rightarrow> dare" where
  "raise_commit x s =
     (if log_is_offset_larger (d_log s) x (l_commit (d_log s)) then upd_log (\<lambda>l. l\<lparr>l_commit := x\<rparr>) s else s)"

text \<open>No further send to the server until the completion of the request about to be posted.\<close>

definition expect_completion :: "nat \<Rightarrow> dare \<Rightarrow> dare" where
  "expect_completion i s =
     upd_server i (\<lambda>v. v\<lparr>s_next_wr_id := WRID_SET_CONN (WRID_SET_SSN (s_next_wr_id v) (d_ssn s)) (of_nat i),
                        s_send_flag := 0\<rparr>) s"

subsection \<open>Log adjustment\<close>

text \<open>The request of an adjustment step, \<open>None\<close> when the step posts nothing.\<close>

definition adjust_nce_len :: "nat \<Rightarrow> u64 \<Rightarrow> dare \<Rightarrow> (lbuf \<times> u64 \<times> opcode \<times> rbuf) option \<times> dare" where
  "adjust_nce_len i remote_commit s = (Some (L_nc_len i, 8, IBV_WR_RDMA_READ, R_nc_len i), raise_commit remote_commit s)"

definition adjust_step :: "nat \<Rightarrow> u64 \<Rightarrow> dare \<Rightarrow> (lbuf \<times> u64 \<times> opcode \<times> rbuf) option \<times> dare" where
  "adjust_step i remote_commit s =
     (let step = s_next_lr_step (d_server s i); nc_buf = l_nc_buf (d_log s) i in
      if step = LR_GET_WRITE then
        adjust_nce_len i remote_commit (set_lr_step i LR_GET_NCE_LEN (set_commit_of i remote_commit s))
      else if step = LR_GET_NCE_LEN then adjust_nce_len i remote_commit s
      else if step = LR_GET_NCE then
        if nc_len nc_buf = 0
        then (None, set_lr_step i LR_UPDATE_LOG (set_end_of i (lo_commit (c_log_offsets (d_ctrl s) i)) s))
        else (Some (L_nc_entries i, ucast (ucast (nc_len nc_buf * 24) :: u32), IBV_WR_RDMA_READ, R_nc_entries i), s)
      else if step = LR_SET_END then
        (Some (L_end i, 8, IBV_WR_RDMA_WRITE, R_end),
         set_end_of i (log_find_remote_end_offset (d_log s) nc_buf (d_uninit_offset s)) s)
      else (None, s))"

definition log_adjustment :: "dare \<Rightarrow> int result" where
  "log_adjustment s =
     bnd (loop (extended_group s)
            (\<lambda>i init s.
               if i = d_idx s \<or> \<not> server_on s i then Ret (Inr init) s
               else if suspected s i then Ret (Inr init) s
               else if s_send_flag (d_server s i) = 0 then Ret (Inr init) s
               else if \<not> connected s i then Ret (Inr init) s
               else if no_vote_ack s i then Ret (Inr init) s
               else
                 let remote_commit = c_vote_ack (d_ctrl s) i;
                     start = (\<not> init \<and> s_next_lr_step (d_server s i) < LR_UPDATE_LOG);
                     s = (if start then inc_ssn s else s)
                 in case adjust_step i remote_commit s of
                      (None, s) \<Rightarrow> Ret (Inr (init \<or> start)) s
                    | (Some (buf, len, opcode, rm), s) \<Rightarrow>
                        bnd (post_send i LOG_QP buf len opcode True rm None (expect_completion i s))
                          (\<lambda>(rc, _) s. if rc \<noteq> 0 then Ret (Inl RC_ERROR) s else Ret (Inr (init \<or> start)) s))
            False s)
       (\<lambda>r s. case r of Inl rc \<Rightarrow> Ret rc s | Inr _ \<Rightarrow> Ret 0 s)"

subsection \<open>Writing the entries\<close>

text \<open>
  The first send to a server and the second one when the entries wrap around; \<open>None\<close> when the
  server needs nothing.
\<close>

definition update_step :: "nat \<Rightarrow> dare \<Rightarrow> ((lbuf \<times> u64 \<times> rbuf) \<times> (lbuf \<times> u64 \<times> rbuf) option) option \<times> dare" where
  "update_step i s =
     (let step = s_next_lr_step (d_server s i);
          remote_end = lo_end (c_log_offsets (d_ctrl s) i);
          l = d_log s
      in if step = LR_UPDATE_LOG then
           if log_offset_end_distance l remote_end = 0 then (None, s)
           else
             let cut = (\<lambda>x :: u64. ucast (ucast x :: u32) :: u64);
                 wrap = \<not> l_end l > remote_end;
                 s = upd_server i (\<lambda>v. v\<lparr>s_cached_end_offset := l_end l, s_send_count := (if wrap then 2 else 1)\<rparr>) s
             in (Some ((L_entries remote_end, cut (if wrap then l_len l - remote_end else l_end l - remote_end),
                        R_entries remote_end),
                       if wrap \<and> cut (l_end l) > 0 then Some (L_entries 0, cut (l_end l), R_entries 0) else None), s)
         else if step = LR_UPDATE_END then
           (Some ((L_end i, 8, R_end), None), set_end_of i (s_cached_end_offset (d_server s i)) s)
         else (None, s))"

text \<open>In a build without \<^verbatim>\<open>DEBUG\<close> only the return code of the second send is looked at.\<close>

definition write_log_entries :: "dare \<Rightarrow> (int + bool) result" where
  "write_log_entries s =
     loop (extended_group s)
       (\<lambda>i init s.
          if i = d_idx s \<or> \<not> server_on s i then Ret (Inr init) s
          else if suspected s i \<or> s_send_flag (d_server s i) = 0 \<or> \<not> connected s i then Ret (Inr init) s
          else
            case update_step i s of
              (None, s) \<Rightarrow> Ret (Inr init) s
            | (Some ((buf, len, rm), second), s) \<Rightarrow>
                let s = expect_completion i (if init then s else inc_ssn s) in
                bnd (post_send i LOG_QP buf len IBV_WR_RDMA_WRITE True rm None s)
                  (\<lambda>_ s. case second of
                     None \<Rightarrow> Ret (Inr True) s
                   | Some (buf, len, rm) \<Rightarrow>
                       let s = upd_server i (\<lambda>v. v\<lparr>s_send_flag := 0\<rparr>) s\<lparr>d_wa_flag := True\<rparr> in
                       bnd (post_send i LOG_QP buf len IBV_WR_RDMA_WRITE True rm None s)
                         (\<lambda>(rc, _) s. if rc \<noteq> 0 then Ret (Inl RC_ERROR) s else Ret (Inr True) s)))
       False s"

subsection \<open>The commit rule\<close>

text \<open>The offset up to which the log of a server is known to be valid.\<close>

definition valid_offset :: "dare \<Rightarrow> nat \<Rightarrow> u64" where
  "valid_offset s i =
     (if i = d_idx s then l_end (d_log s)
      else if \<not> server_on s i \<or> suspected s i \<or> s_next_lr_step (d_server s i) \<noteq> LR_UPDATE_LOG
      then l_commit (d_log s)
      else lo_end (c_log_offsets (d_ctrl s) i))"

definition counts_larger :: "dare \<Rightarrow> u64 \<Rightarrow> nat \<Rightarrow> bool" where
  "counts_larger s min_offset i \<longleftrightarrow>
     i \<noteq> d_idx s \<and> server_on s i \<and> \<not> suspected s i \<and> s_next_lr_step (d_server s i) = LR_UPDATE_LOG \<and>
     log_is_offset_larger (d_log s) (lo_end (c_log_offsets (d_ctrl s) i)) min_offset"

text \<open>
  The insertion sort: \<open>insert_offset\<close> is the inner loop, on the sorted prefix read downwards from
  position \<^verbatim>\<open>k\<close>.
\<close>

fun insert_offset :: "u64 \<Rightarrow> u64 list \<Rightarrow> u64 list" where
  "insert_offset tmp [] = [tmp]"
| "insert_offset tmp (x # xs) = (if x > tmp then x # insert_offset tmp xs else tmp # x # xs)"

definition sort_offsets :: "u64 list \<Rightarrow> u64 list" where
  "sort_offsets xs = rev (fold insert_offset xs [])"

text \<open>
  One round over the servers of one of the two configurations: the filled and, if enough servers
  are ahead, sorted array, and whether enough are ahead.
\<close>

definition fill_offsets :: "dare \<Rightarrow> nat \<Rightarrow> (nat \<Rightarrow> u64) \<Rightarrow> nat \<Rightarrow> u64" where
  "fill_offsets s sz offsets i = (if i < sz then valid_offset s i else offsets i)"

definition commit_round :: "dare \<Rightarrow> nat \<Rightarrow> u64 \<Rightarrow> (nat \<Rightarrow> u64) \<Rightarrow> bool \<times> (nat \<Rightarrow> u64)" where
  "commit_round s sz min_offset offsets =
     (let offsets = fill_offsets s sz offsets;
          larger_offset_count = length (filter (counts_larger s min_offset) [0..<sz]);
          sorted = sort_offsets (map offsets [0..<sz])
      in if larger_offset_count < sz div 2 then (False, offsets)
         else (True, \<lambda>i. if i < sz then sorted ! i else offsets i))"

text \<open>The loop over the configurations: the new commit offset, the array, and the last size.\<close>

definition find_min_offset :: "dare \<Rightarrow> u64 \<times> (nat \<Rightarrow> u64) \<times> nat" where
  "find_min_offset s =
     (let sz0 = unat (cid_size0 (d_cid s)); sz1 = unat (cid_size1 (d_cid s));
          transit = (cid_state (d_cid s) = CID_TRANSIT);
          min_offset = l_commit (d_log s)
      in case commit_round s sz0 min_offset (d_offsets s) of (enough, offsets) \<Rightarrow>
           if \<not> transit then (if enough then offsets ((sz0 - 1) div 2) else min_offset, offsets, sz0)
           else
             let min_offset = (if enough then offsets ((sz0 - 1) div 2) else min_offset)
             in case commit_round s sz1 min_offset offsets of (enough, offsets) \<Rightarrow>
                  let median = offsets ((sz1 - 1) div 2)
                  in (if enough \<and> log_is_offset_larger (d_log s) min_offset median then median else min_offset,
                      offsets, sz1))"

definition advance_commit :: "dare \<Rightarrow> nat \<times> dare" where
  "advance_commit s =
     (case find_min_offset s of (min_offset, offsets, sz) \<Rightarrow>
        let s = s\<lparr>d_offsets := offsets\<rparr> in
        (sz,
         if log_is_offset_larger (d_log s) min_offset (l_commit (d_log s)) then
           let s = upd_config (\<lambda>c. c\<lparr>cf_cid_offset := min_offset\<rparr>) (upd_log (\<lambda>l. l\<lparr>l_commit := min_offset\<rparr>) s)
           in s\<lparr>d_committed := True\<rparr>
         else s))"

subsection \<open>Publishing the commit offset\<close>

definition remote_commit_for :: "dare_log_t \<Rightarrow> u64 \<Rightarrow> u64" where
  "remote_commit_for l remote_end = (if log_is_offset_larger l (l_commit l) remote_end then remote_end else l_commit l)"

definition write_commit_offsets :: "nat \<Rightarrow> dare \<Rightarrow> int result" where
  "write_commit_offsets sz s =
     bnd (loop [0..<sz]
            (\<lambda>i init s.
               let rmt = c_log_offsets (d_ctrl s) i in
               if i = d_idx s \<or> \<not> server_on s i then Ret (Inr init) s
               else if suspected s i \<or> \<not> connected s i \<or> s_next_lr_step (d_server s i) \<noteq> LR_UPDATE_LOG
               then Ret (Inr init) s
               else if lo_commit rmt = lo_end rmt \<or> lo_commit rmt = l_commit (d_log s) then Ret (Inr init) s
               else
                 let s = set_commit_of i (remote_commit_for (d_log s) (lo_end rmt)) s;
                     s = (if init then s else inc_ssn s)
                 in bnd (post_send i LOG_QP (L_rcommit i) 8 IBV_WR_RDMA_WRITE False R_commit None s)
                      (\<lambda>_ s. Ret (Inr True) s))
            False s)
       (\<lambda>(_ :: int + bool) s. Ret RC_SUCCESS s)"

definition update_remote_logs :: "dare \<Rightarrow> int result" where
  "update_remote_logs s =
     bnd (write_log_entries s)
       (\<lambda>r s. case r of Inl rc \<Rightarrow> Ret rc s
        | Inr _ \<Rightarrow> case advance_commit s of (sz, s) \<Rightarrow> write_commit_offsets sz s)"

subsection \<open>Replication\<close>

text \<open>The loop runs at most 1000 times; the argument counts the rounds left.\<close>

fun write_remote_logs_loop :: "nat \<Rightarrow> bool \<Rightarrow> dare \<Rightarrow> int result" where
  "write_remote_logs_loop 0 wait_for_commit s = Ret 0 s"
| "write_remote_logs_loop (Suc n) wait_for_commit s =
     bnd (if wait_for_commit then empty_completion_queue 0 LOG_QP False None s else Ret None s)
       (\<lambda>_ s. bnd (log_adjustment s)
          (\<lambda>_ s. bnd (update_remote_logs s)
             (\<lambda>_ s. if wait_for_commit \<and> d_committed s then Ret 0 s
                    else if wait_for_commit then write_remote_logs_loop n wait_for_commit s
                    else Ret 0 s)))"

definition rc_write_remote_logs :: "bool \<Rightarrow> dare \<Rightarrow> int result" where
  "rc_write_remote_logs wait_for_commit s =
     write_remote_logs_loop 1000 wait_for_commit (if wait_for_commit then s\<lparr>d_committed := False\<rparr> else s)"

definition rc_get_remote_apply_offsets :: "dare \<Rightarrow> int result" where
  "rc_get_remote_apply_offsets s =
     bnd (loop (extended_group s)
            (\<lambda>i init s.
               if i = d_idx s \<or> \<not> server_on s i
               then Ret (Inr init) (upd_ctrl (\<lambda>c. c\<lparr>c_apply_offsets := (c_apply_offsets c)(i := l_apply (d_log s))\<rparr>) s)
               else if suspected s i then Ret (Inr init) s
               else if \<not> connected s i then Ret (Inr init) s
               else if no_vote_ack s i then Ret (Inr init) s
               else if s_last_get_read_ssn (d_server s i) \<noteq> 0 then Ret (Inr init) s
               else
                 let s = (if init then s else inc_ssn s);
                     s = upd_server i (\<lambda>v. v\<lparr>s_last_get_read_ssn := d_ssn s\<rparr>) s
                 in bnd (post_send i LOG_QP (L_apply i) 8 IBV_WR_RDMA_READ False R_apply None s)
                      (\<lambda>(rc, _) s. if rc \<noteq> 0 then Ret (Inl RC_ERROR) s else Ret (Inr True) s))
            False s)
       (\<lambda>r s. case r of Inl rc \<Rightarrow> Ret rc s | Inr _ \<Rightarrow> Ret 0 s)"

end
