(* ===== verification/Boot.thy ===== *)
theory Boot
  imports State
begin

text \<open>
  The start of a server process: its static memory, which is zero, and \<^verbatim>\<open>init_server_data\<close> of
  \<^verbatim>\<open>dare_server.c\<close>.
\<close>

definition zero_qp :: rc_qp_t where
  "zero_qp = \<lparr>q_qp = \<lparr>hw_qp_num = 0, hw_state = IBV_QPS_RESET, hw_dest_qpn = 0, hw_rq_psn = 0, hw_sq_psn = 0\<rparr>,
              q_signaled_wr_id = 0, q_qpn = 0, q_send_count = 0, q_state = 0\<rparr>"

definition zero_ep :: dare_ib_ep_t where
  "zero_ep = \<lparr>ep_ud = \<lparr>ud_lid = 0, ud_gid = 0, ud_qpn = 0, ud_ah = None\<rparr>,
              ep_rmt_mr = (\<lambda>_. \<lparr>rm_raddr = 0, rm_rkey = 0\<rparr>), ep_rc_qp = (\<lambda>_. zero_qp), ep_mtu = 0,
              ep_rc_connected = False, ep_log_access = False\<rparr>"

definition zero_server :: server_t where
  "zero_server = \<lparr>s_next_wr_id = 0, s_cached_end_offset = 0, s_last_get_read_ssn = 0, s_ep = zero_ep,
                  s_fail_count = 0, s_next_lr_step = 0, s_send_flag = 0, s_send_count = 0\<rparr>"

definition zero_cid :: dare_cid_t where
  "zero_cid = \<lparr>cid_epoch = 0, cid_size0 = 0, cid_size1 = 0, cid_state = 0, cid_bitmask = 0\<rparr>"

definition zero_config :: server_config_t where
  "zero_config = \<lparr>cf_cid = zero_cid, cf_cid_offset = 0, cf_cid_idx = 0, cf_req_id = 0,
                  cf_servers = (\<lambda>_. zero_server), cf_clt_id = 0, cf_idx = 0, cf_len = 0\<rparr>"

definition zero_ctrl :: ctrl_data_t where
  "zero_ctrl =
     \<lparr>c_sid = 0, c_vote_req = (\<lambda>_. \<lparr>vr_sid = 0, vr_index = 0, vr_term = 0, vr_cid = zero_cid\<rparr>),
      c_log_offsets = (\<lambda>_. \<lparr>lo_head = 0, lo_apply = 0, lo_commit = 0, lo_end = 0\<rparr>),
      c_sm_rep = (\<lambda>_. \<lparr>sr_sid = 0, sr_raddr = 0, sr_rkey = 0, sr_len = 0\<rparr>), c_sm_req = (\<lambda>_. 0),
      c_hb = (\<lambda>_. 0), c_vote_ack = (\<lambda>_. 0), c_rsid = (\<lambda>_. 0), c_apply_offsets = (\<lambda>_. 0),
      c_prv_data = (\<lambda>_. 0)\<rparr>"

definition zero_det :: dare_log_entry_det_t where
  "zero_det = \<lparr>det_idx = 0, det_term = 0, det_offset = 0\<rparr>"

definition zero_proxy :: proxy_node where
  "zero_proxy = \<lparr>px_highest_rec = 0, px_cur_rec = 0, px_sync_req_id = 0, px_batching = False,
                 px_e1000_speedup = False, px_db = Some [], px_records_len = 0, px_put_rcs = [],
                 px_checkpoint_req_status = CHECKPOINT_REQ_WAIT, px_tailq = [], px_mirror_clientfd = 0,
                 px_sent = []\<rparr>"

definition zero_dare_ep :: dare_ep_t where
  "zero_dare_ep = \<lparr>de_ud_ep = ep_ud zero_ep, de_last_read_request = replicate 128 0, de_wait_for_idx = 0,
                   de_last_req_id = 0, de_cid_idx = 0, de_committed = 0\<rparr>"

definition zero_dev :: ib_dev where
  "zero_dev = \<lparr>dev_lid = 0, dev_gid = 0, dev_mtu = 0, dev_unique_slid = 0,
               dev_lcl_mr = (\<lambda>_. \<lparr>rm_raddr = 0, rm_rkey = 0\<rparr>)\<rparr>"

definition stopped_timer :: "callback \<Rightarrow> ev_timer" where
  "stopped_timer cb = \<lparr>t_cb = cb, t_repeat = Stopped\<rparr>"

text \<open>The process before its initialisation, with an environment that answers nothing.\<close>

definition blank :: dare where
  "blank =
     \<lparr>d_input = \<lparr>in_srv_type = SRV_TYPE_START, in_sm_type = 2, in_group_size = 3, in_server_idx = 0\<rparr>,
      d_config = zero_config, d_ctrl = zero_ctrl, d_log = log_new, d_endpoints = Leaf,
      d_last_write_csm_idx = 0, d_last_cmt_write_csm_idx = 0, d_state = 0, d_prev_log_entry_head = 0,
      d_last_applied_entry = zero_det, d_disable_apply = False, d_sm = None,
      d_sm_alloc = \<lparr>alloc_node = True, alloc_blob = True, realloc_blob = True\<rparr>, d_proxy = zero_proxy,
      d_snapshot = \<lparr>sn_last_entry = zero_det, sn_len = 0, sn_data = (\<lambda>_. 0)\<rparr>, d_prereg_mr = (0, 0),
      d_snapshot_mr = None, d_allocs = [], d_reg_mrs = [],
      d_hb = \<lparr>recomputed_hb_timeout = 0, leader_failed = False, hb_timeout_flag = False,
              latest_hb_received = 0, total_count = 0, fp_count = 0\<rparr>,
      d_timer_event = stopped_timer init_network_cb, d_hb_event = stopped_timer hb_receive_cb,
      d_to_adjust_event = stopped_timer to_adjust_cb, d_prune_event = stopped_timer prune_log_cb,
      d_ssn = 0, d_wa_flag = False, d_committed = False, d_offsets = (\<lambda>_. 0), d_rc_max_send_wr = 128,
      d_polls = [], d_post_rcs = [], d_modify_rcs = [], d_dev = zero_dev, d_request_id = 1,
      d_ud_recvs = [], d_ud_sends = [], d_ahs = [], d_fresh_ep = zero_dare_ep,
      d_uninit_rc = 0, d_uninit_offset = 0, d_out = []\<rparr>"

text \<open>
  The allocations of \<^verbatim>\<open>init_server_data\<close> in their order: state machine, its table, servers, control
  data, log, preregistered snapshot; \<open>m i\<close> says whether the one with number \<open>i\<close> succeeds. Without a
  state machine the assignment of the callbacks goes through a null pointer.
\<close>

definition SM_KVS :: u8 where "SM_KVS = 2"

definition init_server_data :: "(nat \<Rightarrow> bool) \<Rightarrow> dare \<Rightarrow> int result" where
  "init_server_data m s =
     (let input = d_input s; group_size = in_group_size input;
          s = (if in_srv_type input \<noteq> SRV_TYPE_LOGGP \<and> in_sm_type input = SM_KVS
               then s\<lparr>d_sm := create_kvs_sm (m 0) (m 1) 0 0\<rparr> else s)
      in if d_sm s = None then Fault s
         else
           let s = upd_config (\<lambda>c. c\<lparr>cf_idx := in_server_idx input, cf_len := of_nat MAX_SERVER_COUNT\<rparr>) s in
           if cf_len (d_config s) < group_size then Ret 1 s
           else
             let cid = for_to (unat group_size) (\<lambda>i cid. CID_SERVER_ADD cid i)
                         ((d_cid s)\<lparr>cid_size0 := group_size, cid_state := CID_STABLE\<rparr>);
                 s = upd_config (\<lambda>c. c\<lparr>cf_cid := cid\<rparr>) s
             in if \<not> m 2 then Ret 1 s
                else
                  let s = upd_config (\<lambda>c. c\<lparr>cf_servers := (\<lambda>i. if i < MAX_SERVER_COUNT
                            then zero_server\<lparr>s_next_lr_step := LR_GET_WRITE, s_send_flag := 1\<rparr>
                            else cf_servers c i)\<rparr>) s
                  in if \<not> m 3 then Ret 1 s
                     else
                       let s = s\<lparr>d_ctrl := zero_ctrl\<lparr>c_sid := SID_NULL\<rparr>\<rparr> in
                       if \<not> m 4 then Ret 1 s
                       else
                         let s = s\<lparr>d_log := log_new\<rparr> in
                         if \<not> m 5 then Ret 1 s else Ret 0 (s\<lparr>d_endpoints := Leaf\<rparr>))"

text \<open>
  The part of \<^verbatim>\<open>dare_server_init\<close> that starts the timers. The code goes on after a failed
  initialisation with the structures it has just freed, and the first callback then goes through the
  null pointer to the servers: \<open>Fault\<close> stands for that.
\<close>

definition dare_server_init :: "(nat \<Rightarrow> bool) \<Rightarrow> dare \<Rightarrow> unit result" where
  "dare_server_init m s =
     bnd (init_server_data m s)
       (\<lambda>rc s.
          if rc \<noteq> 0 then Fault s
          else Ret () (s\<lparr>d_hb := (d_hb s)\<lparr>recomputed_hb_timeout := 20\<rparr>,
                         d_timer_event := \<lparr>t_cb = init_network_cb, t_repeat = Now\<rparr>,
                         d_hb_event := stopped_timer hb_receive_cb,
                         d_to_adjust_event := stopped_timer to_adjust_cb,
                         d_prune_event := stopped_timer prune_log_cb\<rparr>))"

end
