(* ===== verification/RcRepSpec.thy ===== *)
theory RcRepSpec
  imports RcRep Boot "HOL-Library.Multiset"
begin

text \<open>
  What the commit rule computes. As long as the offsets of the servers lie between the commit and
  the end offset as numbers, which holds when the entries to be committed do not wrap around, the
  commit offset becomes the largest offset that a majority of the servers hold. Where the entries
  wrap around, and in transitional configurations, it does not.
\<close>

subsection \<open>The sort\<close>




subsection \<open>The median of a majority\<close>



subsection \<open>The commit offset\<close>















end
