(* ===== verification/Server.thy ===== *)
theory Server
  imports RcRep Boot EpDb
begin

text \<open>
  The part of \<^verbatim>\<open>dare_server.c\<close> that the other parts call: the roles of a server, the update of its
  state identifier, the start of an election, the step back to a follower, the update of the
  configuration; and \<^verbatim>\<open>rc_verify_leadership\<close> of \<^verbatim>\<open>dare_ibv_rc.c\<close>, which may make that step.
\<close>

subsection \<open>Roles\<close>

definition is_none :: "dare \<Rightarrow> bool" where
  "is_none s \<longleftrightarrow> SID_GET_IDX (d_sid s) = cf_idx (d_config s) \<and> \<not> SID_GET_L (d_sid s) \<and> SID_GET_TERM (d_sid s) = 0"

definition is_leader :: "dare \<Rightarrow> bool" where
  "is_leader s \<longleftrightarrow> \<not> is_none s \<and> SID_GET_IDX (d_sid s) = cf_idx (d_config s) \<and> SID_GET_L (d_sid s)"

definition is_candidate :: "dare \<Rightarrow> bool" where
  "is_candidate s \<longleftrightarrow> \<not> is_none s \<and> SID_GET_IDX (d_sid s) = cf_idx (d_config s) \<and> \<not> SID_GET_L (d_sid s)"

definition is_follower :: "dare \<Rightarrow> bool" where
  "is_follower s \<longleftrightarrow> \<not> is_none s \<and> \<not> is_leader s \<and> \<not> is_candidate s"

definition server_update_sid :: "u64 \<Rightarrow> u64 \<Rightarrow> dare \<Rightarrow> int result" where
  "server_update_sid new_sid old_sid s =
     (if d_sid s = old_sid then Ret 0 (upd_ctrl (\<lambda>c. c\<lparr>c_sid := new_sid\<rparr>) s) else Exit s)"

definition hb_timeout :: "dare \<Rightarrow> duration" where
  "hb_timeout s = Hb (if hb_timeout_flag (d_hb s) then recomputed_hb_timeout (d_hb s) else 100)"

definition disable_apply_committed_entries :: "dare \<Rightarrow> dare" where
  "disable_apply_committed_entries s = s\<lparr>d_disable_apply := True\<rparr>"

definition resume_apply_committed_entries :: "dare \<Rightarrow> dare" where
  "resume_apply_committed_entries s = s\<lparr>d_disable_apply := False\<rparr>"

definition int_handler :: "dare \<Rightarrow> dare" where
  "int_handler s = set_flag TERMINATE s"

subsection \<open>Elections\<close>

text \<open>The loop that clears the votes and the replication state before an election.\<close>

definition clear_votes :: "dare \<Rightarrow> dare" where
  "clear_votes s =
     fold (\<lambda>i s. upd_server i (\<lambda>v. v\<lparr>s_next_lr_step := LR_GET_WRITE, s_send_flag := 1\<rparr>)
            (upd_ctrl (\<lambda>c. c\<lparr>c_vote_ack := (c_vote_ack c)(i := l_len (d_log s))\<rparr>) s)) (group s) s"

definition start_election :: "dare \<Rightarrow> unit result" where
  "start_election s =
     (let new_sid = SID_SET_TERM 0 (SID_GET_TERM (d_sid s) + 1);
          new_sid = SID_UNSET_L new_sid;
          new_sid = SID_SET_IDX new_sid (cf_idx (d_config s))
      in bnd (server_update_sid new_sid (d_sid s) s)
           (\<lambda>rc s.
              if rc \<noteq> 0 then Ret () s
              else case rc_revoke_log_access s of (rc, s) \<Rightarrow>
                if rc \<noteq> 0 then Exit s
                else
                  let s = (clear_votes s)\<lparr>d_hb_event := \<lparr>t_cb = hb_receive_cb, t_repeat = Random_election\<rparr>\<rparr>
                  in bnd (rc_send_vote_request s) (\<lambda>rc s. if rc \<noteq> 0 then Exit s else Ret () s)))"

text \<open>The buffer of uncommitted entries that the next leader reads; a walk without end hangs.\<close>

definition publish_nc_buf :: "dare \<Rightarrow> unit result" where
  "publish_nc_buf s =
     (let l = d_log s; idx = d_idx s in
      case log_entries_to_nc_buf l (l_nc_buf l idx) of
        None \<Rightarrow> Hang s
      | Some nc_buf \<Rightarrow> Ret () (upd_log (\<lambda>l. l\<lparr>l_nc_buf := (l_nc_buf l)(idx := nc_buf)\<rparr>) s))"

text \<open>
  The timers of a follower: heart-beats and pruning stop, and the adjustment of the timeout starts
  unless it has ended.
\<close>

definition follower_timers :: "dare \<Rightarrow> dare" where
  "follower_timers s =
     (let s = s\<lparr>d_prune_event := (d_prune_event s)\<lparr>t_repeat := Stopped\<rparr>, d_hb := (d_hb s)\<lparr>leader_failed := False\<rparr>\<rparr>
      in if hb_timeout_flag (d_hb s) then s
         else s\<lparr>d_to_adjust_event := (d_to_adjust_event s)\<lparr>t_repeat := Hb (recomputed_hb_timeout (d_hb s))\<rparr>\<rparr>)"

definition receive_heartbeats :: "dare \<Rightarrow> dare" where
  "receive_heartbeats s = s\<lparr>d_hb_event := \<lparr>t_cb = hb_receive_cb, t_repeat = hb_timeout s\<rparr>\<rparr>"

definition server_to_follower :: "dare \<Rightarrow> unit result" where
  "server_to_follower s =
     (let s = follower_timers (s\<lparr>d_hb_event := (d_hb_event s)\<lparr>t_repeat := Stopped\<rparr>\<rparr>);
          s = snd (rc_revoke_log_access s)
      in bnd (publish_nc_buf s)
           (\<lambda>_ s.
            let s = snd (rc_restore_log_access (d_uninit_rc s) s) in
            if SID_GET_L (d_sid s) then
              bnd (rc_send_vote_ack s)
                (\<lambda>rc s. if rc < 0 then start_election s
                        else if rc \<noteq> 0 then Exit s else Ret () (receive_heartbeats s))
            else Ret () (receive_heartbeats s)))"

subsection \<open>Configurations\<close>

text \<open>
  A server that the new configuration no longer has is disconnected, a failure of which is only
  logged; the local server shuts down if it is that server.
\<close>

definition update_cid :: "dare_cid_t \<Rightarrow> dare \<Rightarrow> int result" where
  "update_cid cid s =
     (if equal_cid (d_cid s) cid then Ret 1 s
      else
        let sz = (if cid_size1 cid > cid_size0 cid then cid_size1 cid else cid_size0 cid) in
        bnd (loop [0..<unat sz]
               (\<lambda>i _ s.
                  if \<not> CID_IS_SERVER_ON cid i \<and> server_on s i then
                    if i = d_idx s then Shutdown s
                    else Ret (Inr ()) (snd (rc_disconnect_server i s))
                  else Ret (Inr ()) s)
               () s)
          (\<lambda>(_ :: int + unit) s. Ret 0 (upd_config (\<lambda>c. c\<lparr>cf_cid := cid\<rparr>) s)))"

subsection \<open>Verification of the leadership\<close>

text \<open>
  The best identifier among those read from the other servers: one that is larger and has a leader.
\<close>

definition best_rsid :: "sends \<Rightarrow> dare \<Rightarrow> u64" where
  "best_rsid posted_sends s =
     fold (\<lambda>i new_sid.
             let sid = c_rsid (d_ctrl s) i in
             if i = d_idx s then new_sid
             else if posted_sends i \<noteq> 0 then new_sid
             else if sid > new_sid \<and> SID_GET_L sid then sid else new_sid) (group s) (d_sid s)"

text \<open>
  The return code and the flag behind the pointer argument. The code asks for a majority of answers
  but only looks for an error of the queue, not for a missing majority.
\<close>

definition rc_verify_leadership :: "bool \<Rightarrow> dare \<Rightarrow> (int \<times> bool) result" where
  "rc_verify_leadership leader s =
     bnd (post_all_signaled CTRL_QP 0 L_rsid 8 IBV_WR_RDMA_READ R_sid (inc_ssn s))
       (\<lambda>r s. case r of
          Inl _ \<Rightarrow> Ret (1, leader) s
        | Inr posted_sends \<Rightarrow>
            bnd (wait_for_majority posted_sends CTRL_QP s)
              (\<lambda>(rc, posted_sends) s.
                 if rc = RC_ERROR then Ret (1, leader) s
                 else
                   let new_sid = best_rsid posted_sends s in
                   if new_sid \<noteq> d_sid s then
                     bnd (server_update_sid new_sid (d_sid s) s)
                       (\<lambda>rc s. if rc \<noteq> 0 then Ret (0, False) s
                               else bnd (server_to_follower s) (\<lambda>_ s. Ret (0, False) s))
                   else Ret (0, True) s))"

end
