(* ===== verification/Ud.thy ===== *)
theory Ud
  imports Server
begin

text \<open>
  The messages over the unreliable datagram queue pair (\<^verbatim>\<open>dare_ibv_ud.c\<close>): the submissions of the proxy
  that go into the log, the requests of servers to join, the three-way handshake that connects the
  reliable queue pairs, and the replies to clients.
\<close>

definition MSG_NONE :: u8 where "MSG_NONE = 0"
definition MSG_ERROR :: u8 where "MSG_ERROR = 13"
definition RC_SYN :: u8 where "RC_SYN = 1"
definition RC_SYNACK :: u8 where "RC_SYNACK = 2"
definition RC_ACK :: u8 where "RC_ACK = 3"
definition CSM_REPLY :: u8 where "CSM_REPLY = 203"
definition JOIN :: u8 where "JOIN = 211"
definition CFG_REPLY :: u8 where "CFG_REPLY = 214"
definition REQ_MAJORITY :: int where "REQ_MAJORITY = 13"

lemmas msg_types = MSG_NONE_def MSG_ERROR_def RC_SYN_def RC_SYNACK_def RC_ACK_def CSM_REPLY_def JOIN_def
  CFG_REPLY_def

subsection \<open>Appending to the log\<close>

text \<open>
  The memory behind the untyped pointers that the callers of \<^verbatim>\<open>log_append_entry\<close> pass: a configuration,
  a head offset, a command. A tail search without end hangs.
\<close>

definition cid_mem :: "dare_cid_t \<Rightarrow> mem" where
  "cid_mem cid = wr32 (wr8 (wr8 (wr8 (wr64 (\<lambda>_. 0) 0 (cid_epoch cid)) 8 (cid_size0 cid)) 9 (cid_size1 cid))
     10 (cid_state cid)) 12 (cid_bitmask cid)"

definition head_mem :: "u64 \<Rightarrow> mem" where
  "head_mem head = wr64 (\<lambda>_. 0) 0 head"

definition cmd_mem :: "tailq_entry_t \<Rightarrow> mem" where
  "cmd_mem e = write_bytes (wr16 (\<lambda>_. 0) 0 (tq_len e)) 2 (tq_cmd e)"

definition append_entry :: "u64 \<Rightarrow> u16 \<Rightarrow> u8 \<Rightarrow> mem \<Rightarrow> dare \<Rightarrow> u64 result" where
  "append_entry req_id clt_id type data s =
     (case log_append_entry (d_log s) (d_prev_log_entry_head s) (SID_GET_TERM (d_sid s)) req_id clt_id type data of
        None \<Rightarrow> Hang s
      | Some (idx, l, prev) \<Rightarrow> Ret idx (s\<lparr>d_log := l, d_prev_log_entry_head := prev\<rparr>))"

definition append_config :: "u64 \<Rightarrow> u16 \<Rightarrow> dare \<Rightarrow> u64 result" where
  "append_config req_id clt_id s = append_entry req_id clt_id CONFIG (cid_mem (d_cid s)) s"

text \<open>The submissions are taken from the queue in order, whatever the role of the server.\<close>

fun tailq_loop :: "tailq_entry_t list \<Rightarrow> dare \<Rightarrow> unit result" where
  "tailq_loop [] s = Ret () s"
| "tailq_loop (n3 # q) s =
     bnd (append_entry (tq_req_id n3) (tq_connection_id n3) (tq_type n3) (cmd_mem n3) s)
       (\<lambda>idx s. tailq_loop q (s\<lparr>d_last_write_csm_idx := idx, d_proxy := (d_proxy s)\<lparr>px_tailq := q\<rparr>\<rparr>))"

definition get_tailq_message :: "dare \<Rightarrow> unit result" where
  "get_tailq_message s = tailq_loop (px_tailq (d_proxy s)) s"

subsection \<open>Sending\<close>

text \<open>
  A datagram is posted and its completion is awaited; \<open>None\<close> is the multicast group. The result is 1
  when the post, the poll or the completion fails.
\<close>

definition post_datagram :: "ud_ep_t option \<Rightarrow> ud_msg \<Rightarrow> dare \<Rightarrow> int result" where
  "post_datagram dest msg s =
     (let r = (case d_ud_sends s of [] \<Rightarrow> Ud_ok | x # _ \<Rightarrow> x);
          s = s\<lparr>d_ud_sends := tl (d_ud_sends s)\<rparr>
      in case r of
           Ud_ok \<Rightarrow> Ret 0 (emit (Ud_sent dest msg) s)
         | Ud_post_failed \<Rightarrow> Ret 1 s
         | Ud_scq_failed \<Rightarrow> Ret 1 (emit (Ud_sent dest msg) s)
         | Ud_status_failed \<Rightarrow> Ret 1 (emit (Ud_sent dest msg) s)
         | Ud_lost \<Rightarrow> Hang (emit (Ud_sent dest msg) s))"

definition ud_send_message :: "ud_ep_t \<Rightarrow> ud_msg \<Rightarrow> dare \<Rightarrow> int result" where
  "ud_send_message ud_ep msg s = post_datagram (Some ud_ep) msg s"

definition mcast_send_message :: "ud_msg \<Rightarrow> dare \<Rightarrow> int result" where
  "mcast_send_message msg s = post_datagram None msg s"

definition ud_ah_create :: "dare \<Rightarrow> nat option \<times> dare" where
  "ud_ah_create s = (case d_ahs s of [] \<Rightarrow> (None, s) | ah # ahs \<Rightarrow> (ah, s\<lparr>d_ahs := ahs\<rparr>))"

text \<open>Without an address handle the queue pair number stays as it was; no caller looks at the return code.\<close>

definition wc_to_ud_ep :: "nat \<Rightarrow> ud_wc \<Rightarrow> nat \<Rightarrow> u16 \<Rightarrow> dare \<Rightarrow> dare" where
  "wc_to_ud_ep i wc dest_gid slid s =
     (case ud_ah_create s of (ah, s) \<Rightarrow>
        upd_ep i (\<lambda>e. e\<lparr>ep_ud := (ep_ud e)\<lparr>ud_lid := slid, ud_gid := dest_gid, ud_ah := ah,
          ud_qpn := (if ah = None then ud_qpn (ep_ud e) else uw_src_qp wc)\<rparr>\<rparr>) s)"

definition own_hdr :: "dare \<Rightarrow> u64 \<Rightarrow> ud_hdr_t" where
  "own_hdr s i = \<lparr>h_id = i, h_gid = dev_gid (d_dev s), h_slid = dev_unique_slid (d_dev s)\<rparr>"

definition bare_hdr :: "u64 \<Rightarrow> ud_hdr_t" where
  "bare_hdr i = \<lparr>h_id = i, h_gid = 0, h_slid = 0\<rparr>"

subsection \<open>Replies to clients\<close>

text \<open>The index of the first server with the given LID, or the size of the extended group.\<close>

fun index_of_lid :: "u16 \<Rightarrow> nat list \<Rightarrow> nat \<Rightarrow> dare \<Rightarrow> nat" where
  "index_of_lid lid [] sz s = sz"
| "index_of_lid lid (i # is) sz s = (if ud_lid (ep_ud (d_ep s i)) = lid then i else index_of_lid lid is sz s)"

text \<open>The reply to a reconfiguration request, the only type the callers ask for.\<close>

definition ud_send_clt_reply :: "u16 \<Rightarrow> u64 \<Rightarrow> dare \<Rightarrow> int result" where
  "ud_send_clt_reply lid req_id s =
     (case ep_search (d_endpoints s) lid of
        None \<Rightarrow> Fault s
      | Some ep \<Rightarrow>
          let s = s\<lparr>d_endpoints := ep_store lid (\<lambda>ep. ep\<lparr>de_last_req_id := req_id, de_committed := 1\<rparr>) (d_endpoints s)\<rparr>;
              reply = \<lparr>rp_idx = of_nat (index_of_lid lid (extended_group s) (length (extended_group s)) s),
                       rp_cid = d_cid s, rp_cid_idx = de_cid_idx ep, rp_head = l_head (d_log s)\<rparr>
          in bnd (ud_send_message (de_ud_ep ep) (Msg_cfg_reply (bare_hdr req_id) reply) s)
               (\<lambda>rc s. if rc \<noteq> 0 then Ret 1 s else Ret 0 s))"

text \<open>
  The answer to a read request kept in an endpoint: 40 bytes of header, a length of 2 bytes, and the
  command for the state machine.
\<close>

definition list_mem :: "u8 list \<Rightarrow> mem" where
  "list_mem bs = write_bytes (\<lambda>_. 0) 0 bs"

definition ud_clt_answer_read_request :: "u16 \<Rightarrow> dare \<Rightarrow> unit result" where
  "ud_clt_answer_read_request lid s =
     (case ep_search (d_endpoints s) lid of
        None \<Rightarrow> Fault s
      | Some ep \<Rightarrow>
          let s = s\<lparr>d_endpoints := ep_store lid (\<lambda>ep. ep\<lparr>de_wait_for_idx := 0\<rparr>) (d_endpoints s)\<rparr>;
              request = list_mem (de_last_read_request ep)
          in case apply_kvs_cmd (d_sm_alloc s) (d_sm s) (\<lambda>a. request (42 + a)) of
               None \<Rightarrow> Fault s
             | Some (rc, sm, answer) \<Rightarrow>
                 let (len, data) = (case answer of None \<Rightarrow> (0, []) | Some a \<Rightarrow> a)
                 in bnd (ud_send_message (de_ud_ep ep) (Msg_csm_reply (bare_hdr (rd64 request 0)) len data) (s\<lparr>d_sm := sm\<rparr>))
                      (\<lambda>_ s. Ret () s))"

text \<open>
  \<^verbatim>\<open>ep_dp_reply_read_req\<close> of \<^verbatim>\<open>dare_ep_db.c\<close>: the endpoints in the order of their LIDs; the leadership is
  verified before the first reply.
\<close>

fun reply_reads :: "u16 list \<Rightarrow> bool \<Rightarrow> u64 \<Rightarrow> dare \<Rightarrow> unit result" where
  "reply_reads [] verified idx s = Ret () s"
| "reply_reads (lid # lids) verified idx s =
     (case ep_search (d_endpoints s) lid of
        None \<Rightarrow> Fault s
      | Some ep \<Rightarrow>
          if de_wait_for_idx ep = 0 then reply_reads lids verified idx s
          else
            bnd (if verified then Ret (0, True) s else rc_verify_leadership False s)
              (\<lambda>(_, leader) s.
                 if \<not> leader then Ret () (s\<lparr>d_endpoints := ep_dp_reset_wait_idx (d_endpoints s)\<rparr>)
                 else bnd (if de_wait_for_idx ep < idx then ud_clt_answer_read_request lid s else Ret () s)
                        (\<lambda>_ s. reply_reads lids True idx s)))"

definition ep_dp_reply_read_req :: "u64 \<Rightarrow> dare \<Rightarrow> unit result" where
  "ep_dp_reply_read_req idx s = reply_reads (map lid_of (rb_nodes (d_endpoints s))) False idx s"

subsection \<open>Joining the group\<close>

definition ud_join_cluster :: "dare \<Rightarrow> int result" where
  "ud_join_cluster s = mcast_send_message (Msg_join (own_hdr s (d_request_id s))) s"

text \<open>
  The search from the last server down to the first: \<open>Inr\<close> is the lowest free place, or the size of
  the group; \<open>Inl\<close> is an early return when a server of the configuration has the LID of the sender.
\<close>

fun join_scan :: "ud_wc \<Rightarrow> ud_hdr_t \<Rightarrow> nat list \<Rightarrow> nat \<Rightarrow> dare \<Rightarrow> (int + nat) result" where
  "join_scan wc request [] free s = Ret (Inr free) s"
| "join_scan wc request (i # is) free s =
     (if server_on s i then
        if ud_lid (ep_ud (d_ep s i)) = uw_slid wc then
          case ep_search (d_endpoints s) (h_slid request) of
            None \<Rightarrow> Fault s
          | Some ep \<Rightarrow>
              if de_last_req_id ep = h_id request then
                if de_committed ep = 0 then Ret (Inl 0) s
                else bnd (ud_send_clt_reply (uw_slid wc) (h_id request) s)
                       (\<lambda>rc s. if rc \<noteq> 0 then Ret (Inl 1) s else Ret (Inl 0) s)
              else Ret (Inl 0) s
        else join_scan wc request is free s
      else join_scan wc request is i s)"

text \<open>The endpoint of the sender, made if the database has none; a failed rebalancing is a fault.\<close>

definition find_or_insert_ep :: "ud_hdr_t \<Rightarrow> dare \<Rightarrow> unit result" where
  "find_or_insert_ep request s =
     (case ep_search (d_endpoints s) (h_slid request) of
        Some _ \<Rightarrow> Ret () s
      | None \<Rightarrow>
          case ud_ah_create s of (ah, s) \<Rightarrow>
            case ep_insert (d_fresh_ep s) ah (d_endpoints s) (h_slid request) (h_gid request) of
              Some (Some _, root) \<Rightarrow> Ret () (s\<lparr>d_endpoints := root\<rparr>)
            | _ \<Rightarrow> Fault s)"

definition upd_dare_ep :: "u16 \<Rightarrow> (dare_ep_t \<Rightarrow> dare_ep_t) \<Rightarrow> dare \<Rightarrow> dare" where
  "upd_dare_ep lid f s = s\<lparr>d_endpoints := ep_store lid f (d_endpoints s)\<rparr>"

text \<open>The new configuration and the state of the new server at place \<open>free\<close>.\<close>

definition add_server_cid :: "nat \<Rightarrow> dare_cid_t \<Rightarrow> dare_cid_t" where
  "add_server_cid free cid =
     (let new = CID_SERVER_ADD cid free in
      if free = unat (cid_size0 cid)
      then new\<lparr>cid_state := CID_EXTENDED, cid_size1 := cid_size0 new + 1, cid_epoch := cid_epoch new + 1\<rparr>
      else new)"

definition init_new_server :: "nat \<Rightarrow> ud_wc \<Rightarrow> ud_hdr_t \<Rightarrow> dare \<Rightarrow> dare" where
  "init_new_server free wc request s =
     (let s = upd_ep free (\<lambda>e. e\<lparr>ep_rc_connected := False\<rparr>) (wc_to_ud_ep free wc (h_gid request) (h_slid request) s);
          s = upd_server free (\<lambda>v. v\<lparr>s_fail_count := 0, s_next_lr_step := LR_GET_WRITE, s_send_flag := 1, s_send_count := 0\<rparr>) s
      in upd_ctrl (\<lambda>c. c\<lparr>c_vote_ack := (c_vote_ack c)(free := l_len (d_log s)),
                         c_apply_offsets := (c_apply_offsets c)(free := l_head (d_log s))\<rparr>) s)"

definition handle_server_join_request :: "ud_wc \<Rightarrow> ud_hdr_t \<Rightarrow> dare \<Rightarrow> int result" where
  "handle_server_join_request wc request s =
     (if cid_state (d_cid s) \<noteq> CID_STABLE then Ret 0 s
      else
        let sz = unat (cid_size0 (d_cid s)) in
        bnd (find_or_insert_ep request s)
          (\<lambda>_ s.
           let s = upd_dare_ep (h_slid request) (\<lambda>ep. ep\<lparr>de_ud_ep := (de_ud_ep ep)\<lparr>ud_qpn := uw_src_qp wc\<rparr>\<rparr>) s in
           bnd (join_scan wc request (rev [0..<sz]) sz s)
             (\<lambda>r s. case r of
                Inl rc \<Rightarrow> Ret rc s
              | Inr free \<Rightarrow>
                  let s = upd_config (\<lambda>c. c\<lparr>cf_cid := add_server_cid free (cf_cid c), cf_req_id := h_id request,
                                            cf_clt_id := uw_slid wc\<rparr>) s;
                      s = init_new_server free wc request s;
                      s = upd_dare_ep (h_slid request) (\<lambda>ep. ep\<lparr>de_last_req_id := h_id request\<rparr>) s
                  in bnd (append_config (h_id request) (h_slid request) s)
                       (\<lambda>idx s. Ret 0 (upd_dare_ep (h_slid request) (\<lambda>ep. ep\<lparr>de_cid_idx := idx, de_committed := 0\<rparr>) s)))))"

definition handle_server_join_reply :: "ud_hdr_t \<Rightarrow> reconf_rep_t \<Rightarrow> dare \<Rightarrow> dare" where
  "handle_server_join_reply hdr reply s =
     (if h_id hdr < d_request_id s then s
      else
        let s = upd_log (\<lambda>l. l\<lparr>l_head := rp_head reply\<rparr>) (s\<lparr>d_request_id := d_request_id s + 1\<rparr>)
        in upd_config (\<lambda>c. c\<lparr>cf_idx := rp_idx reply, cf_cid := rp_cid reply, cf_cid_idx := rp_cid_idx reply,
                             cf_cid_offset := rp_head reply\<rparr>) s)"

subsection \<open>Establishing connections\<close>

definition mtu_value :: "u32 \<Rightarrow> nat" where
  "mtu_value mtu = (if mtu = 1 then 256 else if mtu = 2 then 512 else if mtu = 3 then 1024
     else if mtu = 4 then 2048 else if mtu = 5 then 4096 else 0)"

definition own_syn :: "dare \<Rightarrow> u8 \<Rightarrow> (nat \<Rightarrow> u32) \<Rightarrow> rc_syn_t" where
  "own_syn s sz qpns = \<lparr>sy_log_rm = dev_lcl_mr (d_dev s) LOG_QP, sy_ctrl_rm = dev_lcl_mr (d_dev s) CTRL_QP,
     sy_mtu = dev_mtu (d_dev s), sy_idx = cf_idx (d_config s), sy_size = sz, sy_data = qpns\<rparr>"

definition own_qpns :: "dare \<Rightarrow> nat \<Rightarrow> u32" where
  "own_qpns s j = hw_qp_num (q_qp (d_qp s (j div 2) (if even j then LOG_QP else CTRL_QP)))"

text \<open>The size of \<^verbatim>\<open>rc_syn_t\<close> is 80 bytes, then two numbers of 4 bytes for each server.\<close>

definition ud_exchange_rc_info :: "dare \<Rightarrow> int result" where
  "ud_exchange_rc_info s =
     (let sz = get_extended_group_size (d_cid s) in
      if mtu_value (dev_mtu (d_dev s)) < 80 + 2 * unat sz * 4 then Ret 1 s
      else mcast_send_message (Msg_rc_syn (own_hdr s (d_request_id s)) (own_syn s sz (own_qpns s))) s)"

definition ud_update_rc_info :: "dare \<Rightarrow> int result" where
  "ud_update_rc_info s =
     (if \<exists>i \<in> set (extended_group s). i \<noteq> d_idx s \<and> server_on s i \<and> \<not> connected s i
      then ud_exchange_rc_info s else Ret 0 s)"

text \<open>The data of a remote server taken from its \<open>SYN\<close> or \<open>SYNACK\<close>, with its queue pair numbers.\<close>

definition set_rc_data :: "nat \<Rightarrow> rc_syn_t \<Rightarrow> u32 \<Rightarrow> u32 \<Rightarrow> dare \<Rightarrow> dare" where
  "set_rc_data i msg log_qpn ctrl_qpn s =
     upd_qp i CTRL_QP (\<lambda>q. q\<lparr>q_qpn := ctrl_qpn\<rparr>) (upd_qp i LOG_QP (\<lambda>q. q\<lparr>q_qpn := log_qpn\<rparr>)
       (upd_ep i (\<lambda>e. e\<lparr>ep_rmt_mr := (ep_rmt_mr e)(LOG_QP := sy_log_rm msg, CTRL_QP := sy_ctrl_rm msg),
                        ep_mtu := (if sy_mtu msg > dev_mtu (d_dev s) then dev_mtu (d_dev s) else sy_mtu msg)\<rparr>) s))"

text \<open>The queue pair for control, and for a leader also the one for the log.\<close>

definition connect_qps :: "nat \<Rightarrow> dare \<Rightarrow> int \<times> dare" where
  "connect_qps i s =
     (case rc_connect_server i CTRL_QP s of (rc, s) \<Rightarrow>
        if rc \<noteq> 0 then (1, s)
        else if SID_GET_L (d_sid s) \<and> SID_GET_IDX (d_sid s) = cf_idx (d_config s) then
          case rc_connect_server i LOG_QP s of (rc, s) \<Rightarrow> if rc \<noteq> 0 then (1, s) else (0, s)
        else (0, s))"

definition connections :: "dare \<Rightarrow> nat" where
  "connections s = length (filter (\<lambda>i. i \<noteq> d_idx s \<and> server_on s i \<and> connected s i) (group s))"

definition handle_rc_syn :: "ud_wc \<Rightarrow> ud_hdr_t \<Rightarrow> rc_syn_t \<Rightarrow> dare \<Rightarrow> int result" where
  "handle_rc_syn wc hdr msg s =
     (let i = unat (sy_idx msg); idx = d_idx s in
      if \<not> server_on s i then Ret 0 s
      else if cf_idx (d_config s) \<ge> sy_size msg then Ret 0 s
      else
        case (if connected s i then (0, s)
              else connect_qps i (set_rc_data i msg (sy_data msg (2 * idx)) (sy_data msg (2 * idx + 1))
                     (wc_to_ud_ep i wc (h_gid hdr) (h_slid hdr) s))) of (rc, s) \<Rightarrow>
          if rc \<noteq> 0 then Ret 1 s
          else
            bnd (ud_send_message (ep_ud (d_ep s i))
                   (Msg_rc_synack (own_hdr s (h_id hdr)) (own_syn s 1 (\<lambda>j. if j < 2 then own_qpns s (2 * i + j) else 0))) s)
              (\<lambda>rc s. if rc \<noteq> 0 then Ret 1 s else Ret 0 s))"

definition handle_rc_synack :: "ud_wc \<Rightarrow> ud_hdr_t \<Rightarrow> rc_syn_t \<Rightarrow> dare \<Rightarrow> int result" where
  "handle_rc_synack wc hdr msg s =
     (let i = unat (sy_idx msg); fresh = \<not> connected s i in
      if \<not> server_on s i then Ret 0 s
      else
        case (if connected s i then (0, s)
              else connect_qps i (upd_ep i (\<lambda>e. e\<lparr>ep_rc_connected := True\<rparr>)
                     (set_rc_data i msg (sy_data msg 0) (sy_data msg 1)
                        (wc_to_ud_ep i wc (h_gid hdr) (h_slid hdr) s)))) of (rc, s) \<Rightarrow>
          if rc \<noteq> 0 then Ret 1 s
          else
            let ret = (if fresh \<and> connections s \<ge> unat (get_group_size (d_cid s)) div 2 then REQ_MAJORITY else 0) in
            bnd (ud_send_message (ep_ud (d_ep s i)) (Msg_rc_ack (bare_hdr (h_id hdr)) (cf_idx (d_config s))) s)
              (\<lambda>rc s. if rc \<noteq> 0 then Ret 1 s else Ret ret s))"

definition handle_rc_ack :: "u8 \<Rightarrow> dare \<Rightarrow> int \<times> dare" where
  "handle_rc_ack idx s =
     (let i = unat idx in
      if \<not> server_on s i then (0, s)
      else if connected s i then (0, s)
      else
        let s = upd_ep i (\<lambda>e. e\<lparr>ep_rc_connected := True\<rparr>) s
        in if connections s < unat (get_group_size (d_cid s)) div 2 then (0, s) else (REQ_MAJORITY, s))"

subsection \<open>Receiving\<close>

definition handle_message_from_client :: "ud_wc \<Rightarrow> ud_msg \<Rightarrow> dare \<Rightarrow> u8 result" where
  "handle_message_from_client wc msg s =
     (case msg of
        Msg_join hdr \<Rightarrow>
          if \<not> is_leader s then Ret JOIN s
          else bnd (handle_server_join_request wc hdr s) (\<lambda>rc s. Ret (if rc \<noteq> 0 then MSG_ERROR else JOIN) s)
      | Msg_rc_syn hdr syn \<Rightarrow>
          bnd (handle_rc_syn wc hdr syn s) (\<lambda>rc s. Ret (if rc \<noteq> 0 then MSG_ERROR else MSG_NONE) s)
      | Msg_rc_synack hdr syn \<Rightarrow>
          bnd (handle_rc_synack wc hdr syn s)
            (\<lambda>rc s. Ret (if rc = REQ_MAJORITY then RC_SYNACK else if rc \<noteq> 0 then MSG_ERROR else MSG_NONE) s)
      | Msg_rc_ack hdr idx \<Rightarrow>
          (case handle_rc_ack idx s of (rc, s) \<Rightarrow>
             Ret (if rc = REQ_MAJORITY then RC_ACK else if rc \<noteq> 0 then MSG_ERROR else MSG_NONE) s)
      | Msg_cfg_reply hdr reply \<Rightarrow> Ret CFG_REPLY (handle_server_join_reply hdr reply s)
      | Msg_csm_reply hdr len data \<Rightarrow> Ret CSM_REPLY s
      | Msg_other type hdr \<Rightarrow> Ret type s)"

text \<open>Messages of the own LID and completions that are not receives are passed over.\<close>

fun ud_recv_loop :: "ud_recv option list \<Rightarrow> dare \<Rightarrow> u8 result" where
  "ud_recv_loop [] s = Ret MSG_NONE (s\<lparr>d_ud_recvs := []\<rparr>)"
| "ud_recv_loop (r # rs) s =
     (let s = s\<lparr>d_ud_recvs := rs\<rparr> in
      case r of
        None \<Rightarrow> Ret MSG_NONE s
      | Some Ud_poll_error \<Rightarrow> Ret MSG_ERROR s
      | Some Ud_bad_status \<Rightarrow> Ret MSG_ERROR s
      | Some (Ud_no_recv wc) \<Rightarrow> ud_recv_loop rs s
      | Some (Ud_recv wc msg) \<Rightarrow>
          if uw_slid wc = dev_lid (d_dev s) then ud_recv_loop rs s
          else handle_message_from_client wc msg s)"

definition ud_get_message :: "dare \<Rightarrow> u8 result" where
  "ud_get_message s = ud_recv_loop (d_ud_recvs s) s"

end
