(* ===== verification/Apply.thy ===== *)
theory Apply
  imports Ud
begin

text \<open>
  The normal operation of \<^verbatim>\<open>dare_server.c\<close>: replication of new entries, application of the committed
  ones, pruning of the log, and the search for configuration entries.
\<close>

subsection \<open>Walking through the log\<close>

text \<open>
  A loop over log entries is a \<open>partial_function\<close>; when it does not end, the caller hangs.
\<close>

definition of_loop :: "dare \<Rightarrow> 'a result option \<Rightarrow> 'a result" where
  "of_loop s r = (case r of None \<Rightarrow> Hang s | Some r \<Rightarrow> r)"

text \<open>The treatment of one entry by \<^verbatim>\<open>poll_config_entries\<close>: the result is the new head offset.\<close>

definition poll_config_entry :: "u64 \<Rightarrow> u64 \<Rightarrow> u64 \<Rightarrow> u64 \<Rightarrow> dare \<Rightarrow> u64 result" where
  "poll_config_entry commit offset entry head_offset s =
     (let m = l_mem (d_log s); e = unat entry in
      if entry_type m e = CONFIG then
        if entry_idx m e > cf_cid_idx (d_config s) then
          bnd (update_cid (entry_cid m e) s)
            (\<lambda>rc s. Ret head_offset
               (if rc = 0 then upd_config (\<lambda>c. c\<lparr>cf_req_id := entry_req_id m e, cf_clt_id := entry_clt_id m e\<rparr>) s else s))
        else Ret head_offset s
      else if entry_type m e = HEAD then
        if \<not> log_is_offset_larger (d_log s) offset commit then Ret (entry_head m e) (clear_flag SNAPSHOT s)
        else Ret head_offset s
      else Ret head_offset s)"

partial_function (option) poll_config_loop :: "u64 \<Rightarrow> u64 \<Rightarrow> u64 \<Rightarrow> dare \<Rightarrow> (u64 \<times> u64) result option" where
  [code]: "poll_config_loop commit offset head_offset s =
     (if log_offset_end_distance (d_log s) offset = 0 then Some (Ret (offset, head_offset) s)
      else case log_get_entry (d_log s) offset of
        (None, _) \<Rightarrow> Some (Fault s)
      | (Some entry, offset) \<Rightarrow>
          if \<not> log_fit_entry (d_log s) offset entry then poll_config_loop commit 0 head_offset s
          else case poll_config_entry commit offset entry head_offset s of
            Ret head_offset s \<Rightarrow>
              poll_config_loop commit (offset + ucast (log_entry_len (d_log s) entry)) head_offset s
          | Shutdown s \<Rightarrow> Some (Shutdown s)
          | Exit s \<Rightarrow> Some (Exit s)
          | Hang s \<Rightarrow> Some (Hang s)
          | Fault s \<Rightarrow> Some (Fault s))"

definition poll_config_entries :: "dare \<Rightarrow> unit result" where
  "poll_config_entries s =
     (let commit = l_commit (d_log s) in
      bnd (of_loop s (poll_config_loop commit (cf_cid_offset (d_config s)) (l_head (d_log s)) s))
        (\<lambda>(offset, head_offset) s.
         let s = upd_config (\<lambda>c. c\<lparr>cf_cid_offset :=
                   (if log_is_offset_larger (d_log s) offset commit then commit else offset)\<rparr>) s
         in Ret () (if log_is_offset_larger (d_log s) head_offset (l_head (d_log s))
                    then upd_log (\<lambda>l. l\<lparr>l_head := head_offset\<rparr>) s else s)))"

subsection \<open>Replication\<close>

text \<open>Whether a server of the group is behind: the loop of \<^verbatim>\<open>commit_new_entries\<close> stops at the first one.\<close>

definition server_behind :: "dare \<Rightarrow> nat \<Rightarrow> bool" where
  "server_behind s i \<longleftrightarrow>
     i \<noteq> d_idx s \<and> server_on s i \<and> \<not> suspected s i \<and> \<not> no_vote_ack s i \<and>
     (s_next_lr_step (d_server s i) \<noteq> LR_UPDATE_LOG \<or> lo_end (c_log_offsets (d_ctrl s) i) \<noteq> l_end (d_log s))"

definition commit_new_entries :: "dare \<Rightarrow> unit result" where
  "commit_new_entries s =
     (if log_offset_end_distance (d_log s) (l_commit (d_log s)) \<noteq> 0
      then bnd (rc_write_remote_logs True s) (\<lambda>_ s. Ret () s)
      else if \<not> is_log_empty (d_log s) \<and> (\<exists>i \<in> set (group s). server_behind s i)
      then bnd (rc_write_remote_logs False s) (\<lambda>_ s. Ret () s)
      else Ret () s)"

subsection \<open>Application of committed entries\<close>

text \<open>The command types are all those that are not used by the protocol itself.\<close>

definition is_cmd :: "u8 \<Rightarrow> bool" where
  "is_cmd ty \<longleftrightarrow> ty \<noteq> CONFIG \<and> ty \<noteq> NOOP \<and> ty \<noteq> HEAD"

definition apply_cmd_entry :: "nat \<Rightarrow> dare \<Rightarrow> dare" where
  "apply_cmd_entry e s =
     (let m = l_mem (d_log s) in
      if \<not> is_cmd (entry_type m e) then s
      else
        let s = (if \<not> is_leader s
                 then s\<lparr>d_proxy := do_action_to_server (entry_clt_id m e) (entry_type m e)
                          (unat (entry_cmd_len m e)) (\<lambda>i. m (e + 34 + i)) (d_proxy s)\<rparr>
                 else s\<lparr>d_proxy := update_highest_rec (d_proxy s)\<rparr>)
        in s\<lparr>d_last_applied_entry := \<lparr>det_idx = entry_idx m e, det_term = entry_term m e,
               det_offset = l_apply (d_log s) + ucast (log_entry_len (d_log s) (of_nat e))\<rparr>,
             d_last_cmt_write_csm_idx := entry_idx m e\<rparr>)"

text \<open>
  The move to a stable configuration after a transitional one: the servers that are too many are
  removed, and the local server notes that it has to stop if it is one of them.
\<close>

definition remove_server :: "nat \<Rightarrow> dare \<Rightarrow> dare" where
  "remove_server i s =
     (let rm = upd_config (\<lambda>c. c\<lparr>cf_cid := CID_SERVER_RM (cf_cid c) i\<rparr>) in
      if i = d_idx s then rm (set_flag DIE_AF_COMMIT s)
      else if \<not> server_on s i then s
      else snd (rc_disconnect_server i (rm s)))"

definition shrink_group :: "nat list \<Rightarrow> dare \<Rightarrow> dare" where
  "shrink_group is s =
     (let s = upd_config (\<lambda>c. c\<lparr>cf_cid := (cf_cid c)\<lparr>cid_state := CID_STABLE\<rparr>\<rparr>) s;
          s = fold remove_server is s
      in upd_config (\<lambda>c. c\<lparr>cf_cid := (cf_cid c)\<lparr>cid_size0 := cid_size1 (cf_cid c), cid_size1 := 0\<rparr>\<rparr>) s)"

text \<open>A configuration entry, seen by the leader.\<close>

definition apply_config_entry :: "nat \<Rightarrow> dare \<Rightarrow> unit result" where
  "apply_config_entry e s =
     (let m = l_mem (d_log s); cid = entry_cid m e; req_id = entry_req_id m e; clt_id = entry_clt_id m e in
      if cid_state cid = CID_STABLE then
        if req_id \<noteq> 0 then
          bnd (ud_send_clt_reply clt_id req_id s)
            (\<lambda>_ s. if has_flag DIE_AF_COMMIT s then Shutdown s else Ret () s)
        else Ret () s
      else if cid_epoch (d_cid s) > cid_epoch cid then Ret () s
      else
        bnd (if cid_state cid = CID_EXTENDED then
               let s = upd_config (\<lambda>c. c\<lparr>cf_cid := (cf_cid c)\<lparr>cid_state := CID_TRANSIT\<rparr>\<rparr>) s in
               if req_id \<noteq> 0 then bnd (ud_send_clt_reply clt_id req_id s) (\<lambda>_ s. Ret (0, 0) s)
               else Ret (req_id, clt_id) s
             else if cid_state cid = CID_TRANSIT then Ret (req_id, clt_id) (shrink_group [unat (cid_size1 (d_cid s))..<unat (cid_size0 (d_cid s))] s)
             else Ret (req_id, clt_id) s)
          (\<lambda>(req_id, clt_id) s.
             bnd (append_config req_id clt_id (upd_config (\<lambda>c. c\<lparr>cf_req_id := req_id, cf_clt_id := clt_id\<rparr>) s))
               (\<lambda>_ s. Ret () s)))"

definition apply_one :: "nat \<Rightarrow> dare \<Rightarrow> unit result" where
  "apply_one e s =
     (let ty = entry_type (l_mem (d_log s)) e in
      if is_leader s \<and> (ty = NOOP \<or> ty = HEAD) then Ret () s
      else if is_leader s \<and> ty = CONFIG then apply_config_entry e s
      else Ret () (apply_cmd_entry e s))"

partial_function (option) apply_loop :: "dare \<Rightarrow> unit result option" where
  [code]: "apply_loop s =
     (if \<not> log_is_offset_larger (d_log s) (l_commit (d_log s)) (l_apply (d_log s)) then Some (Ret () s)
      else case log_get_entry (d_log s) (l_apply (d_log s)) of
        (None, _) \<Rightarrow> Some (Fault s)
      | (Some entry, offset) \<Rightarrow>
          let s = upd_log (\<lambda>l. l\<lparr>l_apply := offset\<rparr>) s in
          if \<not> log_fit_entry (d_log s) offset entry then apply_loop (upd_log (\<lambda>l. l\<lparr>l_apply := 0\<rparr>) s)
          else case apply_one (unat entry) s of
            Ret _ s \<Rightarrow> apply_loop (upd_log (\<lambda>l. l\<lparr>l_apply := l_apply l + ucast (log_entry_len l entry)\<rparr>) s)
          | Shutdown s \<Rightarrow> Some (Shutdown s)
          | Exit s \<Rightarrow> Some (Exit s)
          | Hang s \<Rightarrow> Some (Hang s)
          | Fault s \<Rightarrow> Some (Fault s))"

definition apply_committed_entries :: "dare \<Rightarrow> unit result" where
  "apply_committed_entries s =
     (let old_apply = l_apply (d_log s) in
      bnd (of_loop s (apply_loop s))
        (\<lambda>_ s. if old_apply \<noteq> l_apply (d_log s) \<and> is_leader s
               then ep_dp_reply_read_req (d_last_cmt_write_csm_idx s) s else Ret () s))"

subsection \<open>Log pruning\<close>

text \<open>
  The loop over the servers: the apply offset of a server that is off is set to the local one, and
  the smallest offset is kept.
\<close>

definition prune_turn :: "nat \<Rightarrow> u64 \<times> dare \<Rightarrow> u64 \<times> dare" where
  "prune_turn i st =
     (case st of (min_offset, s) \<Rightarrow>
        let s = (if server_on s i then s
                 else upd_ctrl (\<lambda>c. c\<lparr>c_apply_offsets := (c_apply_offsets c)(i := l_apply (d_log s))\<rparr>) s);
            offset = c_apply_offsets (d_ctrl s) i
        in (if log_is_offset_larger (d_log s) min_offset offset then offset else min_offset, s))"

definition prune_min :: "dare \<Rightarrow> u64 \<times> dare" where
  "prune_min s = fold prune_turn (extended_group s) (l_apply (d_log s), s)"

definition advance_head :: "u64 \<Rightarrow> dare \<Rightarrow> unit result" where
  "advance_head min_offset s =
     (if log_is_offset_larger (d_log s) min_offset (l_head (d_log s)) \<and> d_prev_log_entry_head s = 0 then
        bnd (append_entry 0 0 HEAD (head_mem min_offset)
               (clear_flag SNAPSHOT (upd_log (\<lambda>l. l\<lparr>l_head := min_offset\<rparr>) s)))
          (\<lambda>_ s. Ret () (s\<lparr>d_prev_log_entry_head := 1\<rparr>))
      else Ret () s)"

text \<open>When all entries are applied everywhere, the last one is kept, so that its index is not lost.\<close>

definition prune_head :: "dare \<Rightarrow> unit result" where
  "prune_head s =
     (case prune_min s of (min_offset, s) \<Rightarrow>
        bnd (if log_offset_end_distance (d_log s) min_offset = 0
             then (case log_get_tail (d_log s) of None \<Rightarrow> Hang s | Some tail \<Rightarrow> Ret tail s)
             else Ret min_offset s)
          (\<lambda>min_offset s. advance_head min_offset s))"

definition log_pruning :: "dare \<Rightarrow> int result" where
  "log_pruning s =
     (if \<not> is_leader s then Ret 0 s
      else bnd (prune_head s)
             (\<lambda>_ s. bnd (rc_get_remote_apply_offsets s)
                (\<lambda>rc s. if rc \<noteq> 0 then Ret 1 s else Ret 0 s)))"

text \<open>The slowest server: the one with the smallest apply offset, or the local one.\<close>

definition slowest :: "dare \<Rightarrow> nat" where
  "slowest s =
     snd (fold (\<lambda>i (min_offset, target).
            if log_is_offset_larger (d_log s) min_offset (c_apply_offsets (d_ctrl s) i)
            then (c_apply_offsets (d_ctrl s) i, i) else (min_offset, target))
          (extended_group s) (l_apply (d_log s), d_idx s))"

text \<open>
  A server that is too slow is removed when the log is three quarters full. The code then sets the
  apply offset at the index behind the last server, not that of the removed one.
\<close>

definition force_log_pruning :: "dare \<Rightarrow> unit result" where
  "force_log_pruning s =
     (let log_size = log_offset_end_distance (d_log s) (l_head (d_log s)); target = slowest s;
          last = length (extended_group s)
      in if 4 * unat log_size < 3 * unat (l_len (d_log s)) then Ret () s
         else if target \<noteq> d_idx s then
           if \<not> server_on s target then bnd (log_pruning s) (\<lambda>_ s. Ret () s)
           else
             let s = upd_config (\<lambda>c. c\<lparr>cf_cid := CID_SERVER_RM (cf_cid c) target\<rparr>) s;
                 s = snd (rc_disconnect_server target s);
                 s = upd_config (\<lambda>c. c\<lparr>cf_req_id := 0, cf_clt_id := 0\<rparr>) s
             in bnd (append_config 0 0 s)
                  (\<lambda>_ s.
                   let s = upd_ctrl (\<lambda>c. c\<lparr>c_apply_offsets := (c_apply_offsets c)(last := l_apply (d_log s))\<rparr>) s
                   in bnd (log_pruning s) (\<lambda>_ s. Ret () s))
         else bnd (log_pruning s) (\<lambda>_ s. Ret () s))"

end
