(* ===== verification/Vote.thy ===== *)
theory Vote
  imports Apply
begin

text \<open>
  Leader election in \<^verbatim>\<open>dare_server.c\<close>: the counting of votes by a candidate, its steps to leadership,
  and the treatment of vote requests by the other servers.
\<close>

subsection \<open>Counting votes\<close>

text \<open>
  The answer of a server, if there is one, is counted for the old and for the new size of the group;
  its commit offset is stored, and may raise the local one.
\<close>

definition count_vote :: "nat \<Rightarrow> u8 \<times> u8 \<times> dare \<Rightarrow> u8 \<times> u8 \<times> dare" where
  "count_vote i st =
     (case st of (v0, v1, s) \<Rightarrow>
        if i = d_idx s then st
        else if no_vote_ack s i then st
        else
          let remote_commit = c_vote_ack (d_ctrl s) i
          in (if i < unat (cid_size0 (d_cid s)) then v0 + 1 else v0,
              if i < unat (cid_size1 (d_cid s)) then v1 + 1 else v1,
              raise_commit remote_commit (set_lr_step i LR_GET_NCE_LEN (set_commit_of i remote_commit s))))"

definition count_votes :: "dare \<Rightarrow> u8 \<times> u8 \<times> dare" where
  "count_votes s = fold count_vote (group s) (1, 1, s)"

definition enough_votes :: "u8 \<Rightarrow> u8 \<Rightarrow> dare_cid_t \<Rightarrow> bool" where
  "enough_votes v0 v1 cid \<longleftrightarrow>
     \<not> unat v0 < unat (cid_size0 cid) div 2 + 1 \<and>
     (cid_state cid \<noteq> CID_STABLE \<longrightarrow> \<not> unat v1 < unat (cid_size1 cid) div 2 + 1)"

subsection \<open>Winning an election\<close>

text \<open>
  In an unstable configuration the new leader looks for a configuration entry that is not applied.
  The result is the offset where the search stopped and the entry looked at last, which is not set
  when the loop does not run.
\<close>

partial_function (option) config_search :: "u64 \<Rightarrow> u64 option \<Rightarrow> dare \<Rightarrow> (u64 \<times> u64 option) option" where
  [code]: "config_search offset seen s =
     (if log_offset_end_distance (d_log s) offset = 0 then Some (offset, seen)
      else case log_get_entry (d_log s) offset of
        (None, offset) \<Rightarrow> Some (offset, None)
      | (Some entry, offset) \<Rightarrow>
          let m = l_mem (d_log s); e = unat entry in
          if \<not> log_fit_entry (d_log s) offset entry then config_search 0 (Some entry) s
          else if entry_type m e = CONFIG \<and> entry_idx m e > cf_cid_idx (d_config s) then Some (offset, Some entry)
          else config_search (offset + ucast (log_entry_len (d_log s) entry)) (Some entry) s)"

text \<open>The first entry of a new leader.\<close>

definition append_first_entry :: "dare \<Rightarrow> u64 result" where
  "append_first_entry s =
     (if cid_state (d_cid s) = CID_STABLE
      then append_config 0 0 (upd_config (\<lambda>c. c\<lparr>cf_req_id := 0, cf_clt_id := 0\<rparr>) s)
      else
        case config_search (cf_cid_offset (d_config s)) None s of
          None \<Rightarrow> Hang s
        | Some (offset, seen) \<Rightarrow>
            if log_offset_end_distance (d_log s) offset \<noteq> 0 then append_entry 0 0 NOOP (\<lambda>_. 0) s
            else
              case seen of
                None \<Rightarrow> Fault s
              | Some entry \<Rightarrow>
                  let sz0 = cid_size0 (d_cid s); sz1 = cid_size1 (d_cid s);
                      s = (if cid_state (entry_cid (l_mem (d_log s)) (unat entry)) = CID_EXTENDED
                           then upd_config (\<lambda>c. c\<lparr>cf_cid := (cf_cid c)\<lparr>cid_state := CID_TRANSIT\<rparr>\<rparr>) s
                           else shrink_group (rev [unat sz1 + 1..<unat (sz0 - 1) + 1]) s)
                  in append_config (cf_req_id (d_config s)) (cf_clt_id (d_config s)) s)"

text \<open>The timers and the log access of a leader.\<close>

definition become_leader :: "dare \<Rightarrow> unit result" where
  "become_leader s =
     (let s = s\<lparr>d_endpoints := ep_dp_reset_wait_idx (d_endpoints s),
                d_hb_event := \<lparr>t_cb = hb_send_cb, t_repeat = Now\<rparr>,
                d_to_adjust_event := (d_to_adjust_event s)\<lparr>t_repeat := Stopped\<rparr>\<rparr>;
          s = fold (\<lambda>i s. upd_ctrl (\<lambda>c. c\<lparr>c_apply_offsets := (c_apply_offsets c)(i := l_head (d_log s))\<rparr>) s)
                (extended_group s) s;
          s = s\<lparr>d_prune_event := (d_prune_event s)\<lparr>t_repeat := Now\<rparr>\<rparr>
      in case rc_restore_log_access (d_uninit_rc s) s of (rc, s) \<Rightarrow> if rc \<noteq> 0 then Exit s else Ret () s)"

definition poll_vote_count :: "dare \<Rightarrow> unit result" where
  "poll_vote_count s =
     (case count_votes s of (v0, v1, s) \<Rightarrow>
        if \<not> enough_votes v0 v1 (d_cid s) then Ret () s
        else
          bnd (server_update_sid (SID_SET_L (d_sid s)) (d_sid s) s)
            (\<lambda>rc s. if rc \<noteq> 0 then Ret () s
             else bnd (poll_config_entries s)
               (\<lambda>_ s. bnd (apply_committed_entries s)
                  (\<lambda>_ s. bnd (append_first_entry s)
                     (\<lambda>idx s. become_leader (s\<lparr>d_last_write_csm_idx := idx\<rparr>))))))"

subsection \<open>Vote requests\<close>

definition drop_request :: "nat \<Rightarrow> dare \<Rightarrow> dare" where
  "drop_request i = upd_ctrl (\<lambda>c. c\<lparr>c_vote_req := (c_vote_req c)(i := (c_vote_req c i)\<lparr>vr_sid := 0\<rparr>)\<rparr>)"

text \<open>The best identifier among the requests; the loop passes over the servers up to the local one.\<close>

definition scan_request :: "nat \<Rightarrow> u64 \<times> dare \<Rightarrow> u64 \<times> dare" where
  "scan_request i st =
     (case st of (best_sid, s) \<Rightarrow>
        if i \<le> d_idx s then st
        else if best_sid \<ge> vr_sid (c_vote_req (d_ctrl s) i) then (best_sid, drop_request i s)
        else (vr_sid (c_vote_req (d_ctrl s) i), s))"

text \<open>Index and term of the last local entry, found in the buffer just published or behind the tail.\<close>

definition local_position :: "dare \<Rightarrow> (u64 \<times> u64) result" where
  "local_position s =
     (let l = d_log s; nc_buf = l_nc_buf l (d_idx s) in
      if nc_len nc_buf = 0 then
        case log_get_tail l of
          None \<Rightarrow> Hang s
        | Some tail \<Rightarrow>
            if tail = l_len l then Ret (0, 0) s
            else case fst (log_get_entry l tail) of
                   None \<Rightarrow> Fault s
                 | Some e \<Rightarrow> Ret (entry_idx (l_mem l) (unat e), entry_term (l_mem l) (unat e)) s
      else
        let d = nc_entries nc_buf (unat (nc_len nc_buf - 1)) in Ret (det_idx d, det_term d) s)"

text \<open>One turn of the choice of the best candidate, with the highest term seen.\<close>

definition choose_turn :: "nat \<Rightarrow> vote_req_t \<times> u64 \<times> dare \<Rightarrow> vote_req_t \<times> u64 \<times> dare" where
  "choose_turn i st =
     (case st of (best, highest_term, s) \<Rightarrow>
        let request = c_vote_req (d_ctrl s) i in
        if vr_sid best > vr_sid request then (best, highest_term, drop_request i s)
        else
          let highest_term = (if highest_term < SID_GET_TERM (vr_sid request) then SID_GET_TERM (vr_sid request)
                              else highest_term)
          in if vr_term best > vr_term request \<or> (vr_term best = vr_term request \<and> vr_index best > vr_index request)
             then (best, highest_term, drop_request i s)
             else (request, highest_term, drop_request i s))"

text \<open>The vote for the chosen candidate.\<close>

definition give_vote :: "vote_req_t \<Rightarrow> dare \<Rightarrow> unit result" where
  "give_vote best s =
     (let s = s\<lparr>d_hb_event := (d_hb_event s)\<lparr>t_repeat := Stopped\<rparr>\<rparr> in
      bnd (server_update_sid (vr_sid best) (d_sid s) s)
        (\<lambda>rc s. if rc \<noteq> 0 then Ret () s
         else bnd (update_cid (vr_cid best) s)
           (\<lambda>_ s. bnd (rc_replicate_vote s)
              (\<lambda>rc s. if rc \<noteq> 0 then Exit s
               else
                 case rc_restore_log_access (d_uninit_rc s) (follower_timers s) of (rc, s) \<Rightarrow>
                   if rc \<noteq> 0 then Exit s
                   else bnd (rc_send_vote_ack s)
                          (\<lambda>rc s. if rc < 0 then start_election s
                                  else if rc \<noteq> 0 then Exit s else Ret () (receive_heartbeats s))))))"

text \<open>No candidate is good enough: the local term is raised to the highest one seen.\<close>

definition raise_term :: "u64 \<Rightarrow> dare \<Rightarrow> unit result" where
  "raise_term highest_term s =
     bnd (server_update_sid (SID_SET_IDX (SID_SET_TERM (d_sid s) highest_term) (cf_idx (d_config s))) (d_sid s) s)
       (\<lambda>_ s. Ret () s)"

definition consider_requests :: "u64 \<Rightarrow> u64 \<Rightarrow> dare \<Rightarrow> unit result" where
  "consider_requests old_sid best_sid s =
     (case rc_revoke_log_access s of (rc, s) \<Rightarrow>
        if rc \<noteq> 0 then Exit s
        else bnd (publish_nc_buf s)
          (\<lambda>_ s. bnd (local_position s)
             (\<lambda>(index, trm) s.
              let best = \<lparr>vr_sid = old_sid, vr_index = index, vr_term = trm, vr_cid = zero_cid\<rparr>
              in case fold choose_turn (group s) (best, SID_GET_TERM best_sid, s) of (best, highest_term, s) \<Rightarrow>
                   if vr_sid best = old_sid then raise_term highest_term s else give_vote best s)))"

definition poll_vote_requests :: "dare \<Rightarrow> unit result" where
  "poll_vote_requests s =
     (if SID_GET_L (d_sid s) then Ret () s
      else
        let hb = c_hb (d_ctrl s) (unat (SID_GET_IDX (d_sid s))) in
        if hb \<noteq> 0 \<and> SID_GET_TERM hb = SID_GET_TERM (d_sid s)
        then bnd (server_update_sid hb (d_sid s) s) (\<lambda>_ s. Ret () s)
        else
          let old_sid = SID_SET_L (d_sid s) in
          case fold scan_request (group s) (old_sid, s) of (best_sid, s) \<Rightarrow>
            if best_sid = old_sid then Ret () s else consider_requests old_sid best_sid s)"

end
