(* ===== verification/Events.thy ===== *)
theory Events
  imports Vote
begin

text \<open>
  The callbacks of the event loop of \<^verbatim>\<open>dare_server.c\<close>: start-up and recovery, heart-beats, and the idle
  callback that polls for everything else. A timer with a repeat value other than 0 fires again and
  again; a callback that stops or rearms its timer changes that value.
\<close>

definition set_timer :: "duration \<Rightarrow> dare \<Rightarrow> dare" where
  "set_timer d s = s\<lparr>d_timer_event := (d_timer_event s)\<lparr>t_repeat := d\<rparr>\<rparr>"

definition set_timer_cb :: "callback \<Rightarrow> duration \<Rightarrow> dare \<Rightarrow> dare" where
  "set_timer_cb cb d s = s\<lparr>d_timer_event := \<lparr>t_cb = cb, t_repeat = d\<rparr>\<rparr>"

text \<open>A callback that shuts the server down on an error code, and else repeats after a period.\<close>

definition retry_after :: "duration \<Rightarrow> int result \<Rightarrow> unit result" where
  "retry_after d r = bnd r (\<lambda>rc s. if rc \<noteq> 0 then Shutdown (set_timer Stopped s) else Ret () (set_timer d s))"

subsection \<open>Starting up\<close>

text \<open>
  The argument \<open>ib_init\<close> stands for the set-up of the device, of the endpoints, of the reliable and of
  the datagram queue pairs in \<^verbatim>\<open>dare_ibv.c\<close>.
\<close>

definition init_network :: "(dare \<Rightarrow> int \<times> dare) \<Rightarrow> dare \<Rightarrow> unit result" where
  "init_network ib_init s =
     (case ib_init s of (rc, s) \<Rightarrow>
        if rc \<noteq> 0 then Shutdown (set_timer Stopped s)
        else
          let s = set_flag INIT s in
          if in_srv_type (d_input s) = SRV_TYPE_JOIN then Ret () (set_timer_cb join_cluster_cb Now s)
          else if cid_size0 (d_cid s) = 1 then
            Ret () (set_timer Stopped
              (upd_ctrl (\<lambda>c. c\<lparr>c_sid := SID_SET_IDX (SID_SET_L (SID_SET_TERM (c_sid c) 1)) 0\<rparr>) s))
          else Ret () (set_timer_cb exchange_rc_info_cb Now s))"

definition join_cluster :: "dare \<Rightarrow> unit result" where
  "join_cluster s = retry_after Retransmit_period (ud_join_cluster s)"

definition exchange_rc_info :: "dare \<Rightarrow> unit result" where
  "exchange_rc_info s = retry_after Retransmit_period (ud_exchange_rc_info s)"

definition update_rc_info :: "dare \<Rightarrow> unit result" where
  "update_rc_info s = retry_after Rc_info_period (ud_update_rc_info s)"

text \<open>The test for an error is \<^verbatim>\<open>rc > 1\<close> here and in two more places, although the error code is 1.\<close>

definition get_replicated_vote :: "dare \<Rightarrow> unit result" where
  "get_replicated_vote s =
     (let s = upd_ctrl (\<lambda>c. c\<lparr>c_sid := SID_SET_L (SID_SET_IDX (SID_SET_TERM (c_sid c) 0) (cf_idx (d_config s)))\<rparr>) s;
          next = set_timer_cb send_sm_request_cb Now
      in if cid_size0 (d_cid s) = 2 then Ret () (next s)
         else bnd (rc_get_replicated_vote s)
                (\<lambda>rc s. if rc > 1 then Shutdown (set_timer Stopped s)
                        else if rc \<noteq> 0 then Ret () (set_timer Retransmit_period s) else Ret () (next s)))"

definition send_sm_request :: "dare \<Rightarrow> unit result" where
  "send_sm_request s = retry_after Retransmit_period (rc_send_sm_request s)"

text \<open>
  The snapshot that a request for the state machine asks for: made from the records unless there is
  one, in the preregistered buffer if it fits. The variables of the loop are the pointer, which is not
  set at first, and whether its memory has to be registered.
\<close>

definition make_snapshot :: "dare \<Rightarrow> (snapshot_ptr \<times> bool) result" where
  "make_snapshot s =
     (let len = stablestorage_get_records_len (d_proxy s) in
      bnd (if len \<le> PREREG_SNAPSHOT_SIZE then Ret (Prereg, False) s
           else case posix_memalign s of (None, s) \<Rightarrow> Shutdown s | (Some a, s) \<Rightarrow> Ret (Allocated a, True) s)
        (\<lambda>(snapshot, reg_mem) s.
           case stablestorage_dump_records (sn_data (d_snapshot s)) (d_proxy s) of
             None \<Rightarrow> Fault s
           | Some data \<Rightarrow>
               Ret (snapshot, reg_mem)
                 (set_flag SNAPSHOT (s\<lparr>d_snapshot := \<lparr>sn_last_entry = d_last_applied_entry s, sn_len = len, sn_data = data\<rparr>\<rparr>))))"

definition poll_sm_requests :: "dare \<Rightarrow> unit result" where
  "poll_sm_requests s =
     bnd (loop (group s)
            (\<lambda>i (snapshot, reg_mem) s.
               if i = d_idx s then Ret (Inr (snapshot, reg_mem)) s
               else if c_sm_req (d_ctrl s) i = 0 then Ret (Inr (snapshot, reg_mem)) s
               else
                 let s = upd_ctrl (\<lambda>c. c\<lparr>c_sm_req := (c_sm_req c)(i := 0)\<rparr>) s in
                 bnd (if has_flag SNAPSHOT s then Ret (snapshot, reg_mem) s
                      else bnd (make_snapshot s) (\<lambda>(p, r) s. Ret (p, reg_mem \<or> r) s))
                   (\<lambda>(snapshot, reg_mem) s.
                      bnd (rc_send_sm_reply i snapshot reg_mem s)
                        (\<lambda>rc s. if rc \<noteq> 0 then Shutdown s else Ret (Inr (snapshot, reg_mem)) s)))
            (Uninitialised, False) s)
       (\<lambda>(_ :: unit + snapshot_ptr \<times> bool) s. Ret () s)"

text \<open>The first server with a usable reply.\<close>

definition good_reply :: "dare \<Rightarrow> nat \<Rightarrow> bool" where
  "good_reply s i \<longleftrightarrow>
     i \<noteq> d_idx s \<and>
     (let reply = c_sm_rep (d_ctrl s) i in
      sr_sid reply > d_sid s \<and> sr_raddr reply \<noteq> 0 \<and> sr_rkey reply \<noteq> 0 \<and> sr_len reply \<noteq> 0)"

definition poll_sm_reply :: "dare \<Rightarrow> unit result" where
  "poll_sm_reply s =
     (case filter (good_reply s) (group s) of
        [] \<Rightarrow> Ret () s
      | target # _ \<Rightarrow>
          let s = upd_ctrl (\<lambda>c. c\<lparr>c_sid := sr_sid (c_sm_rep c target)\<rparr>) s in
          bnd (rc_recover_sm target s)
            (\<lambda>rc s. if rc > 1 then Shutdown s
             else if rc \<noteq> 0 then Ret () s
             else
               let s = upd_ctrl (\<lambda>c. c\<lparr>c_sm_rep := (\<lambda>i. if i < MAX_SERVER_COUNT
                         then \<lparr>sr_sid = 0, sr_raddr = 0, sr_rkey = 0, sr_len = 0\<rparr> else c_sm_rep c i)\<rparr>) s
               in Ret () (set_timer_cb recover_log_cb Now (set_flag SM_RECOVERED s))))"

definition recover_log :: "dare \<Rightarrow> unit result" where
  "recover_log s =
     bnd (rc_recover_log s)
       (\<lambda>rc s. if rc > 1 then Shutdown (set_timer Stopped s)
        else if rc \<noteq> 0 then Ret () (set_timer Retransmit_period s)
        else
          let s = set_timer_cb update_rc_info_cb Rc_info_period (set_flag LOG_RECOVERED s)
          in if SID_GET_TERM (d_sid s) = 0 then start_election s else server_to_follower s)"

subsection \<open>Heart-beats\<close>

text \<open>The atomic read of a heart-beat, which resets it.\<close>

definition fetch_hb :: "nat \<Rightarrow> dare \<Rightarrow> u64 \<times> dare" where
  "fetch_hb i s = (c_hb (d_ctrl s) i, upd_ctrl (\<lambda>c. c\<lparr>c_hb := (c_hb c)(i := 0)\<rparr>) s)"

text \<open>
  The adjustment of the timeout. The static counters are part of the state; a false positive adds a
  whole period, and the test on the rate of false positives is \<open>fp / total < 0.0001\<close>.
\<close>

definition to_adjust :: "dare \<Rightarrow> dare" where
  "to_adjust s =
     (let stop = (\<lambda>s. s\<lparr>d_to_adjust_event := (d_to_adjust_event s)\<lparr>t_repeat := Stopped\<rparr>\<rparr>) in
      if hb_timeout_flag (d_hb s) then stop s
      else
        let s = s\<lparr>d_hb := (d_hb s)\<lparr>total_count := total_count (d_hb s) + 1\<rparr>\<rparr>
        in case fetch_hb (unat (SID_GET_IDX (d_sid s))) s of (hb, s) \<Rightarrow>
          let h = d_hb s;
              h = (if hb \<noteq> 0 then
                     let h = h\<lparr>latest_hb_received := hb\<rparr> in
                     if leader_failed h
                     then h\<lparr>fp_count := fp_count h + 1, leader_failed := False,
                            recomputed_hb_timeout := recomputed_hb_timeout h + 10\<rparr>
                     else h
                   else h\<lparr>leader_failed := True\<rparr>)
          in if total_count h > 100000 \<and> unat (fp_count h) * 10000 < unat (total_count h)
             then stop (s\<lparr>d_hb := h\<lparr>hb_timeout_flag := True\<rparr>\<rparr>)
             else s\<lparr>d_hb := h, d_to_adjust_event := (d_to_adjust_event s)\<lparr>t_repeat := Hb (recomputed_hb_timeout h)\<rparr>\<rparr>)"

text \<open>A heart-beat of the leader may have been read while the timeout was adjusted.\<close>

definition read_hb :: "nat \<Rightarrow> nat \<Rightarrow> dare \<Rightarrow> u64 \<times> dare" where
  "read_hb leader i s =
     (if i = leader then
        case (if latest_hb_received (d_hb s) = 0 then fetch_hb leader s else (latest_hb_received (d_hb s), s)) of
          (hb, s) \<Rightarrow> (hb, s\<lparr>d_hb := (d_hb s)\<lparr>latest_hb_received := 0\<rparr>\<rparr>)
      else fetch_hb i s)"

text \<open>
  One turn of \<^verbatim>\<open>hb_receive_cb\<close>: whether no current heart-beat was seen yet, and the best identifier of a
  leader. An outdated leader is sent a reply, whose return code is not looked at.
\<close>

definition receive_turn :: "nat \<Rightarrow> nat \<Rightarrow> bool \<times> u64 \<Rightarrow> dare \<Rightarrow> (unit + bool \<times> u64) result" where
  "receive_turn leader i st s =
     (case st of (timeout, new_sid) \<Rightarrow>
        if i = d_idx s \<or> \<not> server_on s i then Ret (Inr st) s
        else
          case read_hb leader i s of (hb, s) \<Rightarrow>
            if hb = 0 then Ret (Inr st) s
            else if hb < new_sid then
              if SID_GET_L hb then
                bnd (rc_send_hb_reply i s)
                  (\<lambda>_ s. Ret (Inr st) (s\<lparr>d_hb := (d_hb s)\<lparr>recomputed_hb_timeout := recomputed_hb_timeout (d_hb s) + 1\<rparr>\<rparr>))
              else Ret (Inr st) s
            else Ret (Inr (False, if SID_GET_L hb then hb else new_sid)) s)"

definition set_hb_repeat :: "duration \<Rightarrow> dare \<Rightarrow> dare" where
  "set_hb_repeat d s = s\<lparr>d_hb_event := (d_hb_event s)\<lparr>t_repeat := d\<rparr>\<rparr>"

definition hb_receive :: "dare \<Rightarrow> unit result" where
  "hb_receive s =
     (if cf_idx (d_config s) \<ge> get_group_size (d_cid s) then Ret () (set_hb_repeat (hb_timeout s) s)
      else
        let s = upd_log (\<lambda>l. l\<lparr>l_tail := l_len l\<rparr>) s;
            leader = unat (SID_GET_IDX (d_sid s))
        in bnd (loop (group s) (receive_turn leader) (True, d_sid s) s)
             (\<lambda>r s. case r of
                Inl _ \<Rightarrow> Ret () s
              | Inr (timeout, new_sid) \<Rightarrow>
                  if timeout then start_election (set_hb_repeat Stopped s)
                  else if new_sid \<noteq> d_sid s then
                    let old_sid = d_sid s in
                    bnd (server_update_sid new_sid (d_sid s) s)
                      (\<lambda>rc s. if rc \<noteq> 0 then Ret () s
                       else if SID_GET_TERM old_sid \<noteq> SID_GET_TERM (d_sid s) then server_to_follower s
                       else Ret () s)
                  else Ret () (set_hb_repeat (hb_timeout s) s)))"

text \<open>
  One turn of \<^verbatim>\<open>hb_send_cb\<close>: \<open>Inl\<close> is the return of a server that was told of a larger term. It then
  updates its identifier to the value it has.
\<close>

definition send_turn :: "u64 \<Rightarrow> nat \<Rightarrow> unit \<Rightarrow> dare \<Rightarrow> (unit + unit) result" where
  "send_turn new_sid i st s =
     (if i = d_idx s \<or> \<not> server_on s i then Ret (Inr ()) s
      else
        case fetch_hb i s of (hb, s) \<Rightarrow>
          if hb < new_sid then Ret (Inr ()) s
          else
            bnd (server_update_sid new_sid (d_sid s) s)
              (\<lambda>rc s. if rc \<noteq> 0 then Ret (Inl ()) s else bnd (server_to_follower s) (\<lambda>_ s. Ret (Inl ()) s)))"

definition hb_send :: "dare \<Rightarrow> unit result" where
  "hb_send s =
     bnd (loop (group s) (send_turn (d_sid s)) () s)
       (\<lambda>r s. case r of
          Inl _ \<Rightarrow> Ret () s
        | Inr _ \<Rightarrow>
            bnd (rc_send_hb s)
              (\<lambda>rc s. if rc \<noteq> 0 then Shutdown (set_hb_repeat Stopped s) else Ret () (set_hb_repeat (Hb 10) s)))"

definition prune_log :: "dare \<Rightarrow> unit result" where
  "prune_log s =
     bnd (log_pruning s)
       (\<lambda>rc s. if rc \<noteq> 0 then Shutdown (s\<lparr>d_prune_event := (d_prune_event s)\<lparr>t_repeat := Stopped\<rparr>\<rparr>)
               else Ret () (s\<lparr>d_prune_event := (d_prune_event s)\<lparr>t_repeat := Log_pruning_period\<rparr>\<rparr>))"

subsection \<open>Polling\<close>

definition poll_ud :: "dare \<Rightarrow> unit result" where
  "poll_ud s =
     bnd (get_tailq_message s)
       (\<lambda>_ s. bnd (ud_get_message s)
          (\<lambda>type s.
             if type = MSG_ERROR then Shutdown s
             else if type = CFG_REPLY then Ret () (set_timer_cb exchange_rc_info_cb Now (set_flag JOINED s))
             else if type = RC_SYNACK \<or> type = RC_ACK then
               if has_flag RC_ESTABLISHED s then Ret () s
               else
                 let s = set_flag RC_ESTABLISHED s in
                 if \<not> has_flag JOINED s
                 then start_election (set_flag (LOG_RECOVERED OR SM_RECOVERED) (set_timer_cb update_rc_info_cb Rc_info_period s))
                 else Ret () (set_timer_cb get_replicated_vote_cb Now s)
             else Ret () s))"

text \<open>
  The check of the failure counts: the remaining configuration and the number of servers that are
  not suspected. Only a leader in a stable configuration removes a suspected server.
\<close>

definition failure_turn :: "nat \<Rightarrow> dare_cid_t \<times> nat \<times> dare \<Rightarrow> dare_cid_t \<times> nat \<times> dare" where
  "failure_turn i st =
     (case st of (cid, conns, s) \<Rightarrow>
        if \<not> CID_IS_SERVER_ON cid i then st
        else if suspected s i then
          if is_leader s \<and> cid_state (d_cid s) = CID_STABLE
          then (CID_SERVER_RM cid i, conns, snd (rc_disconnect_server i s)) else st
        else (cid, conns + 1, s))"

definition check_failure_count :: "dare \<Rightarrow> unit result" where
  "check_failure_count s =
     (let sz = unat (get_group_size (d_cid s)) in
      case fold failure_turn (group s) (d_cid s, 0, s) of (cid, conns, s) \<Rightarrow>
        if conns \<le> sz div 2 then Shutdown s
        else if is_leader s \<and> \<not> equal_cid cid (d_cid s) then
          bnd (append_config 0 0 (upd_config (\<lambda>c. c\<lparr>cf_cid := cid, cf_req_id := 0, cf_clt_id := 0\<rparr>) s)) (\<lambda>_ s. Ret () s)
        else Ret () s)"

definition polling :: "dare \<Rightarrow> unit result" where
  "polling s =
     (if has_flag TERMINATE s then Shutdown s
      else
        bnd (poll_ud s) (\<lambda>_ s.
        bnd (if has_flag RC_ESTABLISHED s \<and> \<not> has_flag SM_RECOVERED s then poll_sm_reply s else Ret () s) (\<lambda>_ s.
        if \<not> has_flag LOG_RECOVERED s then Ret () s
        else
          bnd (if \<not> is_leader s then poll_sm_requests s else Ret () s) (\<lambda>_ s.
          bnd (check_failure_count s) (\<lambda>_ s.
          bnd (if is_leader s then commit_new_entries s else poll_config_entries s) (\<lambda>_ s.
          bnd (if \<not> d_disable_apply s then apply_committed_entries s else Ret () s) (\<lambda>_ s.
          bnd (if is_candidate s then poll_vote_count s else Ret () s) (\<lambda>_ s.
          bnd (poll_vote_requests s) (\<lambda>_ s.
          if is_leader s then force_log_pruning s else Ret () s)))))))))"

text \<open>The callbacks of the timers.\<close>

definition run_callback :: "(dare \<Rightarrow> int \<times> dare) \<Rightarrow> callback \<Rightarrow> dare \<Rightarrow> unit result" where
  "run_callback ib_init cb s =
     (case cb of
        init_network_cb \<Rightarrow> init_network ib_init s
      | join_cluster_cb \<Rightarrow> join_cluster s
      | exchange_rc_info_cb \<Rightarrow> exchange_rc_info s
      | update_rc_info_cb \<Rightarrow> update_rc_info s
      | get_replicated_vote_cb \<Rightarrow> get_replicated_vote s
      | send_sm_request_cb \<Rightarrow> send_sm_request s
      | recover_log_cb \<Rightarrow> recover_log s
      | hb_receive_cb \<Rightarrow> hb_receive s
      | hb_send_cb \<Rightarrow> hb_send s
      | to_adjust_cb \<Rightarrow> Ret () (to_adjust s)
      | prune_log_cb \<Rightarrow> prune_log s)"

end
