(* ===== verification/Frame.thy ===== *)
theory Frame
  imports Events
begin

text \<open>
  What the operations leave alone. Most code of the server changes neither its own state identifier
  nor the stage of its start-up, and sends nothing but RDMA writes to the places meant for them. Such
  properties have the same proof: they hold for every update of the other fields, for what the network
  card does and for what is posted. The locales below name these laws; the operations are gone through
  once in each of them.
\<close>

subsection \<open>Results\<close>

text \<open>Every state a computation returns with satisfies the predicate.\<close>

definition keeps :: "(dare \<Rightarrow> bool) \<Rightarrow> 'a result \<Rightarrow> bool" where
  "keeps P r \<longleftrightarrow> (case r of Ret _ s \<Rightarrow> P s | _ \<Rightarrow> True)"

lemma keeps_simps [simp]:
  "keeps P (Ret x s) \<longleftrightarrow> P s" "keeps P (Shutdown s)" "keeps P (Exit s)" "keeps P (Hang s)" "keeps P (Fault s)"
  by (simp_all add: keeps_def)

lemma keeps_bnd: "keeps P r \<Longrightarrow> (\<And>x s. P s \<Longrightarrow> keeps Q (f x s)) \<Longrightarrow> keeps Q (bnd r f)"
  by (cases r) simp_all

lemma keeps_prod: "P (snd x) \<Longrightarrow> (\<And>a s. x = (a, s) \<Longrightarrow> P s \<Longrightarrow> keeps Q (f a s)) \<Longrightarrow> keeps Q (case x of (a, s) \<Rightarrow> f a s)"
  by (cases x) simp

lemma keeps_RetD: "keeps P r \<Longrightarrow> r = Ret x s \<Longrightarrow> P s"
  by simp

lemma keeps_mono: "keeps P r \<Longrightarrow> (\<And>s. P s \<Longrightarrow> Q s) \<Longrightarrow> keeps Q r"
  by (cases r) simp_all

lemma keeps_loop: "P s \<Longrightarrow> (\<And>i v s. P s \<Longrightarrow> keeps P (body i v s)) \<Longrightarrow> keeps P (loop is body v s)"
proof (induction "is" arbitrary: v s)
  case (Cons i "is")
  then show ?case by (auto intro!: keeps_bnd [of P] split: sum.split)
qed simp

lemma keeps_of_loop: "(\<And>r. x = Some r \<Longrightarrow> keeps P r) \<Longrightarrow> keeps P (of_loop s x)"
  by (auto simp: of_loop_def split: option.split)

lemma fold_inv: "P s \<Longrightarrow> (\<And>i s. P s \<Longrightarrow> P (f i s)) \<Longrightarrow> P (fold f is s)"
  by (induction "is" arbitrary: s) simp_all

lemma for_to_inv: "P s \<Longrightarrow> (\<And>i s. P s \<Longrightarrow> P (f i s)) \<Longrightarrow> P (for_to n f s)"
  by (simp add: for_to_def fold_inv)

lemma each_server_inv: "P s \<Longrightarrow> (\<And>i s. P s \<Longrightarrow> P (snd (f i s))) \<Longrightarrow> P (snd (each_server is f s))"
  by (induction "is" arbitrary: s) (auto split: prod.split, (metis snd_conv)+)

subsection \<open>The fields that the laws are about\<close>

text \<open>The stage of the start-up: its flags and the timer that drives it.\<close>

definition phase :: "dare \<Rightarrow> bool \<times> bool \<times> bool \<times> bool \<times> bool \<times> ev_timer" where
  "phase s = (has_flag INIT s, has_flag JOINED s, has_flag RC_ESTABLISHED s, has_flag SM_RECOVERED s,
              has_flag LOG_RECOVERED s, d_timer_event s)"

lemma has_flag_set [simp]:
  "has_flag f (set_flag g s) \<longleftrightarrow> has_flag f s \<or> f AND g \<noteq> 0"
  "has_flag f (clear_flag g s) \<longleftrightarrow> d_state s AND (f AND NOT g) \<noteq> 0"
  by (auto simp: has_flag_def set_flag_def clear_flag_def bit_eq_iff bit_simps)

lemma phase_other_flags [simp]:
  "phase (set_flag SNAPSHOT s) = phase s" "phase (set_flag DIE_AF_COMMIT s) = phase s"
  "phase (clear_flag SNAPSHOT s) = phase s" "phase (set_flag TERMINATE s) = phase s"
  by (simp_all add: phase_def) (simp_all add: dare_flags has_flag_def set_flag_def clear_flag_def)

text \<open>The timers of the protocol that run once the server has recovered.\<close>

definition protocol_timers :: "dare \<Rightarrow> ev_timer \<times> ev_timer \<times> ev_timer" where
  "protocol_timers s = (d_hb_event s, d_to_adjust_event s, d_prune_event s)"

definition core ::
    "dare \<Rightarrow> u64 \<times> poll list \<times> (bool \<times> bool \<times> bool \<times> bool \<times> bool \<times> ev_timer) \<times> (ev_timer \<times> ev_timer \<times> ev_timer) \<times> effect list" where
  "core s = (d_sid s, d_polls s, phase s, protocol_timers s, d_out s)"

lemma phase_cong: "d_state s' = d_state s \<Longrightarrow> d_timer_event s' = d_timer_event s \<Longrightarrow> phase s' = phase s"
  by (simp add: phase_def has_flag_def)

lemma core_fields:
  "core (s\<lparr>d_input := x0\<rparr>) = core s" "core (s\<lparr>d_config := x1\<rparr>) = core s" "core (s\<lparr>d_log := x2\<rparr>) = core s"
  "core (s\<lparr>d_endpoints := x3\<rparr>) = core s" "core (s\<lparr>d_last_write_csm_idx := x4\<rparr>) = core s" "core (s\<lparr>d_last_cmt_write_csm_idx := x5\<rparr>) = core s"
  "core (s\<lparr>d_prev_log_entry_head := x6\<rparr>) = core s" "core (s\<lparr>d_last_applied_entry := x7\<rparr>) = core s" "core (s\<lparr>d_disable_apply := x8\<rparr>) = core s"
  "core (s\<lparr>d_sm := x9\<rparr>) = core s" "core (s\<lparr>d_sm_alloc := x10\<rparr>) = core s" "core (s\<lparr>d_proxy := x11\<rparr>) = core s"
  "core (s\<lparr>d_snapshot := x12\<rparr>) = core s" "core (s\<lparr>d_prereg_mr := x13\<rparr>) = core s" "core (s\<lparr>d_snapshot_mr := x14\<rparr>) = core s"
  "core (s\<lparr>d_allocs := x15\<rparr>) = core s" "core (s\<lparr>d_reg_mrs := x16\<rparr>) = core s" "core (s\<lparr>d_hb := x17\<rparr>) = core s"
 
  "core (s\<lparr>d_ssn := x21\<rparr>) = core s" "core (s\<lparr>d_wa_flag := x22\<rparr>) = core s" "core (s\<lparr>d_committed := x23\<rparr>) = core s"
  "core (s\<lparr>d_offsets := x24\<rparr>) = core s" "core (s\<lparr>d_post_rcs := x25\<rparr>) = core s" "core (s\<lparr>d_modify_rcs := x26\<rparr>) = core s"
  "core (s\<lparr>d_dev := x27\<rparr>) = core s" "core (s\<lparr>d_request_id := x28\<rparr>) = core s" "core (s\<lparr>d_ud_recvs := x29\<rparr>) = core s"
  "core (s\<lparr>d_ud_sends := x30\<rparr>) = core s" "core (s\<lparr>d_ahs := x31\<rparr>) = core s" "core (s\<lparr>d_fresh_ep := x32\<rparr>) = core s"
  by (simp_all add: core_def phase_def protocol_timers_def has_flag_def)

lemma core_updates:
  "core (upd_server i f s) = core s" "core (upd_ep i g s) = core s" "core (upd_qp i q h s) = core s"
  "core (upd_config k s) = core s" "core (upd_log m s) = core s" "core (inc_ssn s) = core s"
  "core (set_flag SNAPSHOT s) = core s" "core (set_flag DIE_AF_COMMIT s) = core s"
  "core (clear_flag SNAPSHOT s) = core s"
proof -
  have d: "core (set_flag g s) = (d_sid s, d_polls s, phase (set_flag g s), protocol_timers s, d_out s)"
    "core (clear_flag g s) = (d_sid s, d_polls s, phase (clear_flag g s), protocol_timers s, d_out s)" for g s
    by (simp_all add: core_def protocol_timers_def set_flag_def clear_flag_def)
  show "core (set_flag SNAPSHOT s) = core s" "core (set_flag DIE_AF_COMMIT s) = core s"
    "core (clear_flag SNAPSHOT s) = core s"
    unfolding d by (simp_all add: core_def)
qed (simp_all add: upd_server_def upd_ep_def upd_qp_def upd_config_def upd_log_def inc_ssn_def core_def phase_def
    protocol_timers_def has_flag_def)

lemma core_ctrl: "c_sid (f (d_ctrl s)) = d_sid s \<Longrightarrow> core (upd_ctrl f s) = core s"
  by (simp add: core_def upd_ctrl_def phase_def protocol_timers_def has_flag_def)

lemma core_modify_qp: "core (snd (ibv_modify_qp i q f s)) = core s"
  by (simp add: ibv_modify_qp_def Let_def core_fields core_updates)

lemma core_resets:
  "core (snd (rc_qp_reset i q s)) = core s" "core (snd (rc_qp_reset_to_init i q s)) = core s"
  "core (snd (rc_qp_init_to_rtr i q s)) = core s" "core (snd (rc_qp_rtr_to_rts i q s)) = core s"
  by (simp_all add: rc_qp_reset_def rc_qp_reset_to_init_def rc_qp_init_to_rtr_def rc_qp_rtr_to_rts_def Let_def
      split_def core_modify_qp core_updates)

lemma core_chains:
  "core (snd (qp_to_rts i q s)) = core s" "core (snd (rc_qp_restart i q s)) = core s"
  "core (snd (rc_qp_reset_to_rts g i q s)) = core s"
  by (simp_all add: qp_to_rts_def rc_qp_restart_def rc_qp_reset_to_rts_def split_def core_resets)

lemma core_completions:
  "core (handle_lr_work_completion w rc s) = core s" "core (check_last_get_read q w s) = core s"
  "core (snd (snd (check_signaled q w s))) = core s" "core (qp_failed i q b s) = core s"
  by (simp_all add: handle_lr_work_completion_def check_last_get_read_def check_signaled_def qp_failed_def Let_def
      core_updates)

lemma adjust_step_remote: "adjust_step i x s = (Some (buf, len, opc, rm), s') \<Longrightarrow> rm \<noteq> R_sid"
  by (auto simp: adjust_step_def adjust_nce_len_def Let_def split: if_splits)

lemma update_step_remote:
  "update_step i s = (Some ((buf, len, rm), second), s') \<Longrightarrow> rm \<noteq> R_sid \<and> (\<forall>b l r. second = Some (b, l, r) \<longrightarrow> r \<noteq> R_sid)"
  by (auto simp: update_step_def Let_def split: if_splits)

lemma core_empty_cq_wc: "core (snd (snd (empty_cq_wc j q wcs i st))) = core (snd (snd st))"
  by (cases st) (simp add: empty_cq_wc_def Let_def split_def core_completions core_updates)

lemma core_wait_wc: "core (snd (snd (snd (wait_wc f q wcs i st)))) = core (snd (snd (snd st)))"
  by (cases st) (simp add: wait_wc_def Let_def split_def core_completions core_updates)

lemma core_access:
  "core (snd (rc_disconnect_server i s)) = core s" "core (snd (rc_connect_server i q s)) = core s"
  "core (snd (rc_revoke_log_access s)) = core s" "core (snd (grant_log_access g i s)) = core s"
  "core (snd (rc_restore_log_access g s)) = core s"
proof -
  show d: "core (snd (rc_disconnect_server i s)) = core s" "core (snd (rc_connect_server i q s)) = core s" for i q s
    by (simp_all add: rc_disconnect_server_def rc_connect_server_def Let_def split_def core_resets core_chains core_updates)
  show g: "core (snd (grant_log_access g i s)) = core s" for i s
    by (simp add: grant_log_access_def split_def core_chains core_updates)
  show "core (snd (rc_revoke_log_access s)) = core s"
    unfolding rc_revoke_log_access_def
    by (rule each_server_inv [where P = "\<lambda>x. core x = core s"]) (simp_all add: split_def core_resets core_updates)
  show "core (snd (rc_restore_log_access g s)) = core s"
    unfolding rc_restore_log_access_def
    by (auto simp: Let_def g intro!: each_server_inv [where P = "\<lambda>x. core x = core s"])
qed

lemmas core_all = core_fields core_updates core_modify_qp core_resets core_chains core_completions core_access

lemma core_polls: "core s' = core s \<Longrightarrow> d_polls s' = d_polls s"
  by (simp add: core_def)

lemma nic_write_polls [simp]: "d_polls (nic_write p s) = d_polls s"
  by (simp add: nic_write_def split_def)

lemma core_empty_cq_wcs: "core (snd (snd (for_to n (empty_cq_wc j q wcs) st))) = core (snd (snd st))"
  by (rule for_to_inv [where P = "\<lambda>x. core (snd (snd x)) = core (snd (snd st))"]) (simp_all add: core_empty_cq_wc)

lemma core_wait_wcs: "core (snd (snd (snd (for_to n (wait_wc f q wcs) st)))) = core (snd (snd (snd st)))"
  by (rule for_to_inv [where P = "\<lambda>x. core (snd (snd (snd x))) = core (snd (snd (snd st)))"]) (simp_all add: core_wait_wc)

subsection \<open>Operations that keep the identifier\<close>

locale frame =
  fixes P :: "dare \<Rightarrow> bool"
  assumes other: "core s' = core s \<Longrightarrow> P s \<Longrightarrow> P s'"
    and nic: "d_polls s = p # ps \<Longrightarrow> P s \<Longrightarrow> P (nic_write p (s\<lparr>d_polls := ps\<rparr>))"
    and drained: "P s \<Longrightarrow> P (s\<lparr>d_polls := []\<rparr>)"
    and posted: "wr_opcode w = IBV_WR_RDMA_READ \<or> wr_remote w \<noteq> R_sid \<Longrightarrow> P s \<Longrightarrow> P (emit (Posted w) s)"
    and sent: "P s \<Longrightarrow> P (emit (Ud_sent dest msg) s)"
begin

lemma P_iff: "core s' = core s \<Longrightarrow> P s' \<longleftrightarrow> P s"
  using other by metis

lemmas P_simps [simp] = core_all [THEN P_iff]

lemma P_ctrl [simp]: "c_sid (f (d_ctrl s)) = d_sid s \<Longrightarrow> P (upd_ctrl f s) \<longleftrightarrow> P s"
  by (rule P_iff) (rule core_ctrl)

lemma keeps_empty_cq_loop: "d_polls s = ps \<Longrightarrow> P s \<Longrightarrow> keeps P (empty_cq_loop ps j q w p s)"
proof (induction ps arbitrary: w p s)
  case Nil
  then show ?case by (simp add: Let_def drained)
next
  case (Cons x ps)
  let ?s = "nic_write x (s\<lparr>d_polls := ps\<rparr>)"
  have s: "P ?s" "d_polls ?s = ps" using Cons.prems nic by simp_all
  have "keeps P (case for_to (length wcs) (empty_cq_wc j q wcs) (w, p, ?s) of (w, p, s) \<Rightarrow> empty_cq_loop ps j q w p s)" for wcs
    using core_empty_cq_wcs [of "length wcs" j q wcs "(w, p, ?s)"] s
    by (cases "for_to (length wcs) (empty_cq_wc j q wcs) (w, p, ?s)") (auto intro!: Cons.IH elim: other dest: core_polls)
  then show ?case using s Cons.IH by (auto simp: Let_def split: option.split)
qed

lemma keeps_empty_cq [intro!]: "P s \<Longrightarrow> keeps P (empty_completion_queue j q w p s)"
  by (simp add: empty_completion_queue_def keeps_empty_cq_loop)

lemma post_send_rc [intro!]: "wr_opcode w = IBV_WR_RDMA_READ \<or> wr_remote w \<noteq> R_sid \<Longrightarrow> P s \<Longrightarrow> P (snd (ibv_post_send w s))"
  by (simp add: ibv_post_send_def Let_def posted)

lemma keeps_post_send [intro!]:
  assumes "opc = IBV_WR_RDMA_READ \<or> rm \<noteq> R_sid" and "P s"
  shows "keeps P (post_send i q buf len opc sg rm p s)"
  unfolding post_send_def
proof (rule keeps_bnd [where P = P], goal_cases)
  case 1
  then show ?case using assms(2) by auto
next
  case (2 x s)
  then show ?case
    using assms(1) unfolding Let_def split_def
    by (auto intro!: keeps_bnd [where P = P])
qed

lemma keeps_wait_loop: "d_polls s = ps \<Longrightarrow> P s \<Longrightarrow> keeps P (wait_loop ps go f q p n m s)"
proof (induction ps arbitrary: p n m s)
  case Nil
  then show ?case by (subst wait_loop.simps) simp
next
  case (Cons x ps)
  let ?s = "nic_write x (s\<lparr>d_polls := ps\<rparr>)"
  have s: "P ?s" "d_polls ?s = ps" using Cons.prems nic by simp_all
  have "keeps P (case for_to k (wait_wc f q wcs) (p, n, m, ?s) of (p, n, m, s) \<Rightarrow> wait_loop ps go f q p n m s)" for k wcs
    using core_wait_wcs [of k f q wcs "(p, n, m, ?s)"] s
    by (cases "for_to k (wait_wc f q wcs) (p, n, m, ?s)")
      (auto intro!: Cons.IH elim: other dest: core_polls simp del: wait_loop.simps)
  then show ?case using s Cons.prems by (subst wait_loop.simps) (auto simp: Let_def simp del: wait_loop.simps split: option.split)
qed

lemma keeps_wait_majorities: "P s \<Longrightarrow> keeps P (wait_majorities szs q p n s)"
proof (induction szs arbitrary: p n s)
  case (Cons sz szs)
  then show ?case
    by (auto simp del: wait_loop.simps intro!: keeps_bnd [where P = P] keeps_wait_loop split: option.split)
qed simp

lemma keeps_waits [intro!]: "P s \<Longrightarrow> keeps P (wait_for_majority p q s)" "P s \<Longrightarrow> keeps P (wait_for_one p q s)"
  unfolding wait_for_majority_def wait_for_one_def Let_def
  by (auto simp del: wait_loop.simps intro!: keeps_wait_majorities keeps_bnd [where P = P] keeps_wait_loop split: option.split)

lemma keeps_post_all:
  "opc = IBV_WR_RDMA_READ \<or> rm \<noteq> R_sid \<Longrightarrow> P s \<Longrightarrow> keeps P (post_all_signaled q own buf len opc rm s)"
  unfolding post_all_signaled_def split_def
  by (auto intro!: keeps_loop keeps_bnd [where P = P])

lemma keeps_write_all: "rm \<noteq> R_sid \<Longrightarrow> P s \<Longrightarrow> keeps P (write_all buf len rm s)"
  unfolding write_all_def split_def
  by (auto intro!: keeps_loop keeps_bnd [where P = P] split: sum.split)

lemma keeps_heartbeats [intro!]: "P s \<Longrightarrow> keeps P (rc_send_hb s)" "P s \<Longrightarrow> keeps P (rc_send_hb_reply i s)"
  unfolding rc_send_hb_def rc_send_hb_reply_def Let_def split_def
  by (auto intro!: keeps_write_all keeps_bnd [where P = P])

lemma keeps_send_vote_request [intro!]: "P s \<Longrightarrow> keeps P (rc_send_vote_request s)"
  unfolding rc_send_vote_request_def Let_def by (auto intro!: keeps_write_all split: option.split)

lemma keeps_replicate_vote [intro!]: "P s \<Longrightarrow> keeps P (rc_replicate_vote s)"
  unfolding rc_replicate_vote_def Let_def split_def
  by (auto intro!: keeps_bnd [where P = P] keeps_post_all split: sum.split)

lemma keeps_send_vote_ack [intro!]: "P s \<Longrightarrow> keeps P (rc_send_vote_ack s)"
  unfolding rc_send_vote_ack_def Let_def split_def
  by (auto intro!: keeps_bnd [where P = P])

lemma keeps_send_sm_request [intro!]: "P s \<Longrightarrow> keeps P (rc_send_sm_request s)"
  unfolding rc_send_sm_request_def Let_def by (auto intro!: keeps_write_all)

lemma register_snapshot [simp]: "P (register_snapshot s) \<longleftrightarrow> P s"
  by (auto simp: register_snapshot_def ibv_reg_mr_def split: list.split)

lemma posix_memalign [simp]: "P (snd (posix_memalign s)) \<longleftrightarrow> P s"
  by (auto simp: posix_memalign_def split: list.split)

lemma keeps_send_sm_reply [intro!]: "P s \<Longrightarrow> keeps P (rc_send_sm_reply i p b s)"
  unfolding rc_send_sm_reply_def Let_def split_def
  by (auto intro!: keeps_bnd [where P = P] split: option.split)

lemma recover_sm_buffer [simp]: "P (snd (recover_sm_buffer rep s)) \<longleftrightarrow> P s"
  using posix_memalign [of s]
  by (cases "posix_memalign s") (auto simp: recover_sm_buffer_def Let_def split: option.split)

lemma keeps_recover_sm [intro!]: "P s \<Longrightarrow> keeps P (rc_recover_sm i s)"
  unfolding rc_recover_sm_def apply_snapshot_def Let_def split_def
  by (auto intro!: keeps_bnd [where P = P] split: option.split)

lemma recover_offsets [simp]: "P (recover_offsets i s) \<longleftrightarrow> P s"
  by (simp add: recover_offsets_def Let_def)

lemma keeps_recover_log [intro!]: "P s \<Longrightarrow> keeps P (rc_recover_log s)"
  unfolding rc_recover_log_def Let_def split_def
  by (auto intro!: keeps_bnd [where P = P] keeps_post_all split: sum.split)

lemma rc_rep_updates [simp]: "P (set_commit_of i x s) \<longleftrightarrow> P s" "P (set_end_of i x s) \<longleftrightarrow> P s"
  "P (set_lr_step i y s) \<longleftrightarrow> P s" "P (raise_commit x s) \<longleftrightarrow> P s" "P (expect_completion i s) \<longleftrightarrow> P s"
  by (simp_all add: set_commit_of_def set_end_of_def set_lr_step_def raise_commit_def expect_completion_def)

lemma adjust_step [simp]: "P (snd (adjust_step i x s)) \<longleftrightarrow> P s"
  by (simp add: adjust_step_def adjust_nce_len_def Let_def)

lemma update_step [simp]: "P (snd (update_step i s)) \<longleftrightarrow> P s"
  by (simp add: update_step_def Let_def)

lemma advance_commit [simp]: "P (snd (advance_commit s)) \<longleftrightarrow> P s"
  by (simp add: advance_commit_def Let_def split_def)

lemmas keeps_flow = keeps_bnd [where P = P] keeps_prod [where P = P] keeps_loop [where P = P]

lemma keeps_log_adjustment [intro!]: "P s \<Longrightarrow> keeps P (log_adjustment s)"
  unfolding log_adjustment_def Let_def
  by (intro keeps_bnd [where P = P] keeps_loop [where P = P])
    (auto split: option.split sum.split intro!: keeps_flow dest: adjust_step_remote)

lemma keeps_write_log_entries [intro!]: "P s \<Longrightarrow> keeps P (write_log_entries s)"
  unfolding write_log_entries_def Let_def
  by (intro keeps_loop [where P = P])
    (auto split: option.split intro!: keeps_flow dest!: update_step_remote)

lemma keeps_write_commit_offsets [intro!]: "P s \<Longrightarrow> keeps P (write_commit_offsets n s)"
  unfolding write_commit_offsets_def Let_def
  by (intro keeps_bnd [where P = P] keeps_loop [where P = P])
    (auto split: sum.split intro!: keeps_flow)

lemma keeps_update_remote_logs [intro!]: "P s \<Longrightarrow> keeps P (update_remote_logs s)"
  unfolding update_remote_logs_def by (auto split: sum.split intro!: keeps_flow)

lemma keeps_write_remote_logs_loop: "P s \<Longrightarrow> keeps P (write_remote_logs_loop n w s)"
proof (induction n arbitrary: s)
  case (Suc n)
  then show ?case by (auto intro!: keeps_bnd [where P = P])
qed simp

lemma keeps_write_remote_logs [intro!]: "P s \<Longrightarrow> keeps P (rc_write_remote_logs w s)"
  unfolding rc_write_remote_logs_def by (auto intro!: keeps_write_remote_logs_loop)

lemma keeps_get_apply_offsets [intro!]: "P s \<Longrightarrow> keeps P (rc_get_remote_apply_offsets s)"
  unfolding rc_get_remote_apply_offsets_def Let_def
  by (intro keeps_bnd [where P = P] keeps_loop [where P = P])
    (auto split: sum.split intro!: keeps_flow)

subsubsection \<open>Roles and configurations\<close>

lemma clear_votes [intro!]: "P s \<Longrightarrow> P (clear_votes s)"
  unfolding clear_votes_def by (rule fold_inv) simp_all

lemma keeps_publish_nc_buf [intro!]: "P s \<Longrightarrow> keeps P (publish_nc_buf s)"
  by (auto simp: publish_nc_buf_def Let_def split: option.split)

lemma keeps_update_cid [intro!]: "P s \<Longrightarrow> keeps P (update_cid cid s)"
  unfolding update_cid_def Let_def by (auto intro!: keeps_flow)

subsubsection \<open>Messages\<close>

lemma keeps_append_entry [intro!]: "P s \<Longrightarrow> keeps P (append_entry r c t d s)" "P s \<Longrightarrow> keeps P (append_config r c s)"
  by (auto simp: append_config_def append_entry_def split: option.split)

lemma keeps_tailq_loop: "P s \<Longrightarrow> keeps P (tailq_loop q s)"
proof (induction q arbitrary: s)
  case (Cons n q)
  then show ?case by (auto intro!: keeps_bnd [where P = P])
qed simp

lemma keeps_get_tailq_message [intro!]: "P s \<Longrightarrow> keeps P (get_tailq_message s)"
  by (simp add: get_tailq_message_def keeps_tailq_loop)

lemma keeps_sends [intro!]: "P s \<Longrightarrow> keeps P (ud_send_message ep msg s)" "P s \<Longrightarrow> keeps P (mcast_send_message msg s)"
  by (auto simp: ud_send_message_def mcast_send_message_def post_datagram_def Let_def sent split: ud_send.split)

lemma ud_endpoints [simp]: "P (snd (ud_ah_create s)) \<longleftrightarrow> P s" "P (wc_to_ud_ep i wc g l s) \<longleftrightarrow> P s"
  "P (upd_dare_ep l f s) \<longleftrightarrow> P s" "P (init_new_server i wc h s) \<longleftrightarrow> P s" "P (set_rc_data i m a b s) \<longleftrightarrow> P s"
proof -
  show a: "P (snd (ud_ah_create s)) \<longleftrightarrow> P s" for s
    by (auto simp: ud_ah_create_def split: list.split)
  show w: "P (wc_to_ud_ep i wc g l s) \<longleftrightarrow> P s" for i wc g l s
    using a [of s] by (cases "ud_ah_create s") (simp add: wc_to_ud_ep_def)
  show "P (upd_dare_ep l f s) \<longleftrightarrow> P s" "P (init_new_server i wc h s) \<longleftrightarrow> P s" "P (set_rc_data i m a b s) \<longleftrightarrow> P s"
    by (simp_all add: upd_dare_ep_def init_new_server_def set_rc_data_def Let_def w)
qed

lemma keeps_clt_reply [intro!]: "P s \<Longrightarrow> keeps P (ud_send_clt_reply lid r s)"
  unfolding ud_send_clt_reply_def Let_def by (auto split: option.split intro!: keeps_flow)

lemma keeps_answer_read [intro!]: "P s \<Longrightarrow> keeps P (ud_clt_answer_read_request lid s)"
  unfolding ud_clt_answer_read_request_def Let_def split_def by (auto split: option.split intro!: keeps_flow)

lemma keeps_join_scan: "P s \<Longrightarrow> keeps P (join_scan wc r is f s)"
  by (induction wc r "is" f s rule: join_scan.induct) (auto split: option.split intro!: keeps_flow)

lemma keeps_find_or_insert [intro!]: "P s \<Longrightarrow> keeps P (find_or_insert_ep r s)"
  unfolding find_or_insert_ep_def by (auto split: option.split intro!: keeps_flow)

lemma keeps_join_request [intro!]: "P s \<Longrightarrow> keeps P (handle_server_join_request wc r s)"
  unfolding handle_server_join_request_def Let_def
  by (auto split: sum.split intro!: keeps_flow keeps_join_scan)

lemma join_reply [simp]: "P (handle_server_join_reply h r s) \<longleftrightarrow> P s"
  by (simp add: handle_server_join_reply_def Let_def)

lemma connect_qps [simp]: "P (snd (connect_qps i s)) \<longleftrightarrow> P s"
  by (simp add: connect_qps_def split_def)

lemma keeps_rc_syn [intro!]: "P s \<Longrightarrow> keeps P (handle_rc_syn wc h m s)" "P s \<Longrightarrow> keeps P (handle_rc_synack wc h m s)"
  unfolding handle_rc_syn_def handle_rc_synack_def Let_def by (auto intro!: keeps_flow)

lemma rc_ack [simp]: "P (snd (handle_rc_ack i s)) \<longleftrightarrow> P s"
  by (simp add: handle_rc_ack_def Let_def)

lemma keeps_message [intro!]: "P s \<Longrightarrow> keeps P (handle_message_from_client wc m s)"
  unfolding handle_message_from_client_def by (auto split: ud_msg.split intro!: keeps_flow)

lemma keeps_recv_loop: "P s \<Longrightarrow> keeps P (ud_recv_loop rs s)"
proof (induction rs arbitrary: s)
  case (Cons r rs)
  then show ?case by (simp add: Let_def keeps_message split: option.split ud_recv.split)
qed simp

lemma keeps_get_message [intro!]: "P s \<Longrightarrow> keeps P (ud_get_message s)"
  by (simp add: ud_get_message_def keeps_recv_loop)

lemma keeps_rc_info [intro!]: "P s \<Longrightarrow> keeps P (ud_join_cluster s)" "P s \<Longrightarrow> keeps P (ud_exchange_rc_info s)"
  "P s \<Longrightarrow> keeps P (ud_update_rc_info s)"
  by (auto simp: ud_join_cluster_def ud_exchange_rc_info_def ud_update_rc_info_def Let_def)

subsubsection \<open>Normal operation\<close>

lemma keeps_poll_config_entry [intro!]: "P s \<Longrightarrow> keeps P (poll_config_entry c o' e h s)"
  unfolding poll_config_entry_def Let_def by (auto intro!: keeps_flow)

lemma keeps_poll_config_loop:
  assumes "poll_config_loop c o' h s = Some r"
  shows "P s \<longrightarrow> keeps P r"
proof (rule poll_config_loop.raw_induct [OF _ assms, where P = "\<lambda>c o' h s r. P s \<longrightarrow> keeps P r"], rule impI, goal_cases)
  case (1 f c o' h s r)
  have "keeps P (poll_config_entry c x e h s)" for x e using 1(3) by auto
  then show ?case
    using 1(2,3)
    by (auto split: if_splits prod.splits option.splits result.splits dest: 1(1) [rule_format] keeps_RetD)
qed

lemma keeps_poll_config_entries [intro!]: "P s \<Longrightarrow> keeps P (poll_config_entries s)"
  unfolding poll_config_entries_def Let_def
  by (auto intro!: keeps_flow keeps_of_loop dest!: keeps_poll_config_loop)

lemma keeps_commit_new_entries [intro!]: "P s \<Longrightarrow> keeps P (commit_new_entries s)"
  unfolding commit_new_entries_def by (auto intro!: keeps_flow)

lemma apply_cmd_entry [simp]: "P (apply_cmd_entry e s) \<longleftrightarrow> P s"
  by (simp add: apply_cmd_entry_def Let_def)

lemma shrink_group [intro!]: "P s \<Longrightarrow> P (shrink_group is s)"
  unfolding shrink_group_def Let_def
  using fold_inv [where P = P and f = remove_server] by (simp add: remove_server_def Let_def)

lemma keeps_apply_config_entry [intro!]: "P s \<Longrightarrow> keeps P (apply_config_entry e s)"
  unfolding apply_config_entry_def Let_def by (auto intro!: keeps_flow)

lemma keeps_apply_one [intro!]: "P s \<Longrightarrow> keeps P (apply_one e s)"
  unfolding apply_one_def Let_def by auto

lemma keeps_apply_loop:
  assumes "apply_loop s = Some r"
  shows "P s \<longrightarrow> keeps P r"
proof (rule apply_loop.raw_induct [OF _ assms, where P = "\<lambda>s r. P s \<longrightarrow> keeps P r"], rule impI, goal_cases)
  case (1 f s r)
  have "P s'" if "apply_one e (upd_log g s) = Ret x s'" for e g x s'
    using keeps_apply_one [of "upd_log g s" e] 1(3) that by simp
  then show ?case
    using 1(2,3)
    by (auto simp: Let_def split: if_splits prod.splits option.splits result.splits dest!: 1(1))
qed

lemma prune_min [intro!]: "P s \<Longrightarrow> P (snd (prune_min s))"
  unfolding prune_min_def
  by (rule fold_inv [where P = "\<lambda>x. P (snd x)"]) (simp_all add: prune_turn_def Let_def split_def)

lemma keeps_log_pruning [intro!]: "P s \<Longrightarrow> keeps P (log_pruning s)"
  unfolding log_pruning_def prune_head_def advance_head_def
  by (auto intro!: keeps_flow split: option.split)

lemma keeps_force_log_pruning [intro!]: "P s \<Longrightarrow> keeps P (force_log_pruning s)"
  unfolding force_log_pruning_def Let_def by (auto intro!: keeps_flow)

subsubsection \<open>Elections, heart-beats and polling\<close>

lemma count_votes [intro!]: "P s \<Longrightarrow> P (snd (snd (count_votes s)))"
  unfolding count_votes_def
  by (rule fold_inv [where P = "\<lambda>x. P (snd (snd x))"]) (simp_all add: count_vote_def Let_def split_def)

lemma keeps_append_first_entry [intro!]: "P s \<Longrightarrow> keeps P (append_first_entry s)"
  unfolding append_first_entry_def Let_def by (auto split: option.split)

lemma keeps_local_position [intro!]: "P s \<Longrightarrow> keeps P (local_position s)"
  unfolding local_position_def Let_def by (auto split: option.split)

lemma drop_request [simp]: "P (drop_request i s) \<longleftrightarrow> P s"
  by (simp add: drop_request_def)

lemma scan_requests [intro!]: "P s \<Longrightarrow> P (snd (fold scan_request is (sid, s)))"
  by (rule fold_inv [where P = "\<lambda>x. P (snd x)"]) (simp_all add: scan_request_def split_def)

lemma choose_turns [intro!]: "P s \<Longrightarrow> P (snd (snd (fold choose_turn is (best, t, s))))"
  by (rule fold_inv [where P = "\<lambda>x. P (snd (snd x))"]) (simp_all add: choose_turn_def Let_def split_def)

lemma heartbeat_reads [simp]: "P (snd (fetch_hb i s)) \<longleftrightarrow> P s" "P (snd (read_hb j i s)) \<longleftrightarrow> P s"
  by (simp_all add: fetch_hb_def read_hb_def)

lemma keeps_receive_turn [intro!]: "P s \<Longrightarrow> keeps P (receive_turn j i st s)"
  by (cases st) (auto simp: receive_turn_def intro!: keeps_flow)

lemma keeps_make_snapshot [intro!]: "P s \<Longrightarrow> keeps P (make_snapshot s)"
  unfolding make_snapshot_def Let_def by (auto intro!: keeps_flow split: option.split)

lemma keeps_poll_sm_requests [intro!]: "P s \<Longrightarrow> keeps P (poll_sm_requests s)"
  unfolding poll_sm_requests_def Let_def
  by (intro keeps_bnd [where P = P] keeps_loop [where P = P]) (auto intro!: keeps_flow)

lemma failure_turns [intro!]: "P s \<Longrightarrow> P (snd (snd (fold failure_turn is (cid, n, s))))"
  by (rule fold_inv [where P = "\<lambda>x. P (snd (snd x))"]) (simp_all add: failure_turn_def split_def)

lemma keeps_check_failure_count [intro!]: "P s \<Longrightarrow> keeps P (check_failure_count s)"
  unfolding check_failure_count_def Let_def split_def by (auto intro!: keeps_flow)

end

subsection \<open>Operations that change the identifier\<close>

locale sid_frame = frame +
  assumes sid: "P s \<Longrightarrow> P (upd_ctrl (\<lambda>c. c\<lparr>c_sid := f c\<rparr>) s)"
begin

lemma keeps_update_sid [intro!]: "P s \<Longrightarrow> keeps P (server_update_sid x y s)"
  by (simp add: server_update_sid_def sid)

lemma keeps_get_replicated_vote [intro!]: "P s \<Longrightarrow> keeps P (rc_get_replicated_vote s)"
  unfolding rc_get_replicated_vote_def Let_def split_def
  by (auto intro!: keeps_flow keeps_post_all fold_inv [where P = P] split: sum.split simp: sid)

end

locale role_frame = sid_frame +
  assumes timers: "P s \<Longrightarrow> P (s\<lparr>d_hb_event := a, d_to_adjust_event := b, d_prune_event := c\<rparr>)"
begin

lemma timer_updates [intro!]: "P s \<Longrightarrow> P (s\<lparr>d_hb_event := a\<rparr>)" "P s \<Longrightarrow> P (s\<lparr>d_to_adjust_event := a\<rparr>)"
  "P s \<Longrightarrow> P (s\<lparr>d_prune_event := a\<rparr>)"
  using timers [where s = s and a = a and b = "d_to_adjust_event s" and c = "d_prune_event s"]
    timers [where s = s and a = "d_hb_event s" and b = a and c = "d_prune_event s"]
    timers [where s = s and a = "d_hb_event s" and b = "d_to_adjust_event s" and c = a] by simp_all

lemma role_timers [intro!]: "P s \<Longrightarrow> P (follower_timers s)" "P s \<Longrightarrow> P (receive_heartbeats s)" "P s \<Longrightarrow> P (to_adjust s)"
  "P s \<Longrightarrow> P (set_hb_repeat d s)"
  by (auto simp: follower_timers_def receive_heartbeats_def to_adjust_def fetch_hb_def set_hb_repeat_def Let_def)

lemma keeps_become_leader [intro!]: "P s \<Longrightarrow> keeps P (become_leader s)"
  unfolding become_leader_def Let_def by (auto intro!: keeps_flow fold_inv [where P = P])

lemma keeps_prune_log [intro!]: "P s \<Longrightarrow> keeps P (prune_log s)"
  unfolding prune_log_def by (auto intro!: keeps_flow)


lemma keeps_start_election [intro!]: "P s \<Longrightarrow> keeps P (start_election s)"
  unfolding start_election_def Let_def by (auto intro!: keeps_flow)

lemma keeps_to_follower [intro!]: "P s \<Longrightarrow> keeps P (server_to_follower s)"
  unfolding server_to_follower_def Let_def by (auto intro!: keeps_flow)

lemma keeps_verify_leadership [intro!]: "P s \<Longrightarrow> keeps P (rc_verify_leadership b s)"
  unfolding rc_verify_leadership_def Let_def by (auto intro!: keeps_flow keeps_post_all split: sum.split)

lemma keeps_reply_reads: "P s \<Longrightarrow> keeps P (reply_reads lids b n s)"
proof (induction lids arbitrary: b s)
  case (Cons lid lids)
  then show ?case by (auto intro!: keeps_flow split: option.split)
qed simp

lemma keeps_reply_read_req [intro!]: "P s \<Longrightarrow> keeps P (ep_dp_reply_read_req n s)"
  by (simp add: ep_dp_reply_read_req_def keeps_reply_reads)

lemma keeps_apply_committed [intro!]: "P s \<Longrightarrow> keeps P (apply_committed_entries s)"
  unfolding apply_committed_entries_def Let_def by (auto intro!: keeps_flow keeps_of_loop dest!: keeps_apply_loop)

lemma keeps_poll_vote_count [intro!]: "P s \<Longrightarrow> keeps P (poll_vote_count s)"
  unfolding poll_vote_count_def split_def by (auto intro!: keeps_flow)

lemma keeps_give_vote [intro!]: "P s \<Longrightarrow> keeps P (give_vote best s)"
  unfolding give_vote_def Let_def by (auto intro!: keeps_flow)

lemma keeps_consider [intro!]: "P s \<Longrightarrow> keeps P (consider_requests x y s)"
  unfolding consider_requests_def Let_def raise_term_def split_def by (auto intro!: keeps_flow)

lemma keeps_poll_vote_requests [intro!]: "P s \<Longrightarrow> keeps P (poll_vote_requests s)"
  unfolding poll_vote_requests_def Let_def split_def by (auto intro!: keeps_flow)

lemma keeps_hb_receive [intro!]: "P s \<Longrightarrow> keeps P (hb_receive s)"
  unfolding hb_receive_def Let_def by (auto intro!: keeps_flow split: sum.split)

lemma keeps_hb_send [intro!]: "P s \<Longrightarrow> keeps P (hb_send s)"
  unfolding hb_send_def
  by (intro keeps_bnd [where P = P] keeps_loop [where P = P])
    (auto simp: send_turn_def intro!: keeps_flow split: sum.split)

end

subsection \<open>All operations\<close>

locale stage_frame = role_frame +
  assumes stage: "P s \<Longrightarrow> P (s\<lparr>d_state := f, d_timer_event := t\<rparr>)"
begin

lemma stage_updates [intro!]: "P s \<Longrightarrow> P (set_flag g s)" "P s \<Longrightarrow> P (set_timer d s)" "P s \<Longrightarrow> P (set_timer_cb cb d s)"
  using stage [where f = "d_state s OR g" and t = "d_timer_event s" and s = s]
    stage [where f = "d_state s" and t = "(d_timer_event s)\<lparr>t_repeat := d\<rparr>" and s = s]
    stage [where f = "d_state s" and t = "\<lparr>t_cb = cb, t_repeat = d\<rparr>" and s = s]
  by (simp_all add: set_flag_def set_timer_def set_timer_cb_def)

lemma keeps_retry [intro!]: "keeps P r \<Longrightarrow> keeps P (retry_after d r)"
  unfolding retry_after_def by (auto intro!: keeps_flow)

lemma keeps_init_network: "P (snd (ib_init s)) \<Longrightarrow> keeps P (init_network ib_init s)"
  unfolding init_network_def Let_def split_def by (auto intro!: sid)

lemma keeps_recovery [intro!]: "P s \<Longrightarrow> keeps P (get_replicated_vote s)" "P s \<Longrightarrow> keeps P (recover_log s)"
  "P s \<Longrightarrow> keeps P (poll_sm_reply s)"
  unfolding get_replicated_vote_def recover_log_def poll_sm_reply_def Let_def
  by (auto intro!: keeps_flow sid split: list.split)

lemma keeps_poll_ud [intro!]: "P s \<Longrightarrow> keeps P (poll_ud s)"
  unfolding poll_ud_def Let_def by (auto intro!: keeps_flow)

lemma keeps_polling [intro!]: "P s \<Longrightarrow> keeps P (polling s)"
  unfolding polling_def by (auto intro!: keeps_flow)

lemma keeps_run_callback: "P s \<Longrightarrow> P (snd (ib_init s)) \<Longrightarrow> keeps P (run_callback ib_init cb s)"
  unfolding run_callback_def join_cluster_def exchange_rc_info_def update_rc_info_def send_sm_request_def
  by (auto intro!: keeps_init_network split: callback.split)

end

end
