(* ===== verification/System.thy ===== *)
theory System
  imports Frame
begin

text \<open>
  The running process: the events of the loop as a step relation, and two invariants of every
  reachable state, by rule induction over the steps and the frame laws. A server goes through the
  stages of its start-up in order and takes part in the protocol only after the last one; and no
  server ever writes to the state identifier of another.
\<close>

subsection \<open>Steps\<close>

text \<open>
  One event: the idle callback, which the initialisation of the network starts; a timer that is not
  stopped; a submission of the proxy or a signal; a write of the network card to the memory that
  others can access; and new answers of the world outside.
\<close>

inductive step :: "(dare \<Rightarrow> int \<times> dare) \<Rightarrow> dare \<Rightarrow> dare \<Rightarrow> bool" for ib_init where
  poll_event: "has_flag INIT s \<Longrightarrow> polling s = Ret () s' \<Longrightarrow> step ib_init s s'"
| timer_event: "t_repeat (d_timer_event s) \<noteq> Stopped \<Longrightarrow> run_callback ib_init (t_cb (d_timer_event s)) s = Ret () s' \<Longrightarrow>
    step ib_init s s'"
| hb_receive_event: "d_hb_event s = \<lparr>t_cb = hb_receive_cb, t_repeat = d\<rparr> \<Longrightarrow> d \<noteq> Stopped \<Longrightarrow> hb_receive s = Ret () s' \<Longrightarrow>
    step ib_init s s'"
| hb_send_event: "d_hb_event s = \<lparr>t_cb = hb_send_cb, t_repeat = d\<rparr> \<Longrightarrow> d \<noteq> Stopped \<Longrightarrow> hb_send s = Ret () s' \<Longrightarrow>
    step ib_init s s'"
| to_adjust_event: "t_repeat (d_to_adjust_event s) \<noteq> Stopped \<Longrightarrow> step ib_init s (to_adjust s)"
| prune_event: "t_repeat (d_prune_event s) \<noteq> Stopped \<Longrightarrow> prune_log s = Ret () s' \<Longrightarrow> step ib_init s s'"
| submission: "leader_handle_submit_req buf type (d_proxy s) = Some (n, proxy) \<Longrightarrow> step ib_init s (s\<lparr>d_proxy := proxy\<rparr>)"
| signal: "step ib_init s (int_handler s)"
| card: "step ib_init s (nic_write p s)"
| world: "step ib_init s (s\<lparr>d_polls := ps, d_post_rcs := prcs, d_modify_rcs := mrcs, d_ud_recvs := recvs,
    d_ud_sends := sends, d_ahs := ahs, d_allocs := allocs, d_reg_mrs := mrs\<rparr>)"

inductive_cases stepE: "step ib_init s s'"

text \<open>The states after the initialisation of the server, from zeroed flags and with nothing sent.\<close>

definition started :: "dare \<Rightarrow> bool" where
  "started s \<longleftrightarrow> (\<exists>m s0. d_state s0 = 0 \<and> d_out s0 = [] \<and> dare_server_init m s0 = Ret () s)"

definition reachable :: "(dare \<Rightarrow> int \<times> dare) \<Rightarrow> dare \<Rightarrow> bool" where
  "reachable ib_init s \<longleftrightarrow> (\<exists>s0. started s0 \<and> (step ib_init)\<^sup>*\<^sup>* s0 s)"

lemma reachable_induct [consumes 1, case_names started step]:
  assumes "reachable ib_init s" and "\<And>s. started s \<Longrightarrow> Q s"
    and "\<And>s s'. Q s \<Longrightarrow> step ib_init s s' \<Longrightarrow> Q s'"
  shows "Q s"
proof -
  obtain s0 where s0: "started s0" "(step ib_init)\<^sup>*\<^sup>* s0 s" using assms(1) by (auto simp: reachable_def)
  from s0(2) show ?thesis
    by (induction rule: rtranclp_induct) (use s0(1) assms(2,3) in auto)
qed

lemma init_server_data_keeps:
  "init_server_data m s = Ret rc s' \<Longrightarrow> d_state s' = d_state s \<and> d_out s' = d_out s"
  by (auto simp: init_server_data_def Let_def upd_config_def split: if_splits)

lemma started_fields:
  assumes "started s"
  shows "d_state s = 0" "d_out s = []" "d_timer_event s = \<lparr>t_cb = init_network_cb, t_repeat = Now\<rparr>"
    "protocol_timers s = (stopped_timer hb_receive_cb, stopped_timer to_adjust_cb, stopped_timer prune_log_cb)"
proof -
  obtain m s0 where s0: "d_state s0 = 0" "d_out s0 = []" "dare_server_init m s0 = Ret () s"
    using assms by (auto simp: started_def)
  obtain rc s1 where s1: "init_server_data m s0 = Ret rc s1"
    using s0(3) by (cases "init_server_data m s0") (auto simp: dare_server_init_def)
  show "d_state s = 0" "d_out s = []" "d_timer_event s = \<lparr>t_cb = init_network_cb, t_repeat = Now\<rparr>"
    "protocol_timers s = (stopped_timer hb_receive_cb, stopped_timer to_adjust_cb, stopped_timer prune_log_cb)"
    using init_server_data_keeps [OF s1] s0 s1
    by (auto simp: dare_server_init_def protocol_timers_def split: if_splits)
qed

subsection \<open>The state identifier belongs to its server\<close>

text \<open>No write posted so far goes to the state identifier of another server.\<close>

definition no_sid_write :: "dare \<Rightarrow> bool" where
  "no_sid_write s \<longleftrightarrow>
     (\<forall>w. Posted w \<in> set (d_out s) \<longrightarrow> wr_opcode w = IBV_WR_RDMA_WRITE \<longrightarrow> wr_remote w \<noteq> R_sid)"

lemma no_sid_write_cong: "d_out s' = d_out s \<Longrightarrow> no_sid_write s' = no_sid_write s"
  by (simp add: no_sid_write_def)

lemma nic_write_out [simp]: "d_out (nic_write p s) = d_out s" "d_state (nic_write p s) = d_state s"
  "d_timer_event (nic_write p s) = d_timer_event s" "protocol_timers (nic_write p s) = protocol_timers s"
  by (simp_all add: nic_write_def split_def protocol_timers_def)

interpretation sid_writes: stage_frame no_sid_write
proof unfold_locales
  show "no_sid_write s'" if "core s' = core s" "no_sid_write s" for s s'
    using that by (simp add: core_def no_sid_write_def)
  show "no_sid_write (emit (Posted w) s)"
    if "wr_opcode w = IBV_WR_RDMA_READ \<or> wr_remote w \<noteq> R_sid" "no_sid_write s" for w s
    using that by (auto simp: emit_def no_sid_write_def)
qed (auto simp: no_sid_write_def emit_def upd_ctrl_def)

lemma no_sid_write_step:
  assumes "step ib_init s s'" and "no_sid_write s" and "\<And>s. no_sid_write s \<Longrightarrow> no_sid_write (snd (ib_init s))"
  shows "no_sid_write s'"
  using assms(1)
proof cases
  case poll_event
  then show ?thesis using sid_writes.keeps_polling [OF assms(2)] by simp
next
  case timer_event
  then show ?thesis
    using sid_writes.keeps_run_callback [of s ib_init "t_cb (d_timer_event s)"] assms(2,3) by simp
next
  case hb_receive_event
  then show ?thesis using sid_writes.keeps_hb_receive [OF assms(2)] by simp
next
  case hb_send_event
  then show ?thesis using sid_writes.keeps_hb_send [OF assms(2)] by simp
next
  case to_adjust_event
  then show ?thesis using assms(2) by (simp add: sid_writes.role_timers)
next
  case prune_event
  then show ?thesis using sid_writes.keeps_prune_log [OF assms(2)] by simp
qed (use assms(2) in \<open>simp_all add: no_sid_write_def int_handler_def set_flag_def\<close>)

subsection \<open>The stages of the start-up\<close>

text \<open>
  Connections come before the state machine, which comes before the log; the callback of the timer
  belongs to the stage, and the timers of the protocol stand still before the last stage.
\<close>

fun stage_of :: "callback \<Rightarrow> dare \<Rightarrow> bool" where
  "stage_of init_network_cb s = True"
| "stage_of join_cluster_cb s = has_flag INIT s"
| "stage_of exchange_rc_info_cb s = has_flag INIT s"
| "stage_of get_replicated_vote_cb s = has_flag RC_ESTABLISHED s"
| "stage_of send_sm_request_cb s = has_flag RC_ESTABLISHED s"
| "stage_of recover_log_cb s = has_flag SM_RECOVERED s"
| "stage_of update_rc_info_cb s = has_flag LOG_RECOVERED s"
| "stage_of _ s = False"

definition timers_stopped :: "dare \<Rightarrow> bool" where
  "timers_stopped s \<longleftrightarrow> t_repeat (d_hb_event s) = Stopped \<and> t_repeat (d_to_adjust_event s) = Stopped \<and>
     t_repeat (d_prune_event s) = Stopped"

definition stage_inv :: "dare \<Rightarrow> bool" where
  "stage_inv s \<longleftrightarrow>
     (has_flag RC_ESTABLISHED s \<longrightarrow> has_flag INIT s) \<and> (has_flag SM_RECOVERED s \<longrightarrow> has_flag RC_ESTABLISHED s) \<and>
     (has_flag LOG_RECOVERED s \<longrightarrow> has_flag SM_RECOVERED s) \<and> stage_of (t_cb (d_timer_event s)) s \<and>
     (has_flag LOG_RECOVERED s \<or> timers_stopped s)"

lemma stage_of_phase: "phase s' = phase s \<Longrightarrow> stage_of cb s' = stage_of cb s"
  by (cases cb) (simp_all add: phase_def)

lemma timers_stopped_cong: "protocol_timers s' = protocol_timers s \<Longrightarrow> timers_stopped s' = timers_stopped s"
  by (simp add: protocol_timers_def timers_stopped_def)

lemma stage_inv_same:
  assumes "phase s' = phase s" and "has_flag LOG_RECOVERED s \<or> protocol_timers s' = protocol_timers s"
  shows "stage_inv s \<Longrightarrow> stage_inv s'"
  using assms stage_of_phase [OF assms(1), of "t_cb (d_timer_event s)"] timers_stopped_cong [of s' s]
  by (auto simp: stage_inv_def phase_def)

lemma phase_role: "role_frame (\<lambda>s. phase s = ph)"
  by unfold_locales
    (auto simp: core_def phase_def has_flag_def emit_def upd_ctrl_def nic_write_def split_def)

interpretation same_phase: role_frame "\<lambda>s. phase s = ph" for ph
  by (rule phase_role)

interpretation same_stage: sid_frame "\<lambda>s. phase s = ph \<and> protocol_timers s = ts" for ph ts
  by unfold_locales
    (auto simp: core_def phase_def protocol_timers_def has_flag_def emit_def nic_write_def upd_ctrl_def split_def)

lemma set_timer_fields [simp]:
  "has_flag f (set_timer d s) = has_flag f s" "has_flag f (set_timer_cb cb d s) = has_flag f s"
  "protocol_timers (set_timer d s) = protocol_timers s" "protocol_timers (set_timer_cb cb d s) = protocol_timers s"
  "protocol_timers (set_flag g s) = protocol_timers s" "d_timer_event (set_flag g s) = d_timer_event s"
  "t_cb (d_timer_event (set_timer d s)) = t_cb (d_timer_event s)" "t_cb (d_timer_event (set_timer_cb cb d s)) = cb"
  "timers_stopped (set_timer d s) = timers_stopped s" "timers_stopped (set_timer_cb cb d s) = timers_stopped s"
  "timers_stopped (set_flag g s) = timers_stopped s"
  by (simp_all add: has_flag_def set_timer_def set_timer_cb_def set_flag_def protocol_timers_def timers_stopped_def)

lemma stage_of_set_timer [simp]: "stage_of cb (set_timer d s) = stage_of cb s" "stage_of cb (set_timer_cb cb' d s) = stage_of cb s"
  by (cases cb; simp)+

lemma stage_inv_set_timer: "stage_inv (set_timer d s) = stage_inv s"
  by (simp add: stage_inv_def)

lemma flag_bits: "INIT AND JOINED = 0" "RC_ESTABLISHED AND JOINED = 0" "SM_RECOVERED AND JOINED = 0"
  "LOG_RECOVERED AND JOINED = 0" "INIT AND RC_ESTABLISHED = 0" "RC_ESTABLISHED \<noteq> 0"
  "SM_RECOVERED AND RC_ESTABLISHED = 0" "LOG_RECOVERED AND RC_ESTABLISHED = 0"
  "RC_ESTABLISHED AND SM_RECOVERED = 0" "SM_RECOVERED \<noteq> 0"
  "LOG_RECOVERED AND SM_RECOVERED = 0" "INIT AND SM_RECOVERED = 0" "INIT AND LOG_RECOVERED = 0" "RC_ESTABLISHED AND LOG_RECOVERED = 0"
  "SM_RECOVERED AND LOG_RECOVERED = 0" "LOG_RECOVERED \<noteq> 0" "INIT \<noteq> 0"
  "RC_ESTABLISHED AND INIT = 0" "SM_RECOVERED AND INIT = 0" "LOG_RECOVERED AND INIT = 0"
  "INIT AND (LOG_RECOVERED OR SM_RECOVERED) = 0" "RC_ESTABLISHED AND (LOG_RECOVERED OR SM_RECOVERED) = 0"
  "SM_RECOVERED AND (LOG_RECOVERED OR SM_RECOVERED) \<noteq> 0" "LOG_RECOVERED AND (LOG_RECOVERED OR SM_RECOVERED) \<noteq> 0"
  by (simp_all add: dare_flags)

definition up :: "dare \<Rightarrow> bool" where
  "up s \<longleftrightarrow> stage_inv s \<and> has_flag INIT s"

lemma up_same_stage: "phase s' = phase s \<and> protocol_timers s' = protocol_timers s \<Longrightarrow> up s \<Longrightarrow> up s'"
  using stage_inv_same [of s' s] by (simp add: up_def phase_def)

lemma up_recovered: "phase s' = phase s \<Longrightarrow> has_flag LOG_RECOVERED s \<Longrightarrow> up s \<Longrightarrow> up s'"
  using stage_inv_same [of s' s] by (simp add: up_def phase_def)

text \<open>Changes of the stage, followed by operations that keep it.\<close>

lemma up_joined: "up s \<Longrightarrow> up (set_timer_cb exchange_rc_info_cb Now (set_flag JOINED s))"
  "up s \<Longrightarrow> up (set_timer_cb get_replicated_vote_cb Now (set_flag RC_ESTABLISHED s))"
  "up s \<Longrightarrow> has_flag RC_ESTABLISHED s \<Longrightarrow> up (set_timer_cb recover_log_cb Now (set_flag SM_RECOVERED s))"
  by (auto simp: up_def stage_inv_def flag_bits)

lemma up_log: "up s \<Longrightarrow> has_flag SM_RECOVERED s \<Longrightarrow> up (set_timer_cb update_rc_info_cb d (set_flag LOG_RECOVERED s))"
  "up s \<Longrightarrow> up (set_flag (LOG_RECOVERED OR SM_RECOVERED) (set_timer_cb update_rc_info_cb d (set_flag RC_ESTABLISHED s)))"
  by (auto simp: up_def stage_inv_def flag_bits)

text \<open>Operations that keep the stage, and those that keep it once the server has recovered.\<close>

lemma up_keeps: "keeps (\<lambda>s'. phase s' = phase s \<and> protocol_timers s' = protocol_timers s) r \<Longrightarrow> up s \<Longrightarrow> keeps up r"
  using up_same_stage by (auto elim: keeps_mono)

definition recovered :: "dare \<Rightarrow> bool" where
  "recovered s \<longleftrightarrow> up s \<and> has_flag LOG_RECOVERED s"

lemma recovered_keeps: "keeps (\<lambda>s'. phase s' = phase s) r \<Longrightarrow> recovered s \<Longrightarrow> keeps recovered r"
  using up_recovered by (auto simp: recovered_def phase_def elim!: keeps_mono)

lemma recovered_up: "keeps recovered r \<Longrightarrow> keeps up r"
  by (auto simp: recovered_def elim: keeps_mono)

lemma up_messages: "up s \<Longrightarrow> keeps up (get_tailq_message s)" "up s \<Longrightarrow> keeps up (ud_get_message s)"
  "up s \<Longrightarrow> keeps up (rc_recover_sm i s)" "up s \<Longrightarrow> keeps up (rc_recover_log s)" "up s \<Longrightarrow> keeps up (rc_send_sm_request s)"
  "up s \<Longrightarrow> keeps up (ud_join_cluster s)" "up s \<Longrightarrow> keeps up (ud_exchange_rc_info s)" "up s \<Longrightarrow> keeps up (ud_update_rc_info s)"
  by (rule up_keeps [of s]; auto)+

lemma recovered_roles: "recovered s \<Longrightarrow> keeps recovered (start_election s)" "recovered s \<Longrightarrow> keeps recovered (server_to_follower s)"
  "recovered s \<Longrightarrow> keeps recovered (hb_receive s)" "recovered s \<Longrightarrow> keeps recovered (hb_send s)"
  "recovered s \<Longrightarrow> keeps recovered (prune_log s)"
  by (rule recovered_keeps [of s]; auto)+

lemma up_poll_ud: "up s \<Longrightarrow> keeps up (poll_ud s)"
  unfolding poll_ud_def
proof (intro keeps_bnd [where P = up] up_messages)
  fix ty s assume s: "up s"
  let ?s = "set_flag (LOG_RECOVERED OR SM_RECOVERED) (set_timer_cb update_rc_info_cb Rc_info_period (set_flag RC_ESTABLISHED s))"
  have "recovered ?s" using up_log(2) [OF s] by (simp add: recovered_def flag_bits)
  then have "keeps up (start_election ?s)"
    by (intro recovered_up recovered_roles)
  then show "keeps up
     (if ty = MSG_ERROR then Shutdown s
      else if ty = CFG_REPLY then Ret () (set_timer_cb exchange_rc_info_cb Now (set_flag JOINED s))
      else if ty = RC_SYNACK \<or> ty = RC_ACK then
        if has_flag RC_ESTABLISHED s then Ret () s
        else let s = set_flag RC_ESTABLISHED s in
          if \<not> has_flag JOINED s
          then start_election (set_flag (LOG_RECOVERED OR SM_RECOVERED) (set_timer_cb update_rc_info_cb Rc_info_period s))
          else Ret () (set_timer_cb get_replicated_vote_cb Now s)
      else Ret () s)"
    using s up_joined [OF s] by (simp add: Let_def)
qed simp_all

lemma up_poll_sm_reply:
  assumes "up s" and "has_flag RC_ESTABLISHED s"
  shows "keeps up (poll_sm_reply s)"
proof -
  have "keeps (\<lambda>s'. up s' \<and> has_flag RC_ESTABLISHED s') (rc_recover_sm i (upd_ctrl f s))" for i f
  proof (rule keeps_mono)
    show "keeps (\<lambda>s'. phase s' = phase s \<and> protocol_timers s' = protocol_timers s) (rc_recover_sm i (upd_ctrl f s))"
      by (rule same_stage.keeps_recover_sm) (simp add: upd_ctrl_def phase_def protocol_timers_def has_flag_def)
  qed (use up_same_stage assms in \<open>auto simp: phase_def\<close>)
  moreover have "up (set_timer_cb recover_log_cb Now (set_flag SM_RECOVERED (upd_ctrl f s)))"
    if "up s" "has_flag RC_ESTABLISHED s" for f s
  proof -
    have "phase (upd_ctrl f s) = phase s" "protocol_timers (upd_ctrl f s) = protocol_timers s"
      by (simp_all add: upd_ctrl_def phase_def protocol_timers_def has_flag_def)
    then show ?thesis using up_joined(3) [of "upd_ctrl f s"] up_same_stage that by (auto simp: phase_def)
  qed
  ultimately show ?thesis
    using assms unfolding poll_sm_reply_def Let_def
    by (auto split: list.split intro!: keeps_bnd [where P = "\<lambda>s. up s \<and> has_flag RC_ESTABLISHED s"])
qed

text \<open>The part of \<^verbatim>\<open>polling\<close> behind the test for a recovered log.\<close>

lemma recovered_polling:
  "recovered s \<Longrightarrow> keeps recovered (poll_sm_requests s)" "recovered s \<Longrightarrow> keeps recovered (check_failure_count s)"
  "recovered s \<Longrightarrow> keeps recovered (commit_new_entries s)" "recovered s \<Longrightarrow> keeps recovered (poll_config_entries s)"
  "recovered s \<Longrightarrow> keeps recovered (apply_committed_entries s)" "recovered s \<Longrightarrow> keeps recovered (poll_vote_count s)"
  "recovered s \<Longrightarrow> keeps recovered (poll_vote_requests s)" "recovered s \<Longrightarrow> keeps recovered (force_log_pruning s)"
  by (rule recovered_keeps [of s]; auto)+

lemma up_polling: "up s \<Longrightarrow> keeps up (polling s)"
  unfolding polling_def
proof (simp, intro impI keeps_bnd [where P = up], goal_cases)
  case 1
  then show ?case by (simp add: up_poll_ud)
next
  case (2 x s)
  then show ?case using up_poll_sm_reply by simp
next
  case (3 x s y s')
  then show ?case
    by (auto intro!: recovered_up keeps_bnd [where P = recovered] recovered_polling simp: recovered_def)
qed

text \<open>What the set-up of the network leaves alone.\<close>

definition quiet_init :: "(dare \<Rightarrow> int \<times> dare) \<Rightarrow> bool" where
  "quiet_init ib_init \<longleftrightarrow>
     (\<forall>s. phase (snd (ib_init s)) = phase s \<and> protocol_timers (snd (ib_init s)) = protocol_timers s \<and>
          d_out (snd (ib_init s)) = d_out s)"

lemma up_retry: "keeps up r \<Longrightarrow> keeps stage_inv (retry_after d r)"
  unfolding retry_after_def by (auto intro!: keeps_bnd [where P = up] simp: up_def stage_inv_set_timer)

lemma stage_init_network:
  assumes "quiet_init ib_init" and "stage_inv s"
  shows "keeps stage_inv (init_network ib_init s)"
proof -
  obtain rc s1 where s1: "ib_init s = (rc, s1)" by (cases "ib_init s")
  have "stage_inv s1"
    using stage_inv_same [of s1 s] assms s1 by (metis quiet_init_def snd_conv)
  then have "stage_inv (set_timer_cb cb Now (set_flag INIT s1))" if "cb = join_cluster_cb \<or> cb = exchange_rc_info_cb" for cb
    using that by (auto simp: stage_inv_def flag_bits)
  moreover have "stage_inv (set_timer Stopped (upd_ctrl f (set_flag INIT s1)))" for f
  proof -
    have "stage_inv (set_flag INIT s1)"
      using \<open>stage_inv s1\<close> by (cases "t_cb (d_timer_event s1)") (auto simp: stage_inv_def flag_bits)
    moreover have "phase (upd_ctrl f (set_flag INIT s1)) = phase (set_flag INIT s1)"
      "protocol_timers (upd_ctrl f (set_flag INIT s1)) = protocol_timers (set_flag INIT s1)"
      by (simp_all add: upd_ctrl_def phase_def protocol_timers_def has_flag_def)
    ultimately show ?thesis
      using stage_inv_same [of "upd_ctrl f (set_flag INIT s1)" "set_flag INIT s1"] by (simp add: stage_inv_set_timer)
  qed
  ultimately show ?thesis by (simp add: init_network_def s1 Let_def)
qed

lemma stage_get_replicated_vote:
  assumes "up s" and "has_flag RC_ESTABLISHED s"
  shows "keeps stage_inv (get_replicated_vote s)"
proof -
  let ?Q = "\<lambda>s'. phase s' = phase s \<and> protocol_timers s' = protocol_timers s"
  have q: "?Q (upd_ctrl f s)" for f
    by (simp add: upd_ctrl_def phase_def protocol_timers_def has_flag_def)
  have ok: "stage_inv (set_timer d s')" "stage_inv (set_timer_cb send_sm_request_cb d s')" if "?Q s'" for s' d
    using up_same_stage [OF that assms(1)] that assms(2) by (auto simp: up_def stage_inv_def phase_def)
  show ?thesis
    unfolding get_replicated_vote_def Let_def
    by (auto intro!: ok q keeps_bnd [where P = ?Q] same_stage.keeps_get_replicated_vote)
qed

lemma stage_recover_log:
  assumes "up s" and "has_flag SM_RECOVERED s"
  shows "keeps stage_inv (recover_log s)"
proof -
  let ?Q = "\<lambda>s'. up s' \<and> has_flag SM_RECOVERED s'"
  have log: "keeps ?Q (rc_recover_log s)"
    using same_stage.keeps_recover_log [of s "phase s" "protocol_timers s"] up_same_stage assms
    by (auto elim!: keeps_mono simp: phase_def)
  have rec: "recovered (set_timer_cb update_rc_info_cb d (set_flag LOG_RECOVERED s'))" if "?Q s'" for s' d
    using that up_log(1) by (auto simp: recovered_def flag_bits)
  have st: "keeps stage_inv r" if "keeps recovered r" for r :: "unit result"
    using that by (rule keeps_mono) (simp add: recovered_def up_def)
  have "stage_inv s'" if "up s'" for s' using that by (simp add: up_def)
  then show ?thesis
    unfolding recover_log_def Let_def
    by (intro keeps_bnd [OF log]) (auto intro!: st recovered_roles rec simp: stage_inv_set_timer)
qed

lemma stage_run_callback:
  assumes "quiet_init ib_init" and "stage_inv s" and cb: "cb = t_cb (d_timer_event s)"
  shows "keeps stage_inv (run_callback ib_init cb s)"
proof -
  have "stage_of cb s" using assms(2) cb by (simp add: stage_inv_def)
  then have "cb = init_network_cb \<or> up s" "cb = get_replicated_vote_cb \<or> cb = send_sm_request_cb \<longrightarrow> has_flag RC_ESTABLISHED s"
    "cb = recover_log_cb \<longrightarrow> has_flag SM_RECOVERED s" "cb \<noteq> hb_receive_cb" "cb \<noteq> hb_send_cb" "cb \<noteq> to_adjust_cb" "cb \<noteq> prune_log_cb"
    using assms(2) by (cases cb; auto simp: up_def stage_inv_def)+
  then show ?thesis
    using assms(1,2)
    by (cases cb)
      (auto simp: run_callback_def join_cluster_def exchange_rc_info_def update_rc_info_def send_sm_request_def
        intro!: stage_init_network up_retry up_messages stage_get_replicated_vote stage_recover_log)
qed

lemma stage_inv_step:
  assumes "step ib_init s s'" and "stage_inv s" and "quiet_init ib_init"
  shows "stage_inv s'"
proof -
  have fin: "stage_inv s'" if "keeps recovered r" "r = Ret () s'" for r :: "unit result"
    using that by (simp add: recovered_def up_def)
  have rec: "recovered s" if "\<not> timers_stopped s"
    using that assms(2) by (auto simp: recovered_def up_def stage_inv_def)
  from assms(1) show ?thesis
  proof cases
    case poll_event
    then show ?thesis using up_polling [of s] assms(2) by (simp add: up_def)
  next
    case timer_event
    then show ?thesis using stage_run_callback [OF assms(3,2) refl] by simp
  next
    case hb_receive_event
    then show ?thesis using rec by (intro fin [OF recovered_roles(3)]) (auto simp: timers_stopped_def)
  next
    case hb_send_event
    then show ?thesis using rec by (intro fin [OF recovered_roles(4)]) (auto simp: timers_stopped_def)
  next
    case to_adjust_event
    then have r: "recovered s" using rec by (simp add: timers_stopped_def)
    moreover have "phase (to_adjust s) = phase s" using same_phase.role_timers(3) by blast
    ultimately show ?thesis
      using to_adjust_event up_recovered by (simp add: recovered_def up_def)
  next
    case prune_event
    then show ?thesis using rec by (intro fin [OF recovered_roles(5)]) (auto simp: timers_stopped_def)
  next
    case signal
    then show ?thesis using stage_inv_same [of s' s] assms(2) by (simp add: int_handler_def)
  qed (rule stage_inv_same [OF _ _ assms(2)]; simp add: phase_def has_flag_def protocol_timers_def nic_write_def split_def)+
qed

subsection \<open>The invariants\<close>

text \<open>
  C10. The start-up goes through its stages in order. In every state that the process reaches, a recovered
  log implies a recovered state machine, which implies established connections, which imply an
  initialised network; and before the log is recovered the timers for heart-beats, for the adjustment of
  the timeout and for log pruning stand still, so that a server starts no election and sends no
  heart-beat before. The hypothesis is that the set-up of the network does not touch flags, timers and
  outputs.
\<close>

theorem stages_in_order:
  assumes "quiet_init ib_init" and "reachable ib_init s"
  shows "(has_flag LOG_RECOVERED s \<longrightarrow> has_flag SM_RECOVERED s) \<and> (has_flag SM_RECOVERED s \<longrightarrow> has_flag RC_ESTABLISHED s) \<and>
    (has_flag RC_ESTABLISHED s \<longrightarrow> has_flag INIT s) \<and> (has_flag LOG_RECOVERED s \<or> timers_stopped s)"
proof -
  from assms(2) have "stage_inv s"
  proof (induction rule: reachable_induct)
    case (started s)
    show ?case
      using started_fields [OF started]
      by (simp add: stage_inv_def has_flag_def protocol_timers_def timers_stopped_def stopped_timer_def)
  next
    case (step s s')
    then show ?case using stage_inv_step assms(1) by blast
  qed
  then show ?thesis by (simp add: stage_inv_def)
qed

lemma started_example: "\<exists>s. started s"
proof -
  have "\<exists>s. dare_server_init (\<lambda>_. True) blank = Ret () s"
    by (simp add: dare_server_init_def init_server_data_def blank_def create_kvs_sm_def SM_KVS_def upd_config_def
        zero_config_def MAX_SERVER_COUNT_def create_kvs_table_def Let_def)
  moreover have "d_state blank = 0" "d_out blank = []" by (simp_all add: blank_def)
  ultimately show ?thesis unfolding started_def by blast
qed

lemma started_reachable: "started s \<Longrightarrow> reachable ib_init s"
  by (auto simp: reachable_def)

theorem stages_in_order_witness:
  "\<exists>s. quiet_init (Pair 0) \<and> reachable (Pair 0) s \<and> (has_flag LOG_RECOVERED s \<or> timers_stopped s)"
proof -
  obtain s where s: "started s" using started_example by blast
  have "quiet_init (Pair 0)" by (simp add: quiet_init_def)
  then show ?thesis using stages_in_order [OF _ started_reachable [OF s]] started_reachable [OF s] by blast
qed

text \<open>
  C13. A state identifier is written by its own server only. In every state that the process reaches, no
  RDMA write that it has posted since its start targets the state identifier in the control data of
  another server: that field is only read remotely. The hypothesis on the network card in the properties
  of elections rests on this.
\<close>

theorem sid_written_locally:
  assumes "quiet_init ib_init" and "reachable ib_init s"
  shows "no_sid_write s"
  using assms(2)
proof (induction rule: reachable_induct)
  case (started s)
  show ?case using started_fields(2) [OF started] by (simp add: no_sid_write_def)
next
  case (step s s')
  have "no_sid_write (snd (ib_init s))" if "no_sid_write s" for s
    using that assms(1) no_sid_write_cong [of "snd (ib_init s)" s] by (simp add: quiet_init_def)
  then show ?case using no_sid_write_step step by blast
qed

theorem sid_written_locally_witness:
  "\<exists>s. quiet_init (Pair 0) \<and> reachable (Pair 0) s \<and> no_sid_write s"
proof -
  obtain s where s: "started s" using started_example by blast
  have "quiet_init (Pair 0)" by (simp add: quiet_init_def)
  then show ?thesis using sid_written_locally [OF _ started_reachable [OF s]] started_reachable [OF s] by blast
qed

end
