(* ===== verification/VoteSpec.thy ===== *)
theory VoteSpec
  imports Frame
begin

text \<open>
  The rules of an election: a server votes at most once in a term, only for a candidate whose log is
  at least as up to date as its own, and a candidate becomes leader only with the answers of a
  majority, so that two candidates that no server answers both cannot win together.
\<close>

subsection \<open>The identifier while operations run\<close>

text \<open>The network card never writes to the state identifier.\<close>

definition card_ok :: "dare \<Rightarrow> bool" where
  "card_ok s \<longleftrightarrow> (\<forall>p \<in> set (d_polls s). \<forall>c l sn. c_sid (fst (p_nic p (c, l, sn))) = c_sid c)"

definition same_sid :: "u64 \<Rightarrow> dare \<Rightarrow> bool" where
  "same_sid x s \<longleftrightarrow> card_ok s \<and> d_sid s = x"

lemma same_sid_nic: "d_polls s = p # ps \<Longrightarrow> same_sid x s \<Longrightarrow> same_sid x (nic_write p (s\<lparr>d_polls := ps\<rparr>))"
  by (simp add: same_sid_def card_ok_def nic_write_def split_def)

interpretation sid: frame "same_sid x" for x
proof unfold_locales
  show "same_sid x s'" if "core s' = core s" "same_sid x s" for s s'
    using that by (simp add: core_def same_sid_def card_ok_def)
qed (simp_all add: same_sid_nic, simp_all add: same_sid_def card_ok_def emit_def)

lemma same_sid_timers [simp]: "same_sid x (s\<lparr>d_hb_event := e\<rparr>) = same_sid x s"
  "same_sid x (follower_timers s) = same_sid x s" "same_sid x (receive_heartbeats s) = same_sid x s"
  "same_sid x (set_hb_repeat d s) = same_sid x s"
  by (simp_all add: same_sid_def card_ok_def follower_timers_def receive_heartbeats_def set_hb_repeat_def Let_def)

lemma same_sid_update: "same_sid x s \<Longrightarrow> keeps (same_sid y) (server_update_sid y z s)"
  by (simp add: server_update_sid_def upd_ctrl_def same_sid_def card_ok_def)

text \<open>The identifier of a candidate in the term after the one of \<open>x\<close>.\<close>

definition next_sid :: "u64 \<Rightarrow> u8 \<Rightarrow> u64" where
  "next_sid x idx = SID_SET_IDX (SID_UNSET_L (SID_SET_TERM 0 (SID_GET_TERM x + 1))) idx"

lemma fits_sid_term: "fits_term (SID_GET_TERM x)"
  using u64_bound [of x] by (simp add: fits_term_def unat_SID_GET_TERM)

lemma next_sid_term:
  assumes "unat (SID_GET_TERM x) + 1 < 2 ^ 55"
  shows "SID_GET_TERM x < SID_GET_TERM (next_sid x idx)"
proof -
  have "unat (SID_GET_TERM x + 1) = unat (SID_GET_TERM x) + 1"
    using assms by (simp add: unat_plus_u64)
  then show ?thesis
    using assms by (simp add: next_sid_def SID_GET_SET_TERM fits_term_def word_less_nat_alt)
qed

definition may_elect :: "u64 \<Rightarrow> dare \<Rightarrow> bool" where
  "may_elect x s \<longleftrightarrow> d_sid s = x \<or> (\<exists>idx. d_sid s = next_sid x idx)"

lemma start_election_sid: "same_sid x s \<Longrightarrow> keeps (may_elect x) (start_election s)"
proof -
  assume s: "same_sid x s"
  let ?y = "next_sid x (cf_idx (d_config s))"
  have x: "d_sid s = x" using s by (simp add: same_sid_def)
  have "keeps (same_sid ?y) (start_election s)"
    unfolding start_election_def Let_def x next_sid_def [symmetric]
    by (auto intro!: keeps_bnd [where P = "same_sid ?y"] keeps_prod [where P = "same_sid ?y"] same_sid_update [OF s])
  then show ?thesis by (rule keeps_mono) (auto simp: same_sid_def may_elect_def)
qed


subsection \<open>The choice of a candidate\<close>

text \<open>The log position of a request is ahead of another one.\<close>

definition ahead :: "vote_req_t \<Rightarrow> vote_req_t \<Rightarrow> bool" where
  "ahead r r' \<longleftrightarrow> vr_term r > vr_term r' \<or> (vr_term r = vr_term r' \<and> vr_index r > vr_index r')"

definition pick :: "vote_req_t \<Rightarrow> vote_req_t \<Rightarrow> vote_req_t" where
  "pick r best = (if vr_sid best > vr_sid r \<or> ahead best r then best else r)"

lemma ahead_trans: "\<not> ahead b a \<Longrightarrow> \<not> ahead c b \<Longrightarrow> \<not> ahead c a"
  by (auto simp: ahead_def)

lemma fold_pick:
  fixes rs :: "vote_req_t list"
  shows "fold pick rs b \<in> insert b (set rs)" "vr_sid b \<le> vr_sid (fold pick rs b)" "\<not> ahead b (fold pick rs b)"
    "r \<in> set rs \<Longrightarrow> vr_sid r < vr_sid (fold pick rs b) \<or> \<not> ahead r (fold pick rs b)"
proof -
  have base': "vr_sid b \<le> vr_sid (fold pick rs b) \<and> \<not> ahead b (fold pick rs b)" for rs b
  proof (induction rs arbitrary: b)
    case (Cons q rs)
    have "vr_sid b \<le> vr_sid (pick q b) \<and> \<not> ahead b (pick q b)" by (auto simp: pick_def ahead_def)
    then show ?case using Cons [of "pick q b"] ahead_trans [of "pick q b" "fold pick rs (pick q b)" b] by auto
  qed (simp add: ahead_def)
  show "fold pick rs b \<in> insert b (set rs)"
  proof (induction rs arbitrary: b)
    case (Cons q rs)
    have "pick q b = q \<or> pick q b = b" by (simp add: pick_def)
    then show ?case using Cons [of "pick q b"] by auto
  qed simp
  show "vr_sid b \<le> vr_sid (fold pick rs b)" "\<not> ahead b (fold pick rs b)" using base' by simp_all
  show "r \<in> set rs \<Longrightarrow> vr_sid r < vr_sid (fold pick rs b) \<or> \<not> ahead r (fold pick rs b)"
  proof (induction rs arbitrary: b)
    case (Cons q rs)
    let ?b = "pick q b" and ?f = "fold pick rs (pick q b)"
    have "vr_sid q < vr_sid ?b \<or> \<not> ahead q ?b" by (auto simp: pick_def ahead_def)
    then have "vr_sid q < vr_sid ?f \<or> \<not> ahead q ?f"
      using base' [where rs = rs and b = ?b] ahead_trans [of ?b ?f q] by auto
    then show ?case using Cons by auto
  qed simp
qed


definition requests :: "dare \<Rightarrow> nat \<Rightarrow> vote_req_t" where
  "requests s i = c_vote_req (d_ctrl s) i"

lemma drop_request_requests [simp]: "requests (drop_request i s) = (requests s)(i := (requests s i)\<lparr>vr_sid := 0\<rparr>)"
  by (auto simp: requests_def drop_request_def upd_ctrl_def)

lemma choose_turn_pick:
  "fst (choose_turn i (b, h, s)) = pick (requests s i) b" "h \<le> fst (snd (choose_turn i (b, h, s)))"
  "j \<noteq> i \<Longrightarrow> requests (snd (snd (choose_turn i (b, h, s)))) j = requests s j"
  by (auto simp: choose_turn_def pick_def ahead_def Let_def requests_def [symmetric])

lemma choose_pick:
  "distinct is \<Longrightarrow> fst (fold choose_turn is (b, h, s)) = fold pick (map (requests s) is) b"
proof (induction "is" arbitrary: b h s)
  case (Cons i "is")
  obtain b' h' s' where t: "choose_turn i (b, h, s) = (b', h', s')" by (metis surj_pair)
  have same: "map (requests s') is = map (requests s) is"
    using choose_turn_pick(3) [of _ i b h s] t Cons.prems by (auto, metis)
  show ?case
    using Cons.IH [of b' h' s'] choose_turn_pick(1) [of i b h s] t Cons.prems unfolding same by simp
qed simp

lemma choose_highest:
  "h \<le> fst (snd (fold choose_turn is (b, h, s)))"
  "fits_term h \<Longrightarrow> fits_term (fst (snd (fold choose_turn is (b, h, s))))"
proof -
  let ?P = "\<lambda>st. h \<le> fst (snd st) \<and> (fits_term h \<longrightarrow> fits_term (fst (snd st)))"
  have "?P (choose_turn i st)" if "?P st" for i st
    using that fits_sid_term by (cases st) (auto simp: choose_turn_def Let_def)
  then have "?P (fold choose_turn is (b, h, s))" by (intro fold_inv [where P = ?P]) auto
  then show "h \<le> fst (snd (fold choose_turn is (b, h, s)))"
    "fits_term h \<Longrightarrow> fits_term (fst (snd (fold choose_turn is (b, h, s))))" by auto
qed

text \<open>Requests carry the identifier of a candidate, in a term that is not the last one.\<close>

definition candidate_sid :: "u64 \<Rightarrow> bool" where
  "candidate_sid x \<longleftrightarrow> \<not> SID_GET_L x \<and> unat (SID_GET_TERM x) + 1 < 2 ^ 55"

definition requests_ok :: "dare \<Rightarrow> bool" where
  "requests_ok s \<longleftrightarrow> (\<forall>i. candidate_sid (vr_sid (requests s i)))"

lemma candidate_sid_0: "candidate_sid 0"
  by (simp add: candidate_sid_def sid_defs)

lemma requests_ok_drop: "requests_ok s \<Longrightarrow> requests_ok (drop_request i s)"
  by (simp add: requests_ok_def candidate_sid_0)

lemma scan_inv:
  "requests_ok s \<Longrightarrow> requests_ok (snd (fold scan_request is (x, s))) \<and>
     (fst (fold scan_request is (x, s)) = x \<or> x < fst (fold scan_request is (x, s)) \<and> candidate_sid (fst (fold scan_request is (x, s))))"
proof (induction "is" arbitrary: x s)
  case (Cons i "is")
  obtain y t where t: "scan_request i (x, s) = (y, t)" by (metis surj_pair)
  have "requests_ok t"
    using t Cons.prems requests_ok_drop [of s i] by (auto simp: scan_request_def split: if_splits)
  moreover have "y = x \<or> x < y \<and> candidate_sid y"
    using t Cons.prems by (auto simp: scan_request_def requests_ok_def requests_def split: if_splits)
  ultimately show ?case using Cons.IH [of t y] t by auto
qed simp


text \<open>Revoking the log access touches queue pairs only.\<close>

lemma upd_server_ctrl [simp]: "d_ctrl (upd_server i f s) = d_ctrl s" "d_ctrl (upd_ep i g s) = d_ctrl s" "d_ctrl (upd_qp i q h s) = d_ctrl s"
  by (simp_all add: upd_server_def upd_ep_def upd_qp_def)

lemma revoke_ctrl [simp]: "d_ctrl (snd (rc_revoke_log_access s)) = d_ctrl s"
proof -
  have r: "d_ctrl (snd (rc_qp_reset i q s)) = d_ctrl s" for i q s
    by (simp add: rc_qp_reset_def ibv_modify_qp_def Let_def)
  show ?thesis
    unfolding rc_revoke_log_access_def
    by (rule each_server_inv [where P = "\<lambda>x. d_ctrl x = d_ctrl s"]) (simp_all add: split_def r)
qed

lemma publish_nc_buf_ctrl: "publish_nc_buf s = Ret x s' \<Longrightarrow> d_ctrl s' = d_ctrl s"
  by (auto simp: publish_nc_buf_def Let_def upd_log_def split: option.splits)

lemma local_position_state: "local_position s = Ret x s' \<Longrightarrow> s' = s"
  by (auto simp: local_position_def Let_def split: option.splits if_splits)

lemma requests_cong: "d_ctrl s' = d_ctrl s \<Longrightarrow> requests s' = requests s"
  by (simp add: requests_def fun_eq_iff)

subsection \<open>Voting\<close>

lemma give_vote_sid:
  assumes "card_ok s"
  shows "keeps (may_elect (vr_sid best)) (give_vote best s)"
proof -
  let ?P = "same_sid (vr_sid best)"
  have "same_sid (d_sid s) s" using assms by (simp add: same_sid_def)
  moreover have "may_elect (vr_sid best) t" if "?P t" for t using that by (simp add: same_sid_def may_elect_def)
  ultimately show ?thesis
    unfolding give_vote_def Let_def
    by (auto intro!: keeps_bnd [where P = ?P] keeps_prod [where P = ?P] same_sid_update [where x = "d_sid s"]
        start_election_sid)
qed

text \<open>The vote goes to a later term than that of \<open>x\<close>, or the own term is raised.\<close>

definition later :: "u64 \<Rightarrow> dare \<Rightarrow> bool" where
  "later x s \<longleftrightarrow> SID_GET_TERM x < SID_GET_TERM (d_sid s)"

lemma may_elect_later:
  assumes "SID_SET_L x < y" and "candidate_sid y" and "may_elect y s"
  shows "later x s"
  using sid_above_voted [OF assms(1)] next_sid_term [of y] assms(2,3)
  by (auto simp: later_def may_elect_def candidate_sid_def intro: less_trans)

lemma raise_term_later:
  assumes "SID_GET_TERM x < t" and "fits_term t" and "d_sid s = x"
  shows "keeps (later x) (raise_term t s)"
  using assms
  by (simp add: raise_term_def server_update_sid_def later_def upd_ctrl_def SID_GET_SET_TERM)

lemma chosen_later:
  assumes t: "same_sid x t" and ok: "requests_ok t" and y: "SID_SET_L x < y" "candidate_sid y"
    and b: "vr_sid b = SID_SET_L x"
  shows "keeps (later x) (case fold choose_turn (group t) (b, SID_GET_TERM y, t) of (best, h, t) \<Rightarrow>
    if vr_sid best = SID_SET_L x then raise_term h t else give_vote best t)"
proof -
  obtain best h t' where f: "fold choose_turn (group t) (b, SID_GET_TERM y, t) = (best, h, t')" by (metis surj_pair)
  have "best = fold pick (map (requests t) (group t)) b"
    using choose_pick [of "group t" b "SID_GET_TERM y" t] f by (simp add: group_def)
  then have best: "best = b \<or> best \<in> set (map (requests t) (group t))" "SID_SET_L x \<le> vr_sid best"
    using fold_pick(1,2) [where b = b and rs = "map (requests t) (group t)"] b by auto
  have h: "SID_GET_TERM y \<le> h" "fits_term h"
    using choose_highest [of "SID_GET_TERM y" "group t" b t] f fits_sid_term by simp_all
  have t': "same_sid x t'" using sid.choose_turns [of x t "group t" b "SID_GET_TERM y"] f t by simp
  show ?thesis
  proof (cases "vr_sid best = SID_SET_L x")
    case True
    have "SID_GET_TERM x < h" using sid_above_voted y h(1) by (force simp: candidate_sid_def)
    then show ?thesis using raise_term_later [of x h t'] h(2) t' True f by (simp add: same_sid_def)
  next
    case False
    then have "SID_SET_L x < vr_sid best" "candidate_sid (vr_sid best)"
      using best b ok by (auto simp: requests_ok_def)
    then show ?thesis
      using give_vote_sid [of t' best] may_elect_later t' False f by (auto simp: same_sid_def elim!: keeps_mono)
  qed
qed

lemma consider_requests_later:
  assumes "same_sid x s" and "requests_ok s" and "SID_SET_L x < y" and "candidate_sid y"
  shows "keeps (later x) (consider_requests (SID_SET_L x) y s)"
proof -
  let ?P = "\<lambda>t. same_sid x t \<and> requests_ok t"
  have ok: "requests_ok t'" if "d_ctrl t' = d_ctrl t" "requests_ok t" for t t'
    using that(2) requests_cong [OF that(1)] by (simp add: requests_ok_def)
  have revoked: "?P (snd (rc_revoke_log_access s))" using assms(1,2) ok [of _ s] by simp
  have publish: "keeps ?P (publish_nc_buf t)" if "?P t" for t
    using sid.keeps_publish_nc_buf [of x t] publish_nc_buf_ctrl [of t] ok [of _ t] that
    by (cases "publish_nc_buf t") simp_all
  have position: "keeps ?P (local_position t)" if "?P t" for t
    using local_position_state [of t] that by (cases "local_position t") auto
  have "keeps (later x) (bnd (publish_nc_buf t) (\<lambda>_ s. bnd (local_position s) (\<lambda>(index, trm) s.
      case fold choose_turn (group s) (\<lparr>vr_sid = SID_SET_L x, vr_index = index, vr_term = trm, vr_cid = zero_cid\<rparr>, SID_GET_TERM y, s) of
        (best, h, s) \<Rightarrow> if vr_sid best = SID_SET_L x then raise_term h s else give_vote best s)))" if "?P t" for t
    using that chosen_later [OF _ _ assms(3,4)]
    by (intro keeps_bnd [OF publish] keeps_bnd [OF position]) (simp_all add: split_def)
  then show ?thesis
    unfolding consider_requests_def Let_def by (intro keeps_prod [where P = ?P, OF revoked]) simp
qed

text \<open>
  C6. A server votes at most once in a term, and its term never goes back. When \<^verbatim>\<open>poll_vote_requests\<close>
  returns, the state identifier is unchanged, or it is the heart-beat of the leader of the current term,
  or its term is larger than before: a vote (or the refusal to vote that only raises the own term) goes to
  a later term, also if the acknowledgement fails and the server starts an election itself. The hypotheses
  are that the network card does not write the state identifier, and that vote requests carry identifiers
  of candidates, without the leader flag, in a term that is not the last one of 55 bits.
\<close>

theorem votes_once_per_term:
  assumes "card_ok s" and "requests_ok s" and "poll_vote_requests s = Ret () s'"
  shows "d_sid s' = d_sid s \<or>
    (d_sid s' = c_hb (d_ctrl s) (unat (SID_GET_IDX (d_sid s))) \<and> SID_GET_TERM (d_sid s') = SID_GET_TERM (d_sid s)) \<or>
    SID_GET_TERM (d_sid s) < SID_GET_TERM (d_sid s')"
proof -
  let ?x = "d_sid s" and ?scan = "fold scan_request (group s) (SID_SET_L (d_sid s), s)"
  have scan: "same_sid ?x (snd ?scan)" "requests_ok (snd ?scan)"
    "fst ?scan = SID_SET_L ?x \<or> SID_SET_L ?x < fst ?scan \<and> candidate_sid (fst ?scan)"
    using sid.scan_requests [of ?x s] scan_inv [OF assms(2)] assms(1) by (auto simp: same_sid_def)
  have "keeps (later ?x) (consider_requests (SID_SET_L ?x) (fst ?scan) (snd ?scan))" if "fst ?scan \<noteq> SID_SET_L ?x"
    using consider_requests_later [OF scan(1,2)] scan(3) that by simp
  then show ?thesis
    using assms(3) scan(1)
    by (auto simp: poll_vote_requests_def server_update_sid_def upd_ctrl_def Let_def later_def same_sid_def split_def
        split: if_splits dest: keeps_RetD)
qed

text \<open>
  The example: server 0 holds one entry of term 1 that is not committed; server 1 asks for its vote in
  term 3, with a log whose last entry is of term 0.
\<close>

definition asked :: dare where
  "asked = blank\<lparr>d_config := zero_config\<lparr>cf_cid := \<lparr>cid_epoch = 0, cid_size0 = 2, cid_size1 = 0, cid_state = CID_STABLE,
       cid_bitmask = 3\<rparr>\<rparr>,
     d_log := log_new\<lparr>l_end := 48, l_mem := (\<lambda>a. if a = 8 then 1 else 0)\<rparr>,
     d_ctrl := zero_ctrl\<lparr>c_vote_req := (\<lambda>_. \<lparr>vr_sid = 0, vr_index = 0, vr_term = 0, vr_cid = zero_cid\<rparr>)
       (1 := \<lparr>vr_sid = 1537, vr_index = 5, vr_term = 0, vr_cid = zero_cid\<rparr>)\<rparr>\<rparr>"

theorem votes_once_per_term_witness:
  "card_ok asked \<and> requests_ok asked \<and>
   (\<exists>s'. poll_vote_requests asked = Ret () s' \<and> SID_GET_TERM (d_sid asked) < SID_GET_TERM (d_sid s'))"
proof -
  have run: "case poll_vote_requests asked of Ret _ s \<Rightarrow> d_sid s = 1536 | _ \<Rightarrow> False" by code_simp
  then obtain s' where s': "poll_vote_requests asked = Ret () s'" "d_sid s' = 1536"
    by (cases "poll_vote_requests asked") auto
  have ok: "card_ok asked" "requests_ok asked"
    by (auto simp: card_ok_def requests_ok_def requests_def candidate_sid_def asked_def blank_def zero_ctrl_def sid_defs)
  have "d_sid asked = 0" "c_hb (d_ctrl asked) i = 0" for i by (simp_all add: asked_def zero_ctrl_def)
  then show ?thesis using votes_once_per_term [OF ok s'(1)] s' ok by auto
qed



subsection \<open>Majorities\<close>

text \<open>Whether the answer of server \<open>i\<close> to the vote request has arrived.\<close>

definition voted :: "dare \<Rightarrow> nat \<Rightarrow> bool" where
  "voted s i \<longleftrightarrow> i \<noteq> d_idx s \<and> c_vote_ack (d_ctrl s) i \<noteq> l_len (d_log s)"

definition vote_count :: "dare \<Rightarrow> u8 \<Rightarrow> nat" where
  "vote_count s sz = length (filter (voted s) [0..<unat sz])"

lemma count_vote_state:
  assumes "count_vote i (v0, v1, s) = (w0, w1, t)"
  shows "voted t = voted s" "d_cid t = d_cid s" "d_sid t = d_sid s"
    "w0 = (if voted s i \<and> i < unat (cid_size0 (d_cid s)) then v0 + 1 else v0)"
    "w1 = (if voted s i \<and> i < unat (cid_size1 (d_cid s)) then v1 + 1 else v1)"
  using assms
  by (auto simp: count_vote_def no_vote_ack_def voted_def fun_eq_iff Let_def raise_commit_def set_lr_step_def
      set_commit_of_def upd_ctrl_def upd_log_def upd_server_def split: if_splits)

lemma count_votes_fold:
  "fold count_vote is (v0, v1, s) = (w0, w1, t) \<Longrightarrow>
     d_cid t = d_cid s \<and> d_sid t = d_sid s \<and>
     w0 = v0 + of_nat (length (filter (\<lambda>i. voted s i \<and> i < unat (cid_size0 (d_cid s))) is)) \<and>
     w1 = v1 + of_nat (length (filter (\<lambda>i. voted s i \<and> i < unat (cid_size1 (d_cid s))) is))"
proof (induction "is" arbitrary: v0 v1 s)
  case (Cons i "is")
  obtain u0 u1 r where u: "count_vote i (v0, v1, s) = (u0, u1, r)" by (metis surj_pair)
  show ?case
    using Cons.IH [of u0 u1 r] Cons.prems u count_vote_state [OF u] by (simp add: add.assoc)
qed simp

lemma unat_one_plus: "unat (1 + of_nat n :: u8) \<le> 1 + n"
proof -
  have "unat (of_nat (1 + n) :: u8) \<le> 1 + n" by (simp only: unat_of_nat) (rule mod_less_eq_dividend)
  then show ?thesis by simp
qed

lemma filter_bound: "length (filter (\<lambda>i. P i \<and> i < n) [0..<m]) \<le> length (filter P [0..<n])"
proof -
  have "set (filter (\<lambda>i. P i \<and> i < n) [0..<m]) \<subseteq> set (filter P [0..<n])" by auto
  then show ?thesis
    by (metis card_mono distinct_card distinct_filter distinct_upt finite_set)
qed

lemma enough_votes_majority:
  assumes "count_votes s = (v0, v1, t)" and "enough_votes v0 v1 (d_cid t)"
  shows "unat (cid_size0 (d_cid s)) div 2 \<le> vote_count s (cid_size0 (d_cid s))"
    and "cid_state (d_cid s) \<noteq> CID_STABLE \<Longrightarrow> unat (cid_size1 (d_cid s)) div 2 \<le> vote_count s (cid_size1 (d_cid s))"
proof -
  let ?n = "\<lambda>sz. length (filter (\<lambda>i. voted s i \<and> i < unat sz) (group s))"
  have v: "d_cid t = d_cid s" "v0 = 1 + of_nat (?n (cid_size0 (d_cid s)))" "v1 = 1 + of_nat (?n (cid_size1 (d_cid s)))"
    using count_votes_fold [of "group s" 1 1 s] assms(1) by (simp_all add: count_votes_def)
  have b: "?n sz \<le> vote_count s sz" for sz
    unfolding group_def vote_count_def by (rule filter_bound)
  show "unat (cid_size0 (d_cid s)) div 2 \<le> vote_count s (cid_size0 (d_cid s))"
    using assms(2) v unat_one_plus [of "?n (cid_size0 (d_cid s))"] b [of "cid_size0 (d_cid s)"]
    by (simp add: enough_votes_def)
  show "unat (cid_size1 (d_cid s)) div 2 \<le> vote_count s (cid_size1 (d_cid s))" if "cid_state (d_cid s) \<noteq> CID_STABLE"
    using assms(2) v that unat_one_plus [of "?n (cid_size1 (d_cid s))"] b [of "cid_size1 (d_cid s)"]
    by (simp add: enough_votes_def)
qed

text \<open>A server that did not know a leader has one after counting the votes.\<close>

definition elected :: "dare \<Rightarrow> bool" where
  "elected s \<longleftrightarrow> \<not> SID_GET_L (d_sid s) \<and> (case poll_vote_count s of Ret _ s' \<Rightarrow> SID_GET_L (d_sid s') | _ \<Rightarrow> False)"

lemma elected_enough:
  assumes "elected s" and "count_votes s = (v0, v1, t)"
  shows "enough_votes v0 v1 (d_cid t)"
proof (rule ccontr)
  assume "\<not> enough_votes v0 v1 (d_cid t)"
  then have "poll_vote_count s = Ret () t" using assms(2) by (simp add: poll_vote_count_def)
  moreover have "d_sid t = d_sid s"
    using count_votes_fold [of "group s" 1 1 s] assms(2) by (simp add: count_votes_def)
  ultimately show False using assms(1) by (simp add: elected_def)
qed

lemma elected_majority:
  assumes "elected s"
  shows "unat (cid_size0 (d_cid s)) div 2 < 1 + vote_count s (cid_size0 (d_cid s))"
    and "cid_state (d_cid s) \<noteq> CID_STABLE \<Longrightarrow> unat (cid_size1 (d_cid s)) div 2 < 1 + vote_count s (cid_size1 (d_cid s))"
proof -
  obtain v0 v1 t where c: "count_votes s = (v0, v1, t)" by (metis surj_pair)
  note m = enough_votes_majority [OF c elected_enough [OF assms c]]
  show "unat (cid_size0 (d_cid s)) div 2 < 1 + vote_count s (cid_size0 (d_cid s))" using m(1) by simp
  show "unat (cid_size1 (d_cid s)) div 2 < 1 + vote_count s (cid_size1 (d_cid s))" if "cid_state (d_cid s) \<noteq> CID_STABLE"
    using m(2) [OF that] by simp
qed

text \<open>
  C12. A candidate becomes leader only with a majority. If \<^verbatim>\<open>poll_vote_count\<close> makes the local server a leader,
  then it and at least half of the group have answered its request, so that they are more than half of
  the servers including itself; outside of a stable configuration the same holds for the new size of the
  group. The counters of 8 bits do not let an election through by an overflow.
\<close>

theorem leader_has_majority:
  assumes "elected s"
  shows "unat (cid_size0 (d_cid s)) div 2 < 1 + vote_count s (cid_size0 (d_cid s)) \<and>
    (cid_state (d_cid s) = CID_STABLE \<or> unat (cid_size1 (d_cid s)) div 2 < 1 + vote_count s (cid_size1 (d_cid s)))"
  using elected_majority [OF assms] by (cases "cid_state (d_cid s) = CID_STABLE") simp_all

text \<open>
  The example: in a group of three, server 0 is a candidate in term 1, and server 1 has acknowledged
  with its commit offset 0; the length of the log stands for a missing answer.
\<close>

definition candidate :: dare where
  "candidate = blank\<lparr>d_config := zero_config\<lparr>cf_cid := \<lparr>cid_epoch = 0, cid_size0 = 3, cid_size1 = 0, cid_state = CID_STABLE,
       cid_bitmask = 7\<rparr>\<rparr>,
     d_ctrl := zero_ctrl\<lparr>c_sid := 512, c_vote_ack := (\<lambda>i. if i = 1 then 0 else LOG_SIZE)\<rparr>\<rparr>"

lemma candidate_elected: "elected candidate"
  by code_simp

theorem leader_has_majority_witness:
  "elected candidate \<and> unat (cid_size0 (d_cid candidate)) div 2 < 1 + vote_count candidate (cid_size0 (d_cid candidate))"
  using leader_has_majority [OF candidate_elected] candidate_elected by blast





subsection \<open>Heart-beat replies\<close>

lemma to_follower_sid: "same_sid x s \<Longrightarrow> keeps (may_elect x) (server_to_follower s)"
proof -
  assume s: "same_sid x s"
  have "may_elect x t" if "same_sid x t" for t using that by (simp add: same_sid_def may_elect_def)
  then show ?thesis
    using s unfolding server_to_follower_def Let_def
    by (auto intro!: keeps_bnd [where P = "same_sid x"] start_election_sid)
qed

text \<open>A loop whose early return satisfies \<open>Q\<close> and whose turns keep \<open>P\<close>.\<close>

definition leaves :: "(dare \<Rightarrow> bool) \<Rightarrow> (dare \<Rightarrow> bool) \<Rightarrow> ('r + 'v) result \<Rightarrow> bool" where
  "leaves Q P r \<longleftrightarrow> (case r of Ret (Inl _) s \<Rightarrow> Q s | Ret (Inr _) s \<Rightarrow> P s | _ \<Rightarrow> True)"

lemma leaves_simps [simp]:
  "leaves Q P (Ret (Inl x) s) = Q s" "leaves Q P (Ret (Inr v) s) = P s" "leaves Q P (Shutdown s)"
  "leaves Q P (Exit s)" "leaves Q P (Hang s)" "leaves Q P (Fault s)"
  by (simp_all add: leaves_def)

lemma leaves_loop:
  "P s \<Longrightarrow> (\<And>i v s. P s \<Longrightarrow> leaves Q P (body i v s)) \<Longrightarrow> leaves Q P (loop is body v s)"
proof (induction "is" arbitrary: v s)
  case (Cons i "is")
  have "leaves Q P (body i v s)" using Cons.prems by simp
  then show ?case
    using Cons.IH [OF _ Cons.prems(2)] by (cases "body i v s") (auto split: sum.split)
qed simp

lemma leaves_bnd:
  "leaves Q P r \<Longrightarrow> (\<And>x s. Q s \<Longrightarrow> keeps R (f (Inl x) s)) \<Longrightarrow> (\<And>v s. P s \<Longrightarrow> keeps R (f (Inr v) s)) \<Longrightarrow> keeps R (bnd r f)"
  by (cases r) (auto simp: leaves_def split: sum.splits)

lemma send_turn_sid:
  assumes s: "same_sid x s"
  shows "leaves (may_elect x) (same_sid x) (send_turn x i v s)"
proof -
  obtain hb t where f: "fetch_hb i s = (hb, t)" by (metis surj_pair)
  then have t: "same_sid x t" using s sid.heartbeat_reads(1) [of x i s] by simp
  have "upd_ctrl (\<lambda>c. c\<lparr>c_sid := x\<rparr>) t = t" using t by (simp add: upd_ctrl_def same_sid_def)
  then have "server_update_sid x (d_sid t) t = Ret 0 t" by (simp add: server_update_sid_def)
  then show ?thesis
    using s t to_follower_sid [OF t] f
    by (cases "server_to_follower t") (auto simp: send_turn_def)
qed

text \<open>
  C31. A leader does not adopt the term of a heart-beat reply. After \<^verbatim>\<open>hb_send_cb\<close> the state identifier of the
  server is what it was, or that of its own election in the next term; the identifier of the reply is
  never taken, since \<^verbatim>\<open>server_update_sid\<close> is called with the value the identifier already has. A comment in
  \<^verbatim>\<open>poll_vote_requests\<close> says that a leader renounces its leadership when it receives a reply with a larger
  term: it turns off its heart-beats, but it remains leader by its identifier.
\<close>

theorem hb_reply_not_adopted:
  assumes "card_ok s" and "hb_send s = Ret () s'"
  shows "d_sid s' = d_sid s \<or> (\<exists>idx. d_sid s' = next_sid (d_sid s) idx)"
proof -
  let ?x = "d_sid s"
  have "leaves (may_elect ?x) (same_sid ?x) (loop (group s) (send_turn ?x) () s)"
    using assms(1) by (intro leaves_loop send_turn_sid) (simp_all add: same_sid_def)
  then have "keeps (may_elect ?x) (hb_send s)"
    unfolding hb_send_def
  proof (rule leaves_bnd)
    show "keeps (may_elect ?x) (case Inr v of Inl _ \<Rightarrow> Ret () t | Inr _ \<Rightarrow>
        bnd (rc_send_hb t) (\<lambda>rc s. if rc \<noteq> 0 then Shutdown (set_hb_repeat Stopped s) else Ret () (set_hb_repeat (Hb 10) s)))"
      if "same_sid ?x t" for v t
      using that
      by (auto intro!: keeps_bnd [where P = "same_sid ?x"] simp: may_elect_def same_sid_def set_hb_repeat_def)
  qed simp
  then have "may_elect ?x s'" using assms(2) by simp
  then show ?thesis by (simp add: may_elect_def)
qed

text \<open>The example: the leader of term 5 in a group of three, to which server 1 has replied with term 9.\<close>

definition deposed :: dare where
  "deposed = blank\<lparr>d_config := zero_config\<lparr>cf_cid := \<lparr>cid_epoch = 0, cid_size0 = 3, cid_size1 = 0, cid_state = CID_STABLE,
       cid_bitmask = 7\<rparr>\<rparr>,
     d_ctrl := zero_ctrl\<lparr>c_sid := 2816, c_hb := (\<lambda>i. if i = 1 then 4609 else 0)\<rparr>\<rparr>"

theorem hb_reply_not_adopted_witness:
  "SID_GET_TERM (c_hb (d_ctrl deposed) 1) = 9 \<and>
   (\<exists>s'. hb_send deposed = Ret () s' \<and> is_leader s' \<and> t_cb (d_hb_event s') = hb_receive_cb \<and>
      (d_sid s' = 2816 \<or> (\<exists>idx. d_sid s' = next_sid 2816 idx)))"
proof -
  have "case hb_send deposed of Ret _ s \<Rightarrow> is_leader s \<and> t_cb (d_hb_event s) = hb_receive_cb | _ \<Rightarrow> False" by code_simp
  then obtain s' where s': "hb_send deposed = Ret () s'" "is_leader s'" "t_cb (d_hb_event s') = hb_receive_cb"
    by (cases "hb_send deposed") auto
  have ok: "card_ok deposed" "d_sid deposed = 2816" by (simp_all add: card_ok_def deposed_def blank_def)
  have "SID_GET_TERM (c_hb (d_ctrl deposed) 1) = 9" by code_simp
  then show ?thesis using hb_reply_not_adopted [OF ok(1) s'(1)] s' ok(2) by auto
qed

end
