(* ===== verification/ApplySpec.thy ===== *)
theory ApplySpec
  imports LogProps Apply
begin

text \<open>
  What the application of committed entries means in terms of the list of entries that the log stands
  for: the loop of \<^verbatim>\<open>apply_committed_entries\<close> ends, visits exactly the committed entries that are not yet
  applied, each once and in order, and leaves an equally well-formed log behind. On a follower the
  commands go to the virtual machine, on a leader they release the threads that wait for them.
\<close>

subsection \<open>Offsets that do not matter for the walk\<close>

lemma log_from_same:
  assumes "l_mem l' = l_mem l" "l_len l' = l_len l" "l_head l' = l_head l" "l_end l' = l_end l"
  shows "log_from l' a as \<longleftrightarrow> log_from l a as"
proof -
  have one: "log_from k' a as" if "log_from k a as" "l_mem k' = l_mem k" "l_len k' = l_len k" "l_head k' = l_head k"
    "l_end k' = l_end k" for k k' :: dare_log_t
    using that
  proof (induction rule: log_from.induct)
    case log_from_end
    then show ?case by (metis log_from.log_from_end)
  next
    case (log_from_here a as)
    then show ?case by (intro log_from.log_from_here) (simp_all add: used_def)
  next
    case (log_from_wrap a as)
    then show ?case by (intro log_from.log_from_wrap) (simp_all add: wraps_at_def)
  qed
  show ?thesis using one [of l l'] one [of l' l] assms by metis
qed

lemma log_apply_irrelevant [simp]:
  "log_from (l\<lparr>l_apply := x\<rparr>) a as = log_from l a as"
  "log_wf (l\<lparr>l_apply := x\<rparr>) = log_wf l"
  "dist (l\<lparr>l_apply := x\<rparr>) a = dist l a"
  "log_is_offset_larger (l\<lparr>l_apply := x\<rparr>) = log_is_offset_larger l"
  "log_get_entry (l\<lparr>l_apply := x\<rparr>) = log_get_entry l"
  "log_fit_entry (l\<lparr>l_apply := x\<rparr>) = log_fit_entry l"
  "log_entry_len (l\<lparr>l_apply := x\<rparr>) = log_entry_len l"
  by (rule log_from_same; simp)
    (auto intro!: ext simp: log_wf_def dist_def log_is_offset_larger_def log_get_entry_def
      is_log_empty_def log_offset_end_distance_def log_fit_entry_header_def log_fit_entry_def log_entry_len_def Let_def)

subsection \<open>The loop\<close>

text \<open>
  The commit offset stands behind the last committed entry, or where the apply offset is if everything
  is applied.
\<close>

definition committed_end :: "dare_log_t \<Rightarrow> nat list \<Rightarrow> bool" where
  "committed_end l B \<longleftrightarrow> unat (l_commit l) = (if B = [] then unat (l_apply l) else last B + size_at l (last B))"

text \<open>The effect of one turn of the loop on an entry that does not change the configuration.\<close>

definition apply_step :: "nat \<Rightarrow> dare \<Rightarrow> dare" where
  "apply_step b s = upd_log (\<lambda>l. l\<lparr>l_apply := of_nat b + ucast (log_entry_len l (of_nat b))\<rparr>)
     (apply_cmd_entry b (upd_log (\<lambda>l. l\<lparr>l_apply := of_nat b\<rparr>) s))"

lemma apply_cmd_entry_keeps [simp]:
  "d_log (apply_cmd_entry e s) = d_log s" "is_leader (apply_cmd_entry e s) = is_leader s"
  by (simp_all add: apply_cmd_entry_def Let_def is_leader_def is_none_def)

text \<open>
  Entries that do not start a reconfiguration: everything but configurations that are unstable or have
  to be answered. A new leader logs its configuration without a request.
\<close>

definition plain_entry :: "log_entry \<Rightarrow> bool" where
  "plain_entry e \<longleftrightarrow> (case le_data e of PConfig cid \<Rightarrow> cid_state cid = CID_STABLE \<and> le_req_id e = 0 | _ \<Rightarrow> True)"

lemma apply_one_plain:
  "(is_leader s \<longrightarrow> plain_entry (entry_at (l_mem (d_log s)) e)) \<Longrightarrow> apply_one e s = Ret () (apply_cmd_entry e s)"
  by (auto simp: apply_one_def apply_cmd_entry_def apply_config_entry_def plain_entry_def entry_at_def payload_at_def
      Let_def is_cmd_def entry_types split: if_splits)

lemma larger_when_committed:
  assumes "log_wf l" "log_from l (unat x) (B @ C)" "committed_end l B" "B \<noteq> []"
  shows "log_is_offset_larger l (l_commit l) x"
proof -
  have c: "unat (l_commit l) = last B + size_at l (last B)" using assms(3,4) by (simp add: committed_end_def)
  have walk: "log_from l (unat x) (butlast B @ last B # C)"
    using assms(2) append_butlast_last_id [OF assms(4)] by (metis append.assoc append_Cons append_Nil)
  have "last B + size_at l (last B) \<le> nlen l"
    using log_from_used [OF walk assms(1), of "last B"] assms(1) by (auto simp: used_def log_wf_def split: if_splits)
  then show ?thesis
    using dist_behind [OF walk assms(1)] c log_from_bound [OF walk assms(1)] assms(1) by (simp add: larger_iff_dist)
qed

text \<open>Where the walk finds its first entry: at the offset, or at 0 after a wrap-around.\<close>

lemma first_entry_cases:
  assumes "log_wf l" and "log_from l (unat x) (b # as)"
  shows "(log_get_entry l x = (Some (of_nat b), of_nat b) \<and> log_fit_entry l (of_nat b) (of_nat b) \<and>
      unat (of_nat b :: u64) = b \<and> log_from l (b + size_at l b) as) \<or>
    (log_get_entry l x = (Some x, x) \<and> \<not> log_fit_entry l x x \<and> b = 0 \<and> log_from l 0 (b # as) \<and>
      log_get_entry l 0 = (Some 0, 0) \<and> log_fit_entry l 0 0 \<and> log_from l (size_at l 0) as)"
proof -
  have bound: "unat x \<le> nlen l" using log_from_bound [OF assms(2,1)] .
  have ne: "unat x \<noteq> nend l" using assms(2) by (auto elim: log_from_ConsE)
  have get: "log_get_entry l x = (if unat x + 48 \<le> nlen l then (Some x, x) else (Some 0, 0))"
    using assms(1) bound ne by (simp add: log_get_entry_def log_wf_not_empty distance_0 fit_header_iff)
  consider (here) "b = unat x" "used l (unat x) (size_at l (unat x))" "log_from l (unat x + size_at l (unat x)) as"
    | (wrap) "b = 0" "wraps_at l (unat x)" "log_from l (size_at l 0) as"
    using assms(2) by (auto elim: log_from_ConsE)
  then show ?thesis
  proof cases
    case here
    then have "unat x + size_at l (unat x) \<le> nlen l"
      using assms(1) by (auto simp: used_def log_wf_def split: if_splits)
    then show ?thesis
      using here get bound entry_size_bounds(1) [of "l_mem l" "unat x"] by (simp add: fit_entry_iff)
  next
    case wrap
    have zero: "log_from l 0 (0 # as)"
      using wrap assms(1) log_from_here [of 0 l as] by (auto simp: used_def wraps_at_def log_wf_def)
    have first: "log_get_entry l 0 = (Some 0, 0)" "log_fit_entry l 0 0"
      using wrap assms(1) by (auto simp: log_get_entry_def log_wf_not_empty distance_0 fit_header_iff fit_entry_iff
          log_wf_def wraps_at_def)
    show ?thesis
      using wrap zero first get bound assms(1)
      by (cases "unat x + 48 \<le> nlen l") (auto simp: fit_entry_iff wraps_at_def log_wf_def)
  qed
qed

lemma apply_step_log:
  "d_log (apply_step b s) = (d_log s)\<lparr>l_apply := of_nat b + ucast (log_entry_len (d_log s) (of_nat b))\<rparr>"
  "is_leader (apply_step b s) = is_leader s"
  by (simp_all add: apply_step_def upd_log_def is_leader_def is_none_def apply_cmd_entry_def Let_def)

lemma upd_log_apply_twice: "upd_log (\<lambda>l. l\<lparr>l_apply := y\<rparr>) (upd_log (\<lambda>l. l\<lparr>l_apply := x\<rparr>) s) = upd_log (\<lambda>l. l\<lparr>l_apply := y\<rparr>) s"
  by (simp add: upd_log_def)

lemma apply_step_apply: "apply_step b (upd_log (\<lambda>l. l\<lparr>l_apply := x\<rparr>) s) = apply_step b s"
  by (simp add: apply_step_def upd_log_apply_twice)

lemma apply_loop_fits:
  assumes "log_is_offset_larger (d_log s) (l_commit (d_log s)) (l_apply (d_log s))"
    and "log_get_entry (d_log s) (l_apply (d_log s)) = (Some (of_nat b), of_nat b)"
    and "log_fit_entry (d_log s) (of_nat b) (of_nat b)" and "unat (of_nat b :: u64) = b"
    and "is_leader s \<longrightarrow> plain_entry (entry_at (l_mem (d_log s)) b)"
  shows "apply_loop s = apply_loop (apply_step b s)"
proof -
  let ?s = "upd_log (\<lambda>l. l\<lparr>l_apply := of_nat b\<rparr>) s"
  have "apply_one b ?s = Ret () (apply_cmd_entry b ?s)"
    using assms(5) by (intro apply_one_plain) (simp add: upd_log_def is_leader_def is_none_def)
  then show ?thesis
    using assms(1-4) by (subst apply_loop.simps) (simp add: apply_step_def Let_def, simp add: upd_log_def)
qed

lemma apply_loop_wraps:
  assumes "log_is_offset_larger (d_log s) (l_commit (d_log s)) (l_apply (d_log s))"
    and "log_get_entry (d_log s) (l_apply (d_log s)) = (Some (l_apply (d_log s)), l_apply (d_log s))"
    and "\<not> log_fit_entry (d_log s) (l_apply (d_log s)) (l_apply (d_log s))"
  shows "apply_loop s = apply_loop (upd_log (\<lambda>l. l\<lparr>l_apply := 0\<rparr>) s)"
  using assms by (subst apply_loop.simps) (simp add: upd_log_def)

lemma apply_loop_run:
  assumes "log_wf (d_log s)" and "log_from (d_log s) (unat (l_apply (d_log s))) (B @ C)"
    and "committed_end (d_log s) B"
    and "\<And>b. b \<in> set B \<Longrightarrow> is_leader s \<longrightarrow> plain_entry (entry_at (l_mem (d_log s)) b)"
  shows "apply_loop s = Some (Ret () (fold apply_step B s))"
  using assms
proof (induction B arbitrary: s)
  case Nil
  then have "l_commit (d_log s) = l_apply (d_log s)" by (simp add: committed_end_def word_eq_nat)
  then show ?case by (subst apply_loop.simps) (simp add: log_is_offset_larger_distance)
next
  case (Cons b B)
  have step: "apply_loop t = Some (Ret () (fold apply_step (b # B) s))"
    if t: "log_get_entry (d_log t) (l_apply (d_log t)) = (Some (of_nat b), of_nat b)"
      "log_fit_entry (d_log s) (of_nat b) (of_nat b)" "unat (of_nat b :: u64) = b"
      "log_from (d_log s) (b + size_at (d_log s) b) (B @ C)"
      "log_from (d_log s) (unat (l_apply (d_log t))) (b # B @ C)"
      and same: "\<exists>x. t = upd_log (\<lambda>l. l\<lparr>l_apply := x\<rparr>) s" for t
  proof -
    obtain x where x: "t = upd_log (\<lambda>l. l\<lparr>l_apply := x\<rparr>) s" using same by blast
    have fields: "d_log t = (d_log s)\<lparr>l_apply := x\<rparr>" "is_leader t = is_leader s"
      by (simp_all add: x upd_log_def is_leader_def is_none_def)
    have larger: "log_is_offset_larger (d_log t) (l_commit (d_log t)) (l_apply (d_log t))"
      using larger_when_committed [of "d_log s" x "b # B" C] Cons.prems(1,3) t(5) fields
      by (simp add: committed_end_def)
    have "b + size_at (d_log s) b \<le> nlen (d_log s)" using log_from_bound [OF t(4) Cons.prems(1)] .
    then have next_ok: "unat (of_nat b + ucast (log_entry_len (d_log s) (of_nat b)) :: u64) = b + size_at (d_log s) b"
      using t(3) Cons.prems(1) by (simp add: unat_plus_u64 unat_log_entry_len log_wf_def)
    have "apply_loop t = apply_loop (apply_step b t)"
      using t(1-3) larger Cons.prems(4) fields by (intro apply_loop_fits) simp_all
    also have "apply_step b t = apply_step b s" by (simp add: x apply_step_apply)
    also have "apply_loop (apply_step b s) = Some (Ret () (fold apply_step B (apply_step b s)))"
      using Cons.prems t(4) next_ok
      by (intro Cons.IH) (auto simp: apply_step_log committed_end_def split: if_splits)
    finally show ?thesis by simp
  qed
  consider (fits) "log_get_entry (d_log s) (l_apply (d_log s)) = (Some (of_nat b), of_nat b)"
      "log_fit_entry (d_log s) (of_nat b) (of_nat b)" "unat (of_nat b :: u64) = b"
      "log_from (d_log s) (b + size_at (d_log s) b) (B @ C)"
    | (wraps) "log_get_entry (d_log s) (l_apply (d_log s)) = (Some (l_apply (d_log s)), l_apply (d_log s))"
      "\<not> log_fit_entry (d_log s) (l_apply (d_log s)) (l_apply (d_log s))" "b = 0" "log_from (d_log s) 0 (b # B @ C)"
      "log_get_entry (d_log s) 0 = (Some 0, 0)" "log_fit_entry (d_log s) 0 0" "log_from (d_log s) (size_at (d_log s) 0) (B @ C)"
    using first_entry_cases [of "d_log s" "l_apply (d_log s)" b "B @ C"] Cons.prems(1,2) by auto
  then show ?case
  proof cases
    case fits
    then show ?thesis
      using Cons.prems(2) by (intro step) (auto simp: upd_log_def intro!: exI [of _ "l_apply (d_log s)"])
  next
    case wraps
    let ?t = "upd_log (\<lambda>l. l\<lparr>l_apply := 0\<rparr>) s"
    have larger: "log_is_offset_larger (d_log s) (l_commit (d_log s)) (l_apply (d_log s))"
      using larger_when_committed [of "d_log s" _ "b # B" C] Cons.prems(1-3) by simp
    have t: "d_log ?t = (d_log s)\<lparr>l_apply := 0\<rparr>" by (simp add: upd_log_def)
    have "apply_loop s = apply_loop ?t" using larger wraps(1,2) by (intro apply_loop_wraps)
    also have "\<dots> = Some (Ret () (fold apply_step (b # B) s))"
      using wraps(3-) by (intro step) (auto simp: t)
    finally show ?thesis .
  qed
qed

subsection \<open>The log after the loop\<close>

lemma log_from_last: "log_from l a as \<Longrightarrow> as \<noteq> [] \<Longrightarrow> last as + size_at l (last as) = nend l"
  by (induction rule: log_from.induct) auto

lemma fold_apply_step_log:
  "d_log (fold apply_step B s) = (if B = [] then d_log s else
     (d_log s)\<lparr>l_apply := of_nat (last B) + ucast (log_entry_len (d_log s) (of_nat (last B)))\<rparr>)"
  by (induction B arbitrary: s) (simp_all add: apply_step_log)

lemma committed_end_apply:
  assumes "log_wf l" and "log_from l (unat (l_apply l)) (B @ C)" and "committed_end l B" and "B \<noteq> []"
  shows "of_nat (last B) + ucast (log_entry_len l (of_nat (last B))) = l_commit l"
proof -
  have "last B \<in> set (B @ C)" using assms(4) by simp
  then have "last B + size_at l (last B) \<le> nlen l"
    using log_from_used [OF assms(2,1)] assms(1) by (fastforce simp: used_def log_wf_def split: if_splits)
  moreover from this have "unat (of_nat (last B) :: u64) = last B"
    using assms(1) by (simp add: unat_of_nat take_bit_nat_eq_self log_wf_def)
  ultimately show ?thesis
    using assms(1,3,4)
    by (simp add: word_eq_nat unat_plus_u64 unat_log_entry_len log_wf_def committed_end_def)
qed

lemma apply_loop_repr:
  assumes "log_repr (d_log s) A B C" and "committed_end (d_log s) B"
    and "\<And>b. b \<in> set B \<Longrightarrow> is_leader s \<longrightarrow> plain_entry (entry_at (l_mem (d_log s)) b)"
  shows "apply_loop s = Some (Ret () (fold apply_step B s))"
    and "d_log (fold apply_step B s) = (d_log s)\<lparr>l_apply := l_commit (d_log s)\<rparr>"
    and "log_repr ((d_log s)\<lparr>l_apply := l_commit (d_log s)\<rparr>) (A @ B) [] C"
proof -
  let ?l = "d_log s"
  have nil: "apply_loop s = Some (Ret () (fold apply_step B s))" "l_commit ?l = l_apply ?l" if "B = []"
  proof -
    show eq: "l_commit ?l = l_apply ?l" using assms(2) that by (simp add: committed_end_def word_eq_nat)
    then show "apply_loop s = Some (Ret () (fold apply_step B s))"
      using that by (subst apply_loop.simps) (simp add: log_is_offset_larger_distance)
  qed
  have walk: "log_wf ?l" "log_from ?l (unat (l_apply ?l)) (B @ C)" if "\<not> is_log_empty ?l"
    using assms(1) that by (simp_all add: log_repr_def)
  have ne: "\<not> is_log_empty ?l" if "B \<noteq> []" using assms(1) that by (auto simp: log_repr_def)
  show "apply_loop s = Some (Ret () (fold apply_step B s))"
    using nil(1) apply_loop_run [OF walk assms(2,3)] ne by (cases "B = []") simp_all
  show "d_log (fold apply_step B s) = ?l\<lparr>l_apply := l_commit ?l\<rparr>"
    using nil(2) committed_end_apply [OF walk assms(2)] ne by (cases "B = []") (simp_all add: fold_apply_step_log)
  show "log_repr (?l\<lparr>l_apply := l_commit ?l\<rparr>) (A @ B) [] C"
    using assms(1) by (auto simp: log_repr_def is_log_empty_def)
qed

subsection \<open>What the proxy gets\<close>

definition deliver :: "bool \<Rightarrow> mem \<Rightarrow> nat \<Rightarrow> proxy_node \<Rightarrow> proxy_node" where
  "deliver leader m e p =
     (if \<not> is_cmd (entry_type m e) then p
      else if leader then update_highest_rec p
      else do_action_to_server (entry_clt_id m e) (entry_type m e) (unat (entry_cmd_len m e)) (\<lambda>i. m (e + 34 + i)) p)"

lemma apply_step_proxy: "d_proxy (apply_step b s) = deliver (is_leader s) (l_mem (d_log s)) b (d_proxy s)"
  by (simp add: apply_step_def apply_cmd_entry_def deliver_def upd_log_def is_leader_def is_none_def Let_def)

lemma fold_apply_step_proxy:
  "d_proxy (fold apply_step B s) = fold (deliver (is_leader s) (l_mem (d_log s))) B (d_proxy s)"
  by (induction B arbitrary: s) (simp_all add: apply_step_log apply_step_proxy)

text \<open>What a follower sends to the virtual machine for one entry: length and bytes of a mirrored packet.\<close>

definition forwarded :: "log_entry \<Rightarrow> u8 list list" where
  "forwarded e = (case le_data e of PCmd cmd \<Rightarrow> if le_type e = MIRROR then [htonl (length cmd), cmd] else [] | _ \<Rightarrow> [])"

abbreviation unbatched :: "proxy_node \<Rightarrow> bool" where
  "unbatched p \<equiv> \<not> (px_batching p \<and> px_e1000_speedup p)"

lemma read_bytes_shift: "read_bytes (\<lambda>i. m (a + i)) 0 n = read_bytes m a n"
  by (simp add: read_bytes_def)

lemma deliver_follower:
  assumes "unbatched p"
  shows "px_sent (deliver False m e p) = px_sent p @ forwarded (entry_at m e)"
    and "px_checkpoint_req_status (deliver False m e p) =
      (if le_type (entry_at m e) = CHECKPOINT then CHECKPOINT_REQ_READY else px_checkpoint_req_status p)"
    and "unbatched (deliver False m e p)"
  using assms read_bytes_shift [of m "e + 34"]
  by (auto simp: deliver_def is_cmd_def do_action_to_server_def do_action_send_def forwarded_def entry_at_def payload_at_def
      entry_cmd_def entry_types proxy_types Let_def)

lemma fold_deliver_follower:
  assumes "unbatched p"
  shows "px_sent (fold (deliver False m) B p) = px_sent p @ concat (map forwarded (map (entry_at m) B))"
    and "px_checkpoint_req_status (fold (deliver False m) B p) =
      (if CHECKPOINT \<in> le_type ` entry_at m ` set B then CHECKPOINT_REQ_READY else px_checkpoint_req_status p)"
  using assms
proof (induction B arbitrary: p)
  case (Cons b B)
  {
    case 1
    then show ?case using Cons.IH(1) [OF deliver_follower(3)] by (simp add: deliver_follower(1))
  next
    case 2
    then show ?case using Cons.IH(2) [OF deliver_follower(3)] by (simp add: deliver_follower(2))
  }
qed simp_all

subsection \<open>Followers\<close>

text \<open>
  C4. A follower applies exactly the committed entries, once and in order. On a log that stands for the
  applied entries \<open>A\<close>, the committed ones \<open>B\<close> and the others \<open>C\<close>, \<^verbatim>\<open>apply_committed_entries\<close> ends; afterwards \<open>B\<close>
  is applied and no entry has changed; the virtual machine has been sent the mirrored packets of \<open>B\<close> in log
  order, each after its length; and a checkpoint is requested if \<open>B\<close> holds a checkpoint command. So two
  followers whose logs hold the same committed entries send the same packets, wherever the entries lie in
  their buffers. The hypotheses are that the commit offset stands behind the last committed entry and
  that packets are not batched.
\<close>

theorem follower_applies_committed:
  assumes "log_repr (d_log s) A B C" and "committed_end (d_log s) B" and "\<not> is_leader s" and "unbatched (d_proxy s)"
  shows "\<exists>s'. apply_committed_entries s = Ret () s' \<and>
    log_repr (d_log s') (A @ B) [] C \<and> committed_end (d_log s') [] \<and>
    log_list (d_log s') (A @ B @ C) = log_list (d_log s) (A @ B @ C) \<and>
    px_sent (d_proxy s') = px_sent (d_proxy s) @ concat (map forwarded (log_list (d_log s) B)) \<and>
    px_checkpoint_req_status (d_proxy s') =
      (if CHECKPOINT \<in> le_type ` set (log_list (d_log s) B) then CHECKPOINT_REQ_READY
       else px_checkpoint_req_status (d_proxy s))"
proof -
  let ?s = "fold apply_step B s"
  note run = apply_loop_repr [OF assms(1,2)]
  have "is_leader ?s = is_leader s" by (induction B arbitrary: s) (simp_all add: apply_step_log)
  then have "apply_committed_entries s = Ret () ?s"
    using run(1) assms(3) by (simp add: apply_committed_entries_def of_loop_def)
  moreover have "committed_end (d_log ?s) []" using run(2) assms(3) by (simp add: committed_end_def)
  ultimately show ?thesis
    using run(2,3) assms(3) fold_deliver_follower [OF assms(4)]
    by (intro exI [of _ ?s]) (simp add: fold_apply_step_proxy log_list_def)
qed

text \<open>The commit offset at the end of the log: everything is committed.\<close>

definition commit_all :: "dare_log_t \<Rightarrow> dare_log_t" where
  "commit_all l = l\<lparr>l_commit := l_end l\<rparr>"

lemma commit_all_same [simp]:
  "l_mem (commit_all l) = l_mem l" "l_apply (commit_all l) = l_apply l" "log_list (commit_all l) as = log_list l as"
  "log_from (commit_all l) a as = log_from l a as" "log_wf (commit_all l) = log_wf l"
  by (simp_all add: commit_all_def log_list_def log_from_same [of "l\<lparr>l_commit := x\<rparr>" l for x] log_wf_def)

lemma commit_all_repr:
  assumes "log_repr l A B C" and "C \<noteq> []"
  shows "log_repr (commit_all l) A (B @ C) []" and "committed_end (commit_all l) (B @ C)"
proof -
  have ne: "\<not> is_log_empty l" using assms by (auto simp: log_repr_def)
  then have walk: "log_from l (unat (l_commit l)) C" using assms(1) by (simp add: log_repr_def)
  show "log_repr (commit_all l) A (B @ C) []"
    using assms(1) ne by (simp add: log_repr_def is_log_empty_def) (simp add: commit_all_def log_from_end)
  show "committed_end (commit_all l) (B @ C)"
    using log_from_last [OF walk assms(2)] assms(2) by (simp add: committed_end_def) (simp add: commit_all_def)
qed

lemma one_command_log:
  assumes "room log_new (data_size ty data)"
  obtains l a where "log_repr l [] [] [a]" and "log_list l [a] = [new_entry 1 t r c ty data]"
proof -
  obtain l where "log_repr l [] [] ([] @ [unat (l_tail l)])"
    "entry_at (l_mem l) (unat (l_tail l)) = new_entry (next_idx log_new ([] @ [] @ [])) t r c ty data"
    using log_append_entry_repr [OF log_repr_new assms, of 0 t r c] by metis
  then show thesis by (intro that [of l "unat (l_tail l)"]) (simp_all add: log_list_def next_idx_def)
qed

text \<open>An example: one mirrored packet of two bytes, submitted to an empty log.\<close>

definition packet :: tailq_entry_t where
  "packet = \<lparr>tq_type = MIRROR, tq_connection_id = 13, tq_req_id = 1, tq_len = 2, tq_cmd = [1, 2]\<rparr>"

lemma packet_bytes: "rd16 (cmd_mem packet) 0 = 2" "read_bytes (cmd_mem packet) 2 2 = [1, 2]"
  by code_simp+

lemma packet_entry:
  "new_entry i t r c MIRROR (cmd_mem packet) =
     \<lparr>le_idx = i, le_term = t, le_req_id = r, le_clt_id = c, le_type = MIRROR, le_data = PCmd [1, 2]\<rparr>"
  using packet_bytes by (simp add: new_entry_def data_payload_def entry_types proxy_types)

lemma packet_room: "room log_new (data_size MIRROR (cmd_mem packet))"
  using packet_bytes(1) by (simp add: room_def is_log_empty_def log_new_def LOG_SIZE_def data_size_def)

theorem follower_applies_committed_witness:
  "\<exists>s a s'. log_repr (d_log s) [] [a] [] \<and> committed_end (d_log s) [a] \<and> \<not> is_leader s \<and> unbatched (d_proxy s) \<and>
     apply_committed_entries s = Ret () s' \<and> px_sent (d_proxy s') = px_sent (d_proxy s) @ [htonl 2, [1, 2]]"
proof -
  obtain l a where l: "log_repr l [] [] [a]" "log_list l [a] = [new_entry 1 5 1 13 MIRROR (cmd_mem packet)]"
    using packet_room by (rule one_command_log)
  let ?s = "blank\<lparr>d_log := commit_all l\<rparr>"
  have ok: "log_repr (d_log ?s) [] [a] []" "committed_end (d_log ?s) [a]"
    using commit_all_repr [OF l(1)] by simp_all
  have role: "\<not> is_leader ?s" "unbatched (d_proxy ?s)" by code_simp+
  have "forwarded (new_entry 1 5 1 13 MIRROR (cmd_mem packet)) = [htonl 2, [1, 2]]"
    by (simp add: packet_entry forwarded_def flip: numeral_2_eq_2)
  then show ?thesis
    using follower_applies_committed [OF ok role] ok role l(2) by (intro exI [of _ ?s]) auto
qed

subsection \<open>Submissions on the leader\<close>

text \<open>The state after one submission has been moved from the queue to the log.\<close>

definition tailq_turn :: "tailq_entry_t \<Rightarrow> tailq_entry_t list \<Rightarrow> u64 \<Rightarrow> dare_log_t \<Rightarrow> int \<Rightarrow> dare \<Rightarrow> dare" where
  "tailq_turn n q idx l prev s =
     s\<lparr>d_log := l, d_prev_log_entry_head := prev, d_last_write_csm_idx := idx, d_proxy := (d_proxy s)\<lparr>px_tailq := q\<rparr>\<rparr>"

text \<open>Every submission of the queue finds room in the log when its turn comes.\<close>

fun rooms :: "tailq_entry_t list \<Rightarrow> dare \<Rightarrow> bool" where
  "rooms [] s \<longleftrightarrow> True"
| "rooms (n # q) s \<longleftrightarrow>
     room (d_log s) (data_size (tq_type n) (cmd_mem n)) \<and>
     (case log_append_entry (d_log s) (d_prev_log_entry_head s) (SID_GET_TERM (d_sid s)) (tq_req_id n) (tq_connection_id n)
             (tq_type n) (cmd_mem n) of
        None \<Rightarrow> False
      | Some (idx, l, prev) \<Rightarrow> rooms q (tailq_turn n q idx l prev s))"

text \<open>The entries that a queue of submissions becomes, with consecutive indexes.\<close>

fun queued :: "u64 \<Rightarrow> u64 \<Rightarrow> tailq_entry_t list \<Rightarrow> log_entry list" where
  "queued idx trm [] = []"
| "queued idx trm (n # q) = new_entry idx trm (tq_req_id n) (tq_connection_id n) (tq_type n) (cmd_mem n) # queued (idx + 1) trm q"

lemma length_queued [simp]: "length (queued idx trm q) = length q"
  by (induction q arbitrary: idx) simp_all

lemma tailq_turn_fields [simp]:
  "d_log (tailq_turn n q idx l prev s) = l" "d_ctrl (tailq_turn n q idx l prev s) = d_ctrl s"
  "d_config (tailq_turn n q idx l prev s) = d_config s"
  "d_proxy (tailq_turn n q idx l prev s) = (d_proxy s)\<lparr>px_tailq := q\<rparr>"
  by (simp_all add: tailq_turn_def)

lemma tailq_loop_repr:
  assumes "log_repr (d_log s) A B C" and "rooms q s"
  shows "\<exists>s' D. tailq_loop q s = Ret () s' \<and> log_repr (d_log s') A B (C @ D) \<and>
    log_list (d_log s') (A @ B @ C) = log_list (d_log s) (A @ B @ C) \<and>
    log_list (d_log s') D = queued (next_idx (d_log s) (A @ B @ C)) (SID_GET_TERM (d_sid s)) q \<and>
    d_ctrl s' = d_ctrl s \<and> d_config s' = d_config s \<and>
    d_proxy s' = (if q = [] then d_proxy s else (d_proxy s)\<lparr>px_tailq := []\<rparr>)"
  using assms
proof (induction q arbitrary: s C)
  case Nil
  then show ?case by (intro exI [of _ s] exI [of _ "[]"]) (simp add: log_list_def)
next
  case (Cons n q)
  let ?i = "next_idx (d_log s) (A @ B @ C)" and ?t = "SID_GET_TERM (d_sid s)"
  have room: "room (d_log s) (data_size (tq_type n) (cmd_mem n))" using Cons.prems(2) by simp
  obtain l where l: "log_append_entry (d_log s) (d_prev_log_entry_head s) ?t (tq_req_id n) (tq_connection_id n)
        (tq_type n) (cmd_mem n) = Some (?i, l, if tq_type n \<noteq> HEAD then 0 else d_prev_log_entry_head s)"
    "log_repr l A B (C @ [unat (l_tail l)])" "log_list l (A @ B @ C) = log_list (d_log s) (A @ B @ C)"
    "entry_at (l_mem l) (unat (l_tail l)) = new_entry ?i ?t (tq_req_id n) (tq_connection_id n) (tq_type n) (cmd_mem n)"
    using log_append_entry_repr [OF Cons.prems(1) room] by metis
  let ?u = "tailq_turn n q ?i l (if tq_type n \<noteq> HEAD then 0 else d_prev_log_entry_head s) s" and ?a = "unat (l_tail l)"
  have loop: "tailq_loop (n # q) s = tailq_loop q ?u"
    by (simp add: append_entry_def l(1) tailq_turn_def)
  have next_i: "next_idx l (A @ B @ C @ [?a]) = ?i + 1"
    using l(4) by (simp add: next_idx_def entry_at_def new_entry_def)
  obtain s' D where s': "tailq_loop q ?u = Ret () s'" "log_repr (d_log s') A B ((C @ [?a]) @ D)"
    "log_list (d_log s') (A @ B @ C @ [?a]) = log_list l (A @ B @ C @ [?a])"
    "log_list (d_log s') D = queued (next_idx l (A @ B @ C @ [?a])) ?t q"
    "d_ctrl s' = d_ctrl s" "d_config s' = d_config s" "d_proxy s' = (if q = [] then d_proxy ?u else (d_proxy ?u)\<lparr>px_tailq := []\<rparr>)"
    using Cons.IH [of ?u "C @ [?a]"] l(1,2) Cons.prems(2) by auto
  have "d_proxy s' = (d_proxy s)\<lparr>px_tailq := []\<rparr>" using s'(7) by (simp split: if_splits)
  moreover have "log_list (d_log s') (A @ B @ C) = log_list (d_log s) (A @ B @ C)" "entry_at (l_mem (d_log s')) ?a = entry_at (l_mem l) ?a"
    using s'(3) l(3) by (simp_all add: log_list_def)
  ultimately show ?case
    using s' l(4) loop next_i by (intro exI [of _ s'] exI [of _ "?a # D"]) (simp add: log_list_def)
qed

text \<open>
  C16. Submissions enter the log in the order in which they were queued. \<^verbatim>\<open>get_tailq_message\<close> empties the queue
  of the proxy and appends one entry for each submission, in order, with consecutive indexes, in the
  current term, with the request and connection of the submission and its bytes; the older entries and
  their split into applied, committed and uncommitted ones are kept. The hypothesis is that each
  submission finds room.
\<close>

theorem submissions_in_order:
  assumes "log_repr (d_log s) A B C" and "rooms (px_tailq (d_proxy s)) s"
  shows "\<exists>s' D. get_tailq_message s = Ret () s' \<and> log_repr (d_log s') A B (C @ D) \<and>
    log_list (d_log s') (A @ B @ C @ D) = log_list (d_log s) (A @ B @ C) @
      queued (next_idx (d_log s) (A @ B @ C)) (SID_GET_TERM (d_sid s)) (px_tailq (d_proxy s)) \<and>
    px_tailq (d_proxy s') = []"
proof -
  obtain s' D where "tailq_loop (px_tailq (d_proxy s)) s = Ret () s'" "log_repr (d_log s') A B (C @ D)"
    "log_list (d_log s') (A @ B @ C) = log_list (d_log s) (A @ B @ C)"
    "log_list (d_log s') D = queued (next_idx (d_log s) (A @ B @ C)) (SID_GET_TERM (d_sid s)) (px_tailq (d_proxy s))"
    "d_proxy s' = (if px_tailq (d_proxy s) = [] then d_proxy s else (d_proxy s)\<lparr>px_tailq := []\<rparr>)"
    using tailq_loop_repr [OF assms] by blast
  then show ?thesis
    by (intro exI [of _ s'] exI [of _ D]) (simp add: get_tailq_message_def log_list_def)
qed

lemma packet_rooms: "d_log s = log_new \<Longrightarrow> rooms [packet] s"
  using log_append_entry_repr [OF log_repr_new packet_room, of "d_prev_log_entry_head s" "SID_GET_TERM (d_sid s)" 1 13] packet_room
  by (fastforce simp: packet_def)

theorem submissions_in_order_witness:
  "\<exists>s s' D. log_repr (d_log s) [] [] [] \<and> rooms (px_tailq (d_proxy s)) s \<and> get_tailq_message s = Ret () s' \<and>
     map le_data (log_list (d_log s') D) = [PCmd [1, 2]] \<and> px_tailq (d_proxy s') = []"
proof -
  let ?s = "blank\<lparr>d_log := log_new, d_proxy := (d_proxy blank)\<lparr>px_tailq := [packet]\<rparr>\<rparr>"
  have ok: "log_repr (d_log ?s) [] [] []" "rooms (px_tailq (d_proxy ?s)) ?s"
    using packet_rooms [of ?s] log_repr_new by simp_all
  obtain s' D where s': "get_tailq_message ?s = Ret () s'" "px_tailq (d_proxy s') = []"
    "log_list (d_log s') ([] @ [] @ [] @ D) = log_list (d_log ?s) ([] @ [] @ []) @
       queued (next_idx (d_log ?s) ([] @ [] @ [])) (SID_GET_TERM (d_sid ?s)) (px_tailq (d_proxy ?s))"
    using submissions_in_order [OF ok] by blast
  have "tq_type packet = MIRROR" by (simp add: packet_def)
  then show ?thesis using ok s' by (intro exI [of _ ?s] exI [of _ s'] exI [of _ D]) (simp add: packet_entry log_list_def)
qed

subsection \<open>The submitter waits until its command is applied\<close>








end
