(* ===== verification/PruneSpec.thy ===== *)
theory PruneSpec
  imports ApplySpec
begin

text \<open>
  The safety of log pruning: the comment in \<^verbatim>\<open>log_pruning\<close> calls it property P1, that the head offset of
  the leader is not behind the apply offset of any server. The search for the smallest offset is an
  instance of the order of theory \<open>LogOrder\<close>.
\<close>

subsection \<open>The smallest apply offset\<close>

text \<open>The offset that the search takes for a server: its own, or the local one if it is off.\<close>

definition prune_offset :: "dare \<Rightarrow> nat \<Rightarrow> u64" where
  "prune_offset s i = (if server_on s i then c_apply_offsets (d_ctrl s) i else l_apply (d_log s))"

lemma prune_turn_step:
  "prune_turn i (m, s) = (log_order.keep_min (d_log s) (prune_offset s i) m, snd (prune_turn i (m, s)))"
  by (simp add: prune_turn_def prune_offset_def log_order.keep_min_def upd_ctrl_def Let_def)

lemma prune_turn_state:
  "d_log (snd (prune_turn i (m, s))) = d_log s" "d_config (snd (prune_turn i (m, s))) = d_config s"
  "prune_offset (snd (prune_turn i (m, s))) = prune_offset s"
  by (auto simp: prune_turn_def prune_offset_def upd_ctrl_def server_on_def Let_def)

lemma fold_prune_turn:
  "fst (fold prune_turn is (m, s)) = fold (log_order.keep_min (d_log s)) (map (prune_offset s) is) m"
  "d_log (snd (fold prune_turn is (m, s))) = d_log s"
proof (induction "is" arbitrary: m s)
  case (Cons i "is")
  {
    case 1
    show ?case using Cons.IH(1) by (subst fold_simps(2), subst prune_turn_step) (simp add: prune_turn_state)
  next
    case 2
    show ?case using Cons.IH(2) by (subst fold_simps(2), subst prune_turn_step) (simp add: prune_turn_state)
  }
qed simp_all

text \<open>The offsets from which entries are still needed: the local apply offset and those of the servers that are on.\<close>

definition needed :: "dare \<Rightarrow> u64 set" where
  "needed s = insert (l_apply (d_log s)) (c_apply_offsets (d_ctrl s) ` {i \<in> set (extended_group s). server_on s i})"

lemma prune_min_least:
  assumes "prune_min s = (m, s')" and "needed s \<subseteq> Collect (offset_ok (d_log s))"
  shows "d_log s' = d_log s" and "m \<in> needed s" and "x \<in> needed s \<Longrightarrow> \<not> log_is_offset_larger (d_log s) m x"
proof -
  let ?xs = "map (prune_offset s) (extended_group s)"
  have m: "m = fold (log_order.keep_min (d_log s)) ?xs (l_apply (d_log s))" and log: "d_log s' = d_log s"
    using fold_prune_turn [of "extended_group s" "l_apply (d_log s)" s] assms(1) by (simp_all add: prune_min_def)
  have xs: "insert (l_apply (d_log s)) (set ?xs) = needed s"
    by (auto simp: needed_def prune_offset_def)
  show "d_log s' = d_log s" by (fact log)
  show "m \<in> needed s" using log_order.fold_keep_min_mem [of "d_log s" ?xs] unfolding m xs [symmetric] .
  show "\<not> log_is_offset_larger (d_log s) m x" if "x \<in> needed s"
    using log_order.fold_keep_min_least [of "d_log s" "l_apply (d_log s)" ?xs x] assms(2) that m xs by blast
qed

subsection \<open>The head offset\<close>

lemma log_append_data_head: "l_head (snd (log_append_data l e i t r c ty data)) = l_head l"
  by (auto simp: log_append_data_def set_entry_header_def set_entry_data_def set_entry_cmd_len_def Let_def split: option.split)

lemma log_append_new_head: "l_head (snd (log_append_new l i t r c ty data)) = l_head l"
proof (cases "log_add_new_entry l")
  case None
  then show ?thesis by (simp add: log_append_new_def)
next
  case (Some e)
  let ?l = "set_entry_header l e i t r c ty"
  let ?k = "if \<not> log_fit_entry_header ?l (l_end ?l) then ?l\<lparr>l_end := 0\<rparr> else ?l"
  obtain e' k where k: "log_append_data ?k e i t r c ty data = (e', k)" by (metis surj_pair)
  have "l_head ?k = l_head l" by (simp add: set_entry_header_def Let_def)
  then have "l_head k = l_head l" using log_append_data_head [of ?k e i t r c ty data] k by simp
  then show ?thesis using Some k by (cases e') (simp_all add: log_append_new_def Let_def)
qed

lemma log_append_entry_head: "log_append_entry l ph t r c ty data = Some (idx, l', ph') \<Longrightarrow> l_head l' = l_head l"
  using log_append_new_head [of "l\<lparr>l_tail := x\<rparr>" for x]
  by (auto simp: log_append_entry_def Let_def split_def bind_eq_Some_conv)

lemma advance_head_result:
  assumes "advance_head m s = Ret () s'"
  shows "l_head (d_log s') \<in> {l_head (d_log s), m}"
  using assms
  by (auto dest!: log_append_entry_head simp: advance_head_def append_entry_def upd_log_def clear_flag_def split: if_splits option.splits)

text \<open>
  C8. Log pruning keeps what is needed. If the head offset of the leader is not ahead of the apply offset
  of any server that is on, nor of its own, then this still holds for the head offset that \<^verbatim>\<open>log_pruning\<close>
  chooses: no entry is given up that a member of the group, of the old or of the new configuration, has
  not applied. This is property P1 of the comment in \<^verbatim>\<open>log_pruning\<close>. The hypothesis is that the apply offsets
  lie in the buffer.
\<close>

theorem pruning_keeps_needed:
  assumes "prune_head s = Ret () s'"
    and "needed s \<subseteq> Collect (offset_ok (d_log s))"
    and "\<And>x. x \<in> needed s \<Longrightarrow> \<not> log_is_offset_larger (d_log s) (l_head (d_log s)) x"
    and "x \<in> needed s"
  shows "\<not> log_is_offset_larger (d_log s) (l_head (d_log s')) x"
proof -
  let ?l = "d_log s"
  obtain m t where m: "prune_min s = (m, t)" by (metis surj_pair)
  note min = prune_min_least [OF m assms(2)]
  obtain m' where m': "advance_head m' t = Ret () s'" "m' = m \<or> log_offset_end_distance ?l m = 0"
    using assms(1) m min(1) by (auto simp: prune_head_def split: if_splits option.splits)
  have "\<not> log_is_offset_larger ?l m' x"
    using min(3) [OF assms(4)] m'(2) by (auto simp: log_is_offset_larger_distance word_gt_0)
  moreover have "l_head (d_log s') \<in> {l_head ?l, m'}" using advance_head_result [OF m'(1)] min(1) by simp
  ultimately show ?thesis using assms(3,4) by auto
qed

text \<open>
  An example: a leader of a group of two with one entry in its log, which it has applied and the other
  server has not.
\<close>

definition pruning :: "dare_log_t \<Rightarrow> dare" where
  "pruning l = blank\<lparr>d_log := l, d_config := zero_config\<lparr>cf_cid := \<lparr>cid_epoch = 0, cid_size0 = 2, cid_size1 = 0,
     cid_state = CID_STABLE, cid_bitmask = 3\<rparr>\<rparr>\<rparr>"

theorem pruning_keeps_needed_witness:
  "\<exists>s s'. prune_head s = Ret () s' \<and> 0 \<in> needed s \<and> \<not> log_is_offset_larger (d_log s) (l_head (d_log s')) 0"
proof -
  let ?l = "log_new\<lparr>l_end := 48, l_apply := 48, l_commit := 48, l_tail := 0\<rparr>"
  let ?s = "pruning ?l"
  have "case prune_head ?s of Ret _ s' \<Rightarrow> True | _ \<Rightarrow> False" by code_simp
  then obtain s' where s': "prune_head ?s = Ret () s'" by (cases "prune_head ?s") auto
  have g: "extended_group ?s = [0, 1]" by code_simp
  have on: "server_on ?s 1" by code_simp
  have log: "d_log ?s = ?l" "c_apply_offsets (d_ctrl ?s) i = 0" for i by (simp_all add: pruning_def blank_def zero_ctrl_def)
  have needed: "needed ?s = {48, 0}" using on by (auto simp: needed_def g log)
  have "needed ?s \<subseteq> Collect (offset_ok (d_log ?s))"
    unfolding needed log by (simp add: offset_ok_def log_wf_def log_new_def LOG_SIZE_def is_log_empty_def)
  moreover have "\<not> log_is_offset_larger (d_log ?s) (l_head (d_log ?s)) x" if "x \<in> needed ?s" for x
    using that unfolding needed log by (auto simp: log_is_offset_larger_def log_offset_end_distance_def log_new_def LOG_SIZE_def)
  ultimately have "\<not> log_is_offset_larger (d_log ?s) (l_head (d_log s')) 0"
    using pruning_keeps_needed [OF s'] needed by blast
  then show ?thesis using s' needed by blast
qed

end
