(* ===== verification/Bitmap.thy ===== *)
theory Bitmap
  imports Prelude
begin

text \<open>
  Bitmaps of the emulator as arrays of 64-bit words: \<^verbatim>\<open>include/qemu/bitops.h\<close>, \<^verbatim>\<open>include/qemu/bitmap.h\<close>,
  \<^verbatim>\<open>util/bitmap.c\<close> and the search of \<^verbatim>\<open>util/bitops.c\<close>, as far as the checkpoints use them. Bit numbers and
  sizes are natural numbers: the operations only subtract what they have compared before. Every
  operation is characterised by the bits it sets, and \<^verbatim>\<open>find_next_bit\<close>, which skips zero words four at a
  time, is shown to be a scan bit by bit.
\<close>

type_synonym bitmap = "nat \<Rightarrow> u64"

subsection \<open>Single bits\<close>

definition BIT_MASK :: "nat \<Rightarrow> u64" where
  "BIT_MASK nr = push_bit (nr mod 64) 1"

definition test_bit :: "nat \<Rightarrow> bitmap \<Rightarrow> bool" where
  "test_bit nr addr \<longleftrightarrow> 1 AND drop_bit (nr mod 64) (addr (nr div 64)) \<noteq> 0"

definition clear_bit :: "nat \<Rightarrow> bitmap \<Rightarrow> bitmap" where
  "clear_bit nr addr = addr(nr div 64 := addr (nr div 64) AND NOT (BIT_MASK nr))"

definition test_and_clear_bit :: "nat \<Rightarrow> bitmap \<Rightarrow> bool \<times> bitmap" where
  "test_and_clear_bit nr addr =
     (let mask = BIT_MASK nr; old = addr (nr div 64)
      in (old AND mask \<noteq> 0, addr(nr div 64 := old AND NOT mask)))"

definition test_and_set_bit :: "nat \<Rightarrow> bitmap \<Rightarrow> bool \<times> bitmap" where
  "test_and_set_bit nr addr =
     (let mask = BIT_MASK nr; old = addr (nr div 64)
      in (old AND mask \<noteq> 0, addr(nr div 64 := old OR mask)))"

subsection \<open>Whole bitmaps\<close>

definition BITS_TO_LONGS :: "nat \<Rightarrow> nat" where
  "BITS_TO_LONGS nr = (nr + 63) div 64"

definition small_nbits :: "nat \<Rightarrow> bool" where
  "small_nbits nbits \<longleftrightarrow> nbits \<le> 64"

definition bitmap_new :: "nat \<Rightarrow> bitmap" where
  "bitmap_new nbits = (\<lambda>_. 0)"

definition bitmap_zero :: "bitmap \<Rightarrow> nat \<Rightarrow> bitmap" where
  "bitmap_zero dst nbits =
     (if small_nbits nbits then dst(0 := 0) else for_to (BITS_TO_LONGS nbits) (\<lambda>k dst. dst(k := 0)) dst)"

definition slow_bitmap_or :: "bitmap \<Rightarrow> bitmap \<Rightarrow> bitmap \<Rightarrow> nat \<Rightarrow> bitmap" where
  "slow_bitmap_or dst bitmap1 bitmap2 bits =
     for_to (BITS_TO_LONGS bits) (\<lambda>k dst. dst(k := bitmap1 k OR bitmap2 k)) dst"

definition bitmap_or :: "bitmap \<Rightarrow> bitmap \<Rightarrow> bitmap \<Rightarrow> nat \<Rightarrow> bitmap" where
  "bitmap_or dst src1 src2 nbits =
     (if small_nbits nbits then dst(0 := src1 0 OR src2 0) else slow_bitmap_or dst src1 src2 nbits)"

definition BITMAP_FIRST_WORD_MASK :: "nat \<Rightarrow> u64" where
  "BITMAP_FIRST_WORD_MASK start = push_bit (start mod 64) (NOT 0)"

definition BITMAP_LAST_WORD_MASK :: "nat \<Rightarrow> u64" where
  "BITMAP_LAST_WORD_MASK nbits = (if nbits mod 64 \<noteq> 0 then push_bit (nbits mod 64) 1 - 1 else NOT 0)"

text \<open>The loop of \<^verbatim>\<open>bitmap_set\<close>: whole words first, then the rest of the last one.\<close>

fun bitmap_set_loop :: "bitmap \<Rightarrow> nat \<Rightarrow> nat \<Rightarrow> nat \<Rightarrow> u64 \<Rightarrow> nat \<Rightarrow> bitmap" where
  "bitmap_set_loop bm p nr bits_to_set mask_to_set sz =
     (if bits_to_set \<le> nr \<and> 0 < bits_to_set
      then bitmap_set_loop (bm(p := bm p OR mask_to_set)) (p + 1) (nr - bits_to_set) 64 (NOT 0) sz
      else if nr \<noteq> 0 then bm(p := bm p OR (mask_to_set AND BITMAP_LAST_WORD_MASK sz))
      else bm)"

declare bitmap_set_loop.simps [simp del]

definition bitmap_set :: "bitmap \<Rightarrow> nat \<Rightarrow> nat \<Rightarrow> bitmap" where
  "bitmap_set bm start nr =
     bitmap_set_loop bm (start div 64) nr (64 - start mod 64) (BITMAP_FIRST_WORD_MASK start) (start + nr)"

text \<open>
  \<^verbatim>\<open>bitmap_test_and_clear_atomic\<close>: the rest of the first word, whole words, the begin of the last word. The
  bits that were set are collected to answer whether there were any.
\<close>

function clear_full_words :: "bitmap \<Rightarrow> nat \<Rightarrow> nat \<Rightarrow> u64 \<Rightarrow> bitmap \<times> nat \<times> nat \<times> u64" where
  "clear_full_words bm p nr dirty =
     (if 64 \<le> nr
      then if bm p \<noteq> 0 then clear_full_words (bm(p := 0)) (p + 1) (nr - 64) (dirty OR bm p)
           else clear_full_words bm (p + 1) (nr - 64) dirty
      else (bm, p, nr, dirty))"
  by pat_completeness auto
termination by (relation "measure (\<lambda>(_, _, nr, _). nr)") auto

declare clear_full_words.simps [simp del]

definition clear_last_word :: "bitmap \<Rightarrow> nat \<Rightarrow> nat \<Rightarrow> u64 \<Rightarrow> u64 \<Rightarrow> nat \<Rightarrow> bool \<times> bitmap" where
  "clear_last_word bm p nr dirty msk sz =
     (if nr \<noteq> 0
      then let msk = msk AND BITMAP_LAST_WORD_MASK sz; old_bits = bm p
           in (dirty OR (old_bits AND msk) \<noteq> 0, bm(p := old_bits AND NOT msk))
      else (dirty \<noteq> 0, bm))"

definition bitmap_test_and_clear_atomic :: "bitmap \<Rightarrow> nat \<Rightarrow> nat \<Rightarrow> bool \<times> bitmap" where
  "bitmap_test_and_clear_atomic bm start nr =
     (let p = start div 64; sz = start + nr; bits = 64 - start mod 64; msk = BITMAP_FIRST_WORD_MASK start in
      if bits < nr then
        case clear_full_words (bm(p := bm p AND NOT msk)) (p + 1) (nr - bits) (bm p AND msk) of
          (bm, p, nr, dirty) \<Rightarrow> clear_last_word bm p nr dirty (NOT 0) sz
      else if bits = 64 then
        case clear_full_words bm p nr 0 of (bm, p, nr, dirty) \<Rightarrow> clear_last_word bm p nr dirty msk sz
      else clear_last_word bm p nr 0 msk sz)"

subsection \<open>The next set bit\<close>

text \<open>The number of trailing zeros, 64 for the word 0.\<close>

function ctz_from :: "nat \<Rightarrow> u64 \<Rightarrow> nat" where
  "ctz_from n w = (if n < 64 \<and> \<not> bit w n then ctz_from (n + 1) w else n)"
  by pat_completeness auto
termination by (relation "measure (\<lambda>(n, _). 64 - n)") auto

declare ctz_from.simps [simp del]

definition ctzl :: "u64 \<Rightarrow> nat" where
  "ctzl w = ctz_from 0 w"

definition found_first :: "u64 \<Rightarrow> nat \<Rightarrow> nat \<Rightarrow> nat" where
  "found_first tmp result sz =
     (let tmp = tmp AND drop_bit (64 - sz) (NOT 0) in if tmp = 0 then result + sz else result + ctzl tmp)"

text \<open>Words one at a time, and the rest of the last one.\<close>

function next_bit_words :: "bitmap \<Rightarrow> nat \<Rightarrow> nat \<Rightarrow> nat \<Rightarrow> nat" where
  "next_bit_words addr p result sz =
     (if 64 \<le> sz
      then if addr p \<noteq> 0 then result + ctzl (addr p) else next_bit_words addr (p + 1) (result + 64) (sz - 64)
      else if sz = 0 then result
      else found_first (addr p) result sz)"
  by pat_completeness auto
termination by (relation "measure (\<lambda>(_, _, _, sz). sz)") auto

declare next_bit_words.simps [simp del]

text \<open>Four words at a time.\<close>

function next_bit_quads :: "bitmap \<Rightarrow> nat \<Rightarrow> nat \<Rightarrow> nat \<Rightarrow> nat" where
  "next_bit_quads addr p result sz =
     (if 4 * 64 \<le> sz
      then if addr p \<noteq> 0 then result + ctzl (addr p)
           else if addr (p + 1) OR addr (p + 2) OR addr (p + 3) \<noteq> 0 then next_bit_words addr p result sz
           else next_bit_quads addr (p + 4) (result + 4 * 64) (sz - 4 * 64)
      else next_bit_words addr p result sz)"
  by pat_completeness auto
termination by (relation "measure (\<lambda>(_, _, _, sz). sz)") auto

declare next_bit_quads.simps [simp del]

definition find_next_bit :: "bitmap \<Rightarrow> nat \<Rightarrow> nat \<Rightarrow> nat" where
  "find_next_bit addr sz offset =
     (let p = offset div 64; result = offset - offset mod 64 in
      if sz \<le> offset then sz
      else
        let sz = sz - result; offset = offset mod 64 in
        if offset \<noteq> 0 then
          let tmp = addr p AND push_bit offset (NOT 0) in
          if sz < 64 then found_first tmp result sz
          else if tmp \<noteq> 0 then result + ctzl tmp
          else next_bit_quads addr (p + 1) (result + 64) (sz - 64)
        else next_bit_quads addr p result sz)"

subsection \<open>What the operations mean for single bits\<close>

lemma test_bit_iff: "test_bit nr addr \<longleftrightarrow> bit (addr (nr div 64)) (nr mod 64)"
  by (simp add: test_bit_def bit_iff_odd_drop_bit and_one_eq one_and_eq odd_iff_mod_2_eq_one)

lemma div_mod_64: "n div 64 = m div 64 \<Longrightarrow> n mod 64 = m mod 64 \<Longrightarrow> n = (m :: nat)"
  by (metis div_mult_mod_eq)

lemma bit_BIT_MASK: "bit (BIT_MASK nr) k \<longleftrightarrow> k = nr mod 64"
  by (auto simp: BIT_MASK_def bit_simps)

lemma test_bit_clear [simp]: "test_bit n (clear_bit nr addr) \<longleftrightarrow> test_bit n addr \<and> n \<noteq> nr"
  by (auto simp: test_bit_iff clear_bit_def bit_simps bit_BIT_MASK dest: div_mod_64)

lemma test_and_clear_bit_eq: "test_and_clear_bit nr addr = (test_bit nr addr, clear_bit nr addr)"
proof -
  have "addr (nr div 64) AND BIT_MASK nr \<noteq> 0 \<longleftrightarrow> bit (addr (nr div 64)) (nr mod 64)"
    by (simp add: BIT_MASK_def push_bit_eq_mult and_exp_eq_0_iff_not_bit)
  then show ?thesis by (simp add: test_and_clear_bit_def clear_bit_def test_bit_iff Let_def)
qed

lemma test_and_set_bit_eq: "fst (test_and_set_bit nr addr) \<longleftrightarrow> test_bit nr addr"
  using test_and_clear_bit_eq [of nr addr] by (simp add: test_and_set_bit_def test_and_clear_bit_def Let_def)

lemma test_bit_test_and_set [simp]: "test_bit n (snd (test_and_set_bit nr addr)) \<longleftrightarrow> test_bit n addr \<or> n = nr"
  by (auto simp: test_bit_iff test_and_set_bit_def bit_simps bit_BIT_MASK Let_def dest: div_mod_64)

lemma for_to_words: "for_to n (\<lambda>k dst. dst(k := f k)) dst = (\<lambda>k. if k < n then f k else dst k)"
  by (induction n) (auto simp: for_to_Suc)

lemma words_cover: "n < nbits \<Longrightarrow> n div 64 < BITS_TO_LONGS nbits"
  by (simp add: BITS_TO_LONGS_def)

lemma test_bit_or:
  "n < nbits \<Longrightarrow> test_bit n (bitmap_or dst src1 src2 nbits) \<longleftrightarrow> test_bit n src1 \<or> test_bit n src2"
  using words_cover [of n nbits]
  by (auto simp: test_bit_iff bitmap_or_def slow_bitmap_or_def for_to_words small_nbits_def bit_simps)

lemma test_bit_zero: "n < nbits \<Longrightarrow> \<not> test_bit n (bitmap_zero dst nbits)"
  using words_cover [of n nbits] by (auto simp: test_bit_iff bitmap_zero_def for_to_words small_nbits_def)

lemma test_bit_new [simp]: "\<not> test_bit n (bitmap_new nbits)"
  by (simp add: test_bit_iff bitmap_new_def)

lemma bit_FIRST_MASK: "k < 64 \<Longrightarrow> bit (BITMAP_FIRST_WORD_MASK start) k \<longleftrightarrow> start mod 64 \<le> k"
  by (auto simp: BITMAP_FIRST_WORD_MASK_def bit_simps)

lemma bit_LAST_MASK: "k < 64 \<Longrightarrow> bit (BITMAP_LAST_WORD_MASK nbits) k \<longleftrightarrow> nbits mod 64 = 0 \<or> k < nbits mod 64"
  by (auto simp: BITMAP_LAST_WORD_MASK_def bit_simps bit_mask_iff mask_eq_exp_minus_1 [symmetric] push_bit_eq_mult)

lemma in_word:
  assumes "start mod 64 + j \<le> 64"
  shows "n div 64 = start div 64 \<and> start mod 64 \<le> n mod 64 \<and> n mod 64 < start mod 64 + j \<longleftrightarrow> start \<le> n \<and> n < start + (j :: nat)"
proof -
  have n: "n = 64 * (n div 64) + n mod 64" "n mod 64 < 64" and s: "start = 64 * (start div 64) + start mod 64"
    by simp_all
  consider "n div 64 + 1 \<le> start div 64" | "n div 64 = start div 64" | "start div 64 + 1 \<le> n div 64" by linarith
  then show ?thesis
  proof cases
    case 1
    then have "64 * (n div 64) + 64 \<le> 64 * (start div 64)" by simp
    then have "n < start" using n s by linarith
    then show ?thesis using 1 by simp
  next
    case 2
    have "(a \<le> k \<and> k < a + j) = (start \<le> n \<and> n < start + j)" if "n = c + k" "start = c + a" for a c k :: nat
      using that by auto
    from this [OF n(1), of "start mod 64"] show ?thesis using 2 s by simp
  next
    case 3
    then have "64 * (start div 64) + 64 \<le> 64 * (n div 64)" by simp
    then have "start + j \<le> n" using n s assms by linarith
    then show ?thesis using 3 by simp
  qed
qed

text \<open>The loop with \<open>start\<close> at the first bit to set in the word \<open>p\<close>.\<close>

lemma bitmap_set_loop_bits:
  assumes "start div 64 = p" and "bits = 64 - start mod 64" and "sz = start + nr"
    and "\<And>k. k < 64 \<Longrightarrow> bit msk k \<longleftrightarrow> start mod 64 \<le> k"
  shows "test_bit n (bitmap_set_loop bm p nr bits msk sz) \<longleftrightarrow> test_bit n bm \<or> start \<le> n \<and> n < start + nr"
  using assms
proof (induction bm p nr bits msk sz arbitrary: start rule: bitmap_set_loop.induct)
  case (1 bm p nr bits msk sz)
  have bits: "start mod 64 + bits = 64" "0 < bits" using 1(3) by (simp_all add: less_imp_le)
  show ?case
  proof (cases "bits \<le> nr")
    case True
    let ?bm = "bm(p := bm p OR msk)"
    have "start + bits = 64 * (start div 64) + 64" using bits(1) by (metis add.assoc mult_div_mod_eq)
    then have next_word: "(start + bits) div 64 = p + 1" "(start + bits) mod 64 = 0"
      using 1(2) by (simp_all add: mult.commute)
    have "test_bit n ?bm \<longleftrightarrow> test_bit n bm \<or> n div 64 = p \<and> start mod 64 \<le> n mod 64"
      using 1(5) by (auto simp: test_bit_iff bit_simps)
    then have here: "test_bit n ?bm \<longleftrightarrow> test_bit n bm \<or> start \<le> n \<and> n < start + bits"
      using in_word [of start bits n] bits 1(2) by simp
    have "test_bit n (bitmap_set_loop ?bm (p + 1) (nr - bits) 64 (NOT 0) sz) \<longleftrightarrow>
        test_bit n ?bm \<or> start + bits \<le> n \<and> n < start + bits + (nr - bits)"
      using True bits(2) 1(4) next_word by (intro 1(1)) (auto simp: bit_simps)
    moreover have "bitmap_set_loop bm p nr bits msk sz = bitmap_set_loop ?bm (p + 1) (nr - bits) 64 (NOT 0) sz"
      using True bits(2) by (subst bitmap_set_loop.simps) simp
    ultimately show ?thesis using here True by auto
  next
    case short: False
    then have run: "bitmap_set_loop bm p nr bits msk sz =
        (if nr \<noteq> 0 then bm(p := bm p OR (msk AND BITMAP_LAST_WORD_MASK sz)) else bm)"
      by (subst bitmap_set_loop.simps) simp
    show ?thesis
    proof (cases "nr = 0")
      case True
      then show ?thesis using run by auto
    next
      case False
      have "(start mod 64 + nr) mod 64 = start mod 64 + nr" using short bits(1) by (intro mod_less) linarith
      then have last: "sz mod 64 = start mod 64 + nr" using mod_add_left_eq [of start 64 nr] 1(4) by simp
      have "test_bit n (bitmap_set_loop bm p nr bits msk sz) \<longleftrightarrow>
          test_bit n bm \<or> n div 64 = p \<and> start mod 64 \<le> n mod 64 \<and> n mod 64 < start mod 64 + nr"
        using False run last 1(5) bit_LAST_MASK [of "n mod 64" sz] by (auto simp: test_bit_iff bit_simps)
      then show ?thesis using in_word [of start nr n] short bits(1) 1(2) by simp
    qed
  qed
qed

lemma test_bit_set [simp]: "test_bit n (bitmap_set bm start nr) \<longleftrightarrow> test_bit n bm \<or> start \<le> n \<and> n < start + nr"
  unfolding bitmap_set_def by (rule bitmap_set_loop_bits) (simp_all add: bit_FIRST_MASK)

subsection \<open>The search is a scan\<close>

text \<open>The first set bit from \<open>n\<close> on, or the size.\<close>

function first_bit :: "bitmap \<Rightarrow> nat \<Rightarrow> nat \<Rightarrow> nat" where
  "first_bit addr sz n = (if n < sz then if test_bit n addr then n else first_bit addr sz (n + 1) else sz)"
  by pat_completeness auto
termination by (relation "measure (\<lambda>(_, sz, n). sz - n)") auto

declare first_bit.simps [simp del]

lemma first_bit_skip:
  assumes "\<And>k. n \<le> k \<Longrightarrow> k < m \<Longrightarrow> \<not> test_bit k addr" and "n \<le> m" and "m \<le> sz"
  shows "first_bit addr sz n = first_bit addr sz m"
  using assms
proof (induction "m - n" arbitrary: n)
  case (Suc d)
  have "first_bit addr sz n = first_bit addr sz (n + 1)"
    using Suc.hyps(2) Suc.prems by (subst first_bit.simps) auto
  also have "\<dots> = first_bit addr sz m" using Suc.hyps(2) Suc.prems by (intro Suc.hyps(1)) auto
  finally show ?case .
qed simp

lemma ctz_from_spec:
  "n \<le> 64 \<Longrightarrow> n \<le> ctz_from n w \<and> ctz_from n w \<le> 64 \<and> (ctz_from n w < 64 \<longrightarrow> bit w (ctz_from n w)) \<and>
    (\<forall>k. n \<le> k \<and> k < ctz_from n w \<longrightarrow> \<not> bit w k)"
proof (induction n w rule: ctz_from.induct)
  case (1 n w)
  show ?case
  proof (cases "n < 64 \<and> \<not> bit w n")
    case True
    then have eq: "ctz_from n w = ctz_from (n + 1) w" by (subst ctz_from.simps) simp
    note IH = 1(1) [OF True]
    have "\<not> bit w k" if "n \<le> k" "k < ctz_from (n + 1) w" for k
      using IH that True by (cases "k = n") auto
    then show ?thesis using IH eq True by auto
  next
    case False
    then have "ctz_from n w = n" by (subst ctz_from.simps) auto
    then show ?thesis using False 1(2) by auto
  qed
qed

lemma ctzl_spec:
  assumes "w \<noteq> 0"
  shows "ctzl w < 64" "bit w (ctzl w)" "k < ctzl w \<Longrightarrow> \<not> bit w k"
proof -
  note spec = ctz_from_spec [of 0 w]
  have "w = 0" if "\<not> ctzl w < 64"
    using spec that by (intro bit_word_eqI) (auto simp: ctzl_def)
  then show "ctzl w < 64" using assms by blast
  then show "bit w (ctzl w)" using spec by (simp add: ctzl_def)
  show "\<not> bit w k" if "k < ctzl w" using spec that by (simp add: ctzl_def)
qed

lemma word_search:
  assumes tmp: "\<And>k. k < 64 \<Longrightarrow> bit tmp k \<longleftrightarrow> bit (addr p) k \<and> lo \<le> k \<and> k < hi"
    and "lo \<le> hi" and "hi \<le> 64" and "64 * p + hi \<le> sz"
  shows "first_bit addr sz (64 * p + lo) = (if tmp = 0 then first_bit addr sz (64 * p + hi) else 64 * p + ctzl tmp)"
proof -
  have here: "test_bit (64 * p + k) addr \<longleftrightarrow> bit (addr p) k" if "k < 64" for k
    using that by (simp add: test_bit_iff)
  have skip: "first_bit addr sz (64 * p + lo) = first_bit addr sz (64 * p + m)"
    if "lo \<le> m" "m \<le> hi" "\<And>k. lo \<le> k \<Longrightarrow> k < m \<Longrightarrow> \<not> bit tmp k" for m
  proof (rule first_bit_skip)
    fix n assume n: "64 * p + lo \<le> n" "n < 64 * p + m"
    then have "n = 64 * p + (n - 64 * p)" "n - 64 * p < 64" "lo \<le> n - 64 * p" "n - 64 * p < m"
      using that assms(3) by auto
    then show "\<not> test_bit n addr" using here [of "n - 64 * p"] tmp [of "n - 64 * p"] that assms(3) by auto
  qed (use that assms(4) in auto)
  show ?thesis
  proof (cases "tmp = 0")
    case True
    then show ?thesis using skip [of hi] assms(2) by simp
  next
    case False
    note c = ctzl_spec [OF False]
    have in_range: "lo \<le> ctzl tmp" "ctzl tmp < hi" "bit (addr p) (ctzl tmp)" using tmp [OF c(1)] c(2) by simp_all
    have "first_bit addr sz (64 * p + ctzl tmp) = 64 * p + ctzl tmp"
      using in_range here [OF c(1)] assms(4) by (subst first_bit.simps) simp
    then show ?thesis using skip [of "ctzl tmp"] in_range c(3) False by simp
  qed
qed

lemma first_bit_end [simp]: "first_bit addr sz sz = sz"
  by (subst first_bit.simps) simp

lemma found_first_scan:
  assumes "\<And>k. k < 64 \<Longrightarrow> bit tmp k \<longleftrightarrow> bit (addr p) k \<and> lo \<le> k" and "lo \<le> sz" and "sz \<le> 64"
  shows "found_first tmp (64 * p) sz = first_bit addr (64 * p + sz) (64 * p + lo)"
proof -
  have "first_bit addr (64 * p + sz) (64 * p + lo) =
      (if tmp AND drop_bit (64 - sz) (NOT 0) = 0 then first_bit addr (64 * p + sz) (64 * p + sz)
       else 64 * p + ctzl (tmp AND drop_bit (64 - sz) (NOT 0)))"
    using assms by (intro word_search) (auto simp: bit_simps)
  then show ?thesis by (simp add: found_first_def Let_def)
qed

lemma whole_word:
  "64 * p + 64 \<le> sz \<Longrightarrow>
    first_bit addr sz (64 * p) = (if addr p = 0 then first_bit addr sz (64 * (p + 1)) else 64 * p + ctzl (addr p))"
  using word_search [of "addr p" addr p 0 64 sz] by (simp add: algebra_simps)

lemma next_bit_words_scan: "next_bit_words addr p (64 * p) sz = first_bit addr (64 * p + sz) (64 * p)"
proof (induction sz arbitrary: p rule: less_induct)
  case (less sz)
  consider "64 \<le> sz" | "sz = 0" | "0 < sz" "sz < 64" by linarith
  then show ?case
  proof cases
    case 1
    then show ?thesis
      using whole_word [of p "64 * p + sz" addr] less [of "sz - 64" "p + 1"]
      by (subst next_bit_words.simps) (simp add: algebra_simps)
  next
    case 2
    then show ?thesis by (subst next_bit_words.simps) simp
  next
    case 3
    then show ?thesis
      using found_first_scan [of "addr p" addr p 0 sz] by (subst next_bit_words.simps) simp
  qed
qed

lemma next_bit_quads_scan: "next_bit_quads addr p (64 * p) sz = first_bit addr (64 * p + sz) (64 * p)"
proof (induction sz arbitrary: p rule: less_induct)
  case (less sz)
  have direct: "next_bit_quads addr p (64 * p) sz = next_bit_words addr p (64 * p) sz"
    if "\<not> 256 \<le> sz \<or> addr p = 0 \<and> addr (p + 1) OR addr (p + 2) OR addr (p + 3) \<noteq> 0"
    using that by (subst next_bit_quads.simps) auto
  consider (words) "\<not> 256 \<le> sz \<or> addr p = 0 \<and> addr (p + 1) OR addr (p + 2) OR addr (p + 3) \<noteq> 0"
    | (found) "256 \<le> sz" "addr p \<noteq> 0"
    | (zero) "256 \<le> sz" "addr p = 0" "addr (p + 1) = 0" "addr (p + 2) = 0" "addr (p + 3) = 0"
    by (auto simp: or_eq_0_iff)
  then show ?case
  proof cases
    case words
    then show ?thesis using direct next_bit_words_scan by simp
  next
    case found
    then show ?thesis using whole_word [of p "64 * p + sz" addr] by (subst next_bit_quads.simps) simp
  next
    case zero
    have "first_bit addr (64 * p + sz) (64 * p) = first_bit addr (64 * p + sz) (64 * (p + 4))"
      using zero whole_word [of p "64 * p + sz" addr] whole_word [of "p + 1" "64 * p + sz" addr]
        whole_word [of "p + 2" "64 * p + sz" addr] whole_word [of "p + 3" "64 * p + sz" addr]
      by (simp add: algebra_simps)
    then show ?thesis
      using zero less [of "sz - 256" "p + 4"] by (subst next_bit_quads.simps) (simp add: algebra_simps)
  qed
qed

lemma find_next_bit_scan: "find_next_bit addr sz n = first_bit addr sz n"
proof (cases "sz \<le> n")
  case True
  then show ?thesis by (simp add: find_next_bit_def) (subst first_bit.simps, simp)
next
  case False
  define p where "p = n div 64"
  define lo where "lo = n mod 64"
  define k where "k = sz - 64 * p"
  have split: "n = 64 * p + lo" "lo < 64" by (simp_all add: p_def lo_def)
  then have n: "n = 64 * p + lo" "lo < 64" "sz = 64 * p + k" "lo < k" "n - n mod 64 = 64 * p" "sz - (n - n mod 64) = k"
    using False by (simp_all add: k_def minus_mod_eq_mult_div)
  have msk: "bit (addr p AND push_bit lo (NOT 0)) j \<longleftrightarrow> bit (addr p) j \<and> lo \<le> j" if "j < 64" for j
    using that by (auto simp: bit_simps)
  have search: "first_bit addr sz n = (if addr p AND push_bit lo (NOT 0) = 0 then first_bit addr sz (64 * (p + 1))
      else 64 * p + ctzl (addr p AND push_bit lo (NOT 0)))" if "64 \<le> k"
    using word_search [of "addr p AND push_bit lo (NOT 0)" addr p lo 64 sz] msk n that by (simp add: algebra_simps)
  have "next_bit_quads addr (p + 1) (64 * p + 64) (k - 64) = first_bit addr sz (64 * (p + 1))" if "64 \<le> k"
    using next_bit_quads_scan [of addr "p + 1" "k - 64"] n that by (simp add: algebra_simps)
  moreover have "found_first (addr p AND push_bit lo (NOT 0)) (64 * p) k = first_bit addr sz n" if "k < 64"
    using found_first_scan [of _ addr p lo k] msk n that by simp
  ultimately show ?thesis
    using False n search next_bit_quads_scan [of addr p k]
    by (simp add: find_next_bit_def Let_def flip: p_def lo_def)
qed

lemma first_bit_found: "n \<le> sz \<Longrightarrow> first_bit addr sz n < sz \<Longrightarrow> n \<le> first_bit addr sz n \<and> test_bit (first_bit addr sz n) addr"
proof (induction addr sz n rule: first_bit.induct)
  case (1 addr sz n)
  then show ?case by (subst (asm) (4) first_bit.simps, subst (1 2) first_bit.simps) (auto split: if_splits)
qed

lemma first_bit_none: "n \<le> k \<Longrightarrow> k < first_bit addr sz n \<Longrightarrow> \<not> test_bit k addr"
proof (induction addr sz n rule: first_bit.induct)
  case (1 addr sz n)
  then show ?case by (cases "n = k") (auto simp: first_bit.simps [of addr sz n] first_bit.simps [of addr sz k] split: if_splits)
qed

lemma first_bit_bound: "n \<le> sz \<Longrightarrow> first_bit addr sz n \<le> sz"
  by (induction addr sz n rule: first_bit.induct) (subst first_bit.simps, simp)

text \<open>The mask of a single bit, as the clearing of one bit builds it.\<close>

lemma one_bit_mask:
  "BITMAP_FIRST_WORD_MASK n AND BITMAP_LAST_WORD_MASK (n + 1) = BIT_MASK n"
proof (rule bit_word_eqI)
  fix k
  assume k: "k < LENGTH(64)"
  have "n mod 64 < 64" by simp
  moreover have "(n + 1) mod 64 = (if n mod 64 = 63 then 0 else n mod 64 + 1)" by (simp add: mod_Suc)
  ultimately show "bit (BITMAP_FIRST_WORD_MASK n AND BITMAP_LAST_WORD_MASK (n + 1)) k \<longleftrightarrow> bit (BIT_MASK n) k"
    using k by (auto simp: bit_and_iff bit_FIRST_MASK bit_LAST_MASK bit_BIT_MASK split: if_splits)
qed

lemma test_and_clear_one: "bitmap_test_and_clear_atomic bm n 1 = (test_bit n bm, clear_bit n bm)"
proof -
  have "\<not> 64 - n mod 64 < 1" using mod_less_divisor [of 64 n] by linarith
  then have "bitmap_test_and_clear_atomic bm n 1 = clear_last_word bm (n div 64) 1 0 (BITMAP_FIRST_WORD_MASK n) (n + 1)"
    by (simp only: bitmap_test_and_clear_atomic_def Let_def if_False) (simp add: clear_full_words.simps [of _ _ "Suc 0"])
  also have "\<dots> = test_and_clear_bit n bm"
    using one_bit_mask [of n] by (simp add: clear_last_word_def test_and_clear_bit_def Let_def)
  finally show ?thesis by (simp add: test_and_clear_bit_eq)
qed

text \<open>
  C20. \<^verbatim>\<open>find_next_bit\<close>, which masks the first word, skips zero words four at a time and counts trailing zeros,
  finds the same bit as a scan bit by bit.
\<close>

theorem find_next_bit_is_scan: "find_next_bit addr sz offset = first_bit addr sz offset"
  by (rule find_next_bit_scan)

end
