(* ===== verification/PageHash.thy ===== *)
theory PageHash
  imports ByteMem Bitmap
begin

text \<open>
  The comparison of memory pages in \<^verbatim>\<open>migration/hash.c\<close>: the hash of a page, the lists of hashes that
  sixteen threads compute over the dirty pages, and their comparison with the lists of the other side.
  The threads are workers that sleep on a condition variable; a main thread wakes them and waits until
  all have finished. Page numbers are natural numbers; the C code computes them as \<^verbatim>\<open>int\<close>, which is the
  same below \<open>2 ^ 31\<close> pages.
\<close>

subsection \<open>The hash of a page\<close>

definition k1 :: u64 where "k1 = 0xb492b66fbe98f273"

definition ShiftMix :: "u64 \<Rightarrow> u64" where
  "ShiftMix val = val XOR drop_bit 47 val"

definition Fetch64 :: "mem \<Rightarrow> nat \<Rightarrow> u64" where
  "Fetch64 m p = rd64 m p"

definition Rotate :: "u64 \<Rightarrow> nat \<Rightarrow> u64" where
  "Rotate val shift = (if shift = 0 then val else drop_bit shift val OR push_bit (64 - shift) val)"

definition HashLen16 :: "u64 \<Rightarrow> u64 \<Rightarrow> u64" where
  "HashLen16 u v =
     (let kMul = 0x9ddfea08eb382d69;
          a = (u XOR v) * kMul;
          a = a XOR drop_bit 47 a;
          b = (v XOR a) * kMul;
          b = b XOR drop_bit 47 b
      in b * kMul)"

definition weak :: "u64 \<Rightarrow> u64 \<Rightarrow> u64 \<Rightarrow> u64 \<Rightarrow> u64 \<Rightarrow> u64 \<Rightarrow> u64 \<times> u64" where
  "weak w x y z a b =
     (let a = a + w;
          b = Rotate (b + a + z) 21;
          c = a;
          a = a + x;
          a = a + y;
          b = b + Rotate a 44
      in (a + z, b + c))"

definition WeakHashLen32WithSeeds :: "mem \<Rightarrow> nat \<Rightarrow> u64 \<Rightarrow> u64 \<Rightarrow> u64 \<times> u64" where
  "WeakHashLen32WithSeeds m s a b = weak (Fetch64 m s) (Fetch64 m (s + 8)) (Fetch64 m (s + 16)) (Fetch64 m (s + 24)) a b"

record city =
  ct_x :: u64
  ct_y :: u64
  ct_z :: u64
  ct_v :: "u64 \<times> u64"
  ct_w :: "u64 \<times> u64"

text \<open>One turn of the loop of \<^verbatim>\<open>city_hash_64\<close>, on the 64 bytes from \<open>s\<close> on.\<close>

definition city_turn :: "mem \<Rightarrow> nat \<Rightarrow> city \<Rightarrow> city" where
  "city_turn m s st =
     (let v1 = fst (ct_v st); v2 = snd (ct_v st); w1 = fst (ct_w st); w2 = snd (ct_w st);
          x = Rotate (ct_x st + ct_y st + v1 + Fetch64 m (s + 8)) 37 * k1;
          y = Rotate (ct_y st + v2 + Fetch64 m (s + 48)) 42 * k1;
          x = x XOR w2;
          y = y + (v1 + Fetch64 m (s + 40));
          z = Rotate (ct_z st + w1) 33 * k1;
          v = WeakHashLen32WithSeeds m s (v2 * k1) (x + w1);
          w = WeakHashLen32WithSeeds m (s + 32) (z + w2) (y + Fetch64 m (s + 16))
      in \<lparr>ct_x = z, ct_y = y, ct_z = x, ct_v = v, ct_w = w\<rparr>)"

text \<open>
  The loop ends when the length, a 64-bit word, has come down to 0; with another length it would go
  on behind the page.
\<close>

partial_function (option) city_loop :: "mem \<Rightarrow> nat \<Rightarrow> u64 \<Rightarrow> city \<Rightarrow> city option" where
  [code]: "city_loop m s len st =
     (let st = city_turn m s st; len = len - 64
      in if len \<noteq> 0 then city_loop m (s + 64) len st else Some st)"

definition city_start :: "mem \<Rightarrow> nat \<Rightarrow> nat \<Rightarrow> city" where
  "city_start m s len =
     (let x = Fetch64 m (s + len - 40);
          y = Fetch64 m (s + len - 16) + Fetch64 m (s + len - 56);
          z = HashLen16 (Fetch64 m (s + len - 48) + of_nat len) (Fetch64 m (s + len - 24));
          v = WeakHashLen32WithSeeds m (s + len - 64) (of_nat len) z;
          w = WeakHashLen32WithSeeds m (s + len - 32) (y + k1) x;
          x = x * k1 + Fetch64 m s
      in \<lparr>ct_x = x, ct_y = y, ct_z = z, ct_v = v, ct_w = w\<rparr>)"

definition city_end :: "city \<Rightarrow> u64" where
  "city_end st =
     HashLen16 (HashLen16 (fst (ct_v st)) (fst (ct_w st)) + ShiftMix (ct_y st) * k1 + ct_z st)
       (HashLen16 (snd (ct_v st)) (snd (ct_w st)) + ct_x st)"

definition city_hash_64 :: "mem \<Rightarrow> nat \<Rightarrow> nat \<Rightarrow> u64 option" where
  "city_hash_64 m s len = map_option city_end (city_loop m s (of_nat len - 64) (city_start m s len))"

text \<open>The hash function is chosen at compile time.\<close>

definition hashofpage :: "mem \<Rightarrow> nat \<Rightarrow> nat \<Rightarrow> u64 option" where
  "hashofpage m page len = city_hash_64 m page len"

subsection \<open>Where a page is\<close>

definition TARGET_PAGE_BITS :: nat where "TARGET_PAGE_BITS = 12"
definition TARGET_PAGE_SIZE :: nat where "TARGET_PAGE_SIZE = 4096"

record RAMBlock =
  rb_offset :: nat
  rb_used_length :: nat
  rb_max_length :: nat
  rb_host :: nat
  rb_idstr :: "u8 list"

text \<open>The last page is computed as a word, so that a block that ends at 0 would wrap.\<close>

definition first_page :: "RAMBlock \<Rightarrow> nat" where
  "first_page block = rb_offset block div 2 ^ TARGET_PAGE_BITS"

definition last_page :: "RAMBlock \<Rightarrow> nat" where
  "last_page block = ((rb_offset block + rb_max_length block) div 2 ^ TARGET_PAGE_BITS + (2 ^ 64 - 1)) mod 2 ^ 64"

fun get_page_addr :: "RAMBlock list \<Rightarrow> nat \<Rightarrow> nat \<Rightarrow> nat" where
  "get_page_addr [] fake_page page_index = fake_page"
| "get_page_addr (block # blocks) fake_page page_index =
     (if first_page block \<le> page_index \<and> page_index \<le> last_page block
      then rb_host block + (page_index - first_page block) * 2 ^ TARGET_PAGE_BITS
      else get_page_addr blocks fake_page page_index)"

text \<open>Theory \<open>PageHashSpec\<close> shows that the hash of a page is always found.\<close>

definition compute_hash :: "RAMBlock list \<Rightarrow> nat \<Rightarrow> mem \<Rightarrow> nat \<Rightarrow> u64" where
  "compute_hash blocks fake_page m page_index =
     (case hashofpage m (get_page_addr blocks fake_page page_index) 4096 of Some hash \<Rightarrow> hash | None \<Rightarrow> 0)"

subsection \<open>The hash lists\<close>

definition nthread :: nat where "nthread = 16"

text \<open>The bits of one word that belong to a thread: a mask with one bit is shifted along.\<close>

function hash_word :: "u64 \<Rightarrow> nat \<Rightarrow> nat \<Rightarrow> nat \<Rightarrow> u64 \<Rightarrow> nat list" where
  "hash_word w base offset pages msk =
     (if offset < 64 \<and> base + offset < pages
      then (if msk AND w \<noteq> 0 then [base + offset] else []) @ hash_word w base (offset + nthread) pages (push_bit nthread msk)
      else [])"
  by pat_completeness auto
termination by (relation "measure (\<lambda>(_, _, offset, _, _). 64 - offset)") (auto simp: nthread_def)

declare hash_word.simps [simp del]

function hash_words :: "bitmap \<Rightarrow> nat \<Rightarrow> nat \<Rightarrow> nat \<Rightarrow> nat list" where
  "hash_words bm t pages i =
     (if i * 64 < pages then hash_word (bm i) (i * 64) t pages (push_bit t 1) @ hash_words bm t pages (i + 1) else [])"
  by pat_completeness auto
termination by (relation "measure (\<lambda>(_, _, pages, i). pages - i * 64)") auto

declare hash_words.simps [simp del]

text \<open>
  What thread \<open>t\<close> writes into its row of the hash list: the pages and, at the same positions, their
  hashes. The array of lengths is the length of the rows.
\<close>

record hash_list =
  hl_hashes :: "nat \<Rightarrow> u64 list"
  hl_page_indices :: "nat \<Rightarrow> nat list"

definition thread_pages :: "bitmap \<Rightarrow> nat \<Rightarrow> nat \<Rightarrow> nat list" where
  "thread_pages bm pages t = hash_words bm t pages 0"

definition hash_entry :: "(nat \<Rightarrow> u64) \<Rightarrow> nat \<Rightarrow> nat \<Rightarrow> hash_list \<Rightarrow> hash_list" where
  "hash_entry h t page hl =
     hl\<lparr>hl_hashes := (hl_hashes hl)(t := hl_hashes hl t @ [h page]),
        hl_page_indices := (hl_page_indices hl)(t := hl_page_indices hl t @ [page])\<rparr>"

text \<open>The rows are allocated once, with room for so many entries.\<close>

definition max_len :: "nat \<Rightarrow> nat" where
  "max_len pages = pages div nthread + 1"

subsection \<open>The comparison\<close>

record comparison =
  cp_diverse_count :: nat
  cp_divergent_bitmap :: bitmap

definition compare_entry :: "hash_list \<Rightarrow> (nat \<Rightarrow> u64 list) \<Rightarrow> nat \<Rightarrow> nat \<Rightarrow> comparison \<Rightarrow> comparison" where
  "compare_entry hl remote t i c =
     (if remote t ! i \<noteq> hl_hashes hl t ! i
      then c\<lparr>cp_diverse_count := cp_diverse_count c + 1,
             cp_divergent_bitmap := bitmap_set (cp_divergent_bitmap c) (hl_page_indices hl t ! i) 1\<rparr>
      else c)"

subsection \<open>The pool of threads\<close>

text \<open>
  A worker locks its mutex and sleeps on its condition variable; when it is woken it goes through its
  work item by item, counts itself as finished and starts over. The main thread signals each condition
  variable once, without looking whether its worker sleeps already, and then polls the counter. The
  same frame serves the threads that compute hashes and those that compare them: \<open>todo t\<close> is the number of
  items of a worker and \<open>item t k\<close> their effect, which happens under a lock or on a row of its own. A wait that
  returns without a signal, which the library allows, is left out.
\<close>

datatype worker = Starting | Sleeping | Working nat

datatype waker = Waking nat | Polling | Returned

record 'd pool =
  pl_worker :: "nat \<Rightarrow> worker"
  pl_main :: waker
  pl_finished :: nat
  pl_data :: 'd

inductive pool_step :: "(nat \<Rightarrow> nat) \<Rightarrow> (nat \<Rightarrow> nat \<Rightarrow> 'd \<Rightarrow> 'd) \<Rightarrow> 'd pool \<Rightarrow> 'd pool \<Rightarrow> bool"
  for todo item where
  sleep: "t < nthread \<Longrightarrow> pl_worker s t = Starting \<Longrightarrow>
    pool_step todo item s (s\<lparr>pl_worker := (pl_worker s)(t := Sleeping)\<rparr>)"
| wake: "pl_main s = Waking t \<Longrightarrow> t < nthread \<Longrightarrow>
    pool_step todo item s (s\<lparr>pl_main := (if t + 1 < nthread then Waking (t + 1) else Polling),
      pl_worker := (if pl_worker s t = Sleeping then (pl_worker s)(t := Working 0) else pl_worker s)\<rparr>)"
| work: "t < nthread \<Longrightarrow> pl_worker s t = Working k \<Longrightarrow> k < todo t \<Longrightarrow>
    pool_step todo item s (s\<lparr>pl_worker := (pl_worker s)(t := Working (k + 1)), pl_data := item t k (pl_data s)\<rparr>)"
| finish: "t < nthread \<Longrightarrow> pl_worker s t = Working k \<Longrightarrow> \<not> k < todo t \<Longrightarrow>
    pool_step todo item s (s\<lparr>pl_worker := (pl_worker s)(t := Starting), pl_finished := pl_finished s + 1\<rparr>)"
| return: "pl_main s = Polling \<Longrightarrow> pl_finished s = nthread \<Longrightarrow> pool_step todo item s (s\<lparr>pl_main := Returned\<rparr>)"

text \<open>The main thread resets the counter before it wakes the workers.\<close>

definition pool_start :: "(nat \<Rightarrow> worker) \<Rightarrow> 'd \<Rightarrow> 'd pool" where
  "pool_start workers d = \<lparr>pl_worker = workers, pl_main = Waking 0, pl_finished = 0, pl_data = d\<rparr>"

definition at_rest :: "(nat \<Rightarrow> worker) \<Rightarrow> bool" where
  "at_rest workers \<longleftrightarrow> (\<forall>t < nthread. workers t \<in> {Starting, Sleeping})"

text \<open>
  \<^verbatim>\<open>compute_hash_list\<close> and \<^verbatim>\<open>compare_hash_list\<close>: a run of the pool from the start to the return of the main thread.
  The first also replaces the divergent bitmap by a new one, which the second then fills.
\<close>

definition compute_hash_list ::
    "(nat \<Rightarrow> u64) \<Rightarrow> bitmap \<Rightarrow> nat \<Rightarrow> (nat \<Rightarrow> worker) \<Rightarrow> hash_list pool \<Rightarrow> bool" where
  "compute_hash_list h bm pages workers s \<longleftrightarrow>
     (pool_step (\<lambda>t. length (thread_pages bm pages t)) (\<lambda>t k. hash_entry h t (thread_pages bm pages t ! k)))\<^sup>*\<^sup>*
       (pool_start workers \<lparr>hl_hashes = (\<lambda>_. []), hl_page_indices = (\<lambda>_. [])\<rparr>) s \<and> pl_main s = Returned"

definition compare_hash_list ::
    "hash_list \<Rightarrow> (nat \<Rightarrow> u64 list) \<Rightarrow> bitmap \<Rightarrow> (nat \<Rightarrow> worker) \<Rightarrow> comparison pool \<Rightarrow> bool" where
  "compare_hash_list hl remote divergent_bitmap workers s \<longleftrightarrow>
     (pool_step (\<lambda>t. length (hl_page_indices hl t)) (compare_entry hl remote))\<^sup>*\<^sup>*
       (pool_start workers \<lparr>cp_diverse_count = 0, cp_divergent_bitmap = divergent_bitmap\<rparr>) s \<and> pl_main s = Returned"

end
