(* ===== verification/RamSync.thy ===== *)
theory RamSync
  imports PageHash
begin

text \<open>
  The transfer of memory at a checkpoint in \<^verbatim>\<open>migration/ram.c\<close>: the collection of dirty pages from the log of
  the accelerator, the exchange of dirty bitmaps and page hashes between primary and backup, and the
  search for pages to send. The accelerator has already put its log into \<^verbatim>\<open>ram_list.dirty_memory\<close>. A block of guest memory is named by its position in the list of blocks. The
  guest is stopped meanwhile, so its memory does not change. The capabilities \<^verbatim>\<open>xbzrle\<close> and \<^verbatim>\<open>compress\<close> of the
  migration are off. Addresses and offsets are natural numbers; the code has 64-bit words, which no
  memory of a guest fills.
\<close>

subsection \<open>State\<close>

record page_request =
  pr_rb :: nat
  pr_offset :: nat
  pr_len :: nat

record PageSearchStatus =
  ps_block :: nat
  ps_offset :: nat
  ps_complete_round :: bool

text \<open>
  The function \<open>rm_hook\<close> gives the answers of \<^verbatim>\<open>ram_control_save_page\<close>, which hands a page to the network card:
  its result and the bytes it reports. The pages handed over are listed in \<open>rm_rdma\<close>; what is written to
  the migration stream is \<open>rm_stream\<close>.
\<close>

record ram =
  rm_blocks :: "RAMBlock list"
  rm_mem :: mem
  rm_dirty_memory :: bitmap
  rm_bmap :: bitmap
  rm_unsentmap :: "bitmap option"
  rm_backup_bmap :: bitmap
  rm_divergent_bitmap :: bitmap
  rm_colo_primary_transfer :: bool
  rm_bulk_stage :: bool
  rm_migration_dirty_pages :: u64
  rm_backup_dirty_pages :: u64
  rm_last_seen_block :: "nat option"
  rm_last_sent_block :: "nat option"
  rm_last_offset :: nat
  rm_src_page_requests :: "page_request list"
  rm_host_page_size :: nat
  rm_hook :: "nat \<Rightarrow> int \<times> u64"
  rm_hook_calls :: nat
  rm_rdma :: "(nat \<times> nat) list"
  rm_stream :: "u8 list"
  rm_bytes_transferred :: u64
  rm_norm_pages :: u64
  rm_dup_pages :: u64

definition last_ram_offset :: "RAMBlock list \<Rightarrow> nat" where
  "last_ram_offset blocks = fold (\<lambda>block last. max last (rb_offset block + rb_max_length block)) blocks 0"

definition ram_bitmap_pages :: "ram \<Rightarrow> nat" where
  "ram_bitmap_pages st = last_ram_offset (rm_blocks st) div 2 ^ TARGET_PAGE_BITS"

subsection \<open>The dirty log\<close>

text \<open>
  The log is kept in blocks of \<open>2 ^ 21\<close> bits, here one bitmap. Whole words are moved where the range
  starts at a word, single pages otherwise.
\<close>

definition DIRTY_MEMORY_BLOCK_SIZE :: nat where "DIRTY_MEMORY_BLOCK_SIZE = 256 * 1024 * 8"

definition ctpopl :: "u64 \<Rightarrow> nat" where
  "ctpopl w = length (filter (bit w) [0..<64])"

function test_and_clear_dirty_loop :: "nat \<Rightarrow> nat \<Rightarrow> bool \<Rightarrow> bitmap \<Rightarrow> bool \<times> bitmap" where
  "test_and_clear_dirty_loop page end dirty log =
     (if page < end then
        let num = min (end - page) (DIRTY_MEMORY_BLOCK_SIZE - page mod DIRTY_MEMORY_BLOCK_SIZE);
            (d, log) = bitmap_test_and_clear_atomic log page num
        in test_and_clear_dirty_loop (page + num) end (dirty \<or> d) log
      else (dirty, log))"
  by pat_completeness auto
termination
  by (relation "measure (\<lambda>(page, end, _). end - page)")
    (auto simp: DIRTY_MEMORY_BLOCK_SIZE_def min_def intro!: diff_less_mono2)

declare test_and_clear_dirty_loop.simps [simp del]

definition cpu_physical_memory_test_and_clear_dirty :: "nat \<Rightarrow> nat \<Rightarrow> bitmap \<Rightarrow> bool \<times> bitmap" where
  "cpu_physical_memory_test_and_clear_dirty start len log =
     (if len = 0 then (False, log)
      else test_and_clear_dirty_loop (start div 2 ^ TARGET_PAGE_BITS)
        ((start + len + (TARGET_PAGE_SIZE - 1)) div 2 ^ TARGET_PAGE_BITS) False log)"

definition sync_word :: "nat \<Rightarrow> bitmap \<times> bitmap \<times> u64 \<Rightarrow> bitmap \<times> bitmap \<times> u64" where
  "sync_word k = (\<lambda>(src, dest, num_dirty).
     if src k \<noteq> 0 then
       let bits = src k; new_dirty = NOT (dest k) AND bits
       in (src(k := 0), dest(k := dest k OR bits), num_dirty + of_nat (ctpopl new_dirty))
     else (src, dest, num_dirty))"

definition sync_page :: "nat \<Rightarrow> nat \<Rightarrow> bitmap \<times> bitmap \<times> u64 \<Rightarrow> bitmap \<times> bitmap \<times> u64" where
  "sync_page start i = (\<lambda>(src, dest, num_dirty).
     let addr = i * TARGET_PAGE_SIZE;
         (dirty, src) = cpu_physical_memory_test_and_clear_dirty (start + addr) TARGET_PAGE_SIZE src
     in if dirty then
          let k = (start + addr) div 2 ^ TARGET_PAGE_BITS; (old, dest) = test_and_set_bit k dest
          in (src, dest, if old then num_dirty else num_dirty + 1)
        else (src, dest, num_dirty))"

definition cpu_physical_memory_sync_dirty_bitmap ::
    "nat \<Rightarrow> nat \<Rightarrow> bitmap \<Rightarrow> bitmap \<Rightarrow> bitmap \<times> bitmap \<times> u64" where
  "cpu_physical_memory_sync_dirty_bitmap start len src dest =
     (let page = start div 2 ^ TARGET_PAGE_BITS div 64 in
      if page * 64 * 2 ^ TARGET_PAGE_BITS = start
      then fold sync_word [page..<page + BITS_TO_LONGS (len div 2 ^ TARGET_PAGE_BITS)] (src, dest, 0)
      else fold (sync_page start) [0..<(len + (TARGET_PAGE_SIZE - 1)) div TARGET_PAGE_SIZE] (src, dest, 0))"

definition migration_bitmap_sync_range :: "nat \<Rightarrow> nat \<Rightarrow> ram \<Rightarrow> ram" where
  "migration_bitmap_sync_range start len st =
     (let (log, bm, n) = cpu_physical_memory_sync_dirty_bitmap start len (rm_dirty_memory st) (rm_bmap st)
      in st\<lparr>rm_dirty_memory := log, rm_bmap := bm, rm_migration_dirty_pages := rm_migration_dirty_pages st + n\<rparr>)"

definition migration_bitmap_sync :: "ram \<Rightarrow> ram" where
  "migration_bitmap_sync st =
     fold (\<lambda>block. migration_bitmap_sync_range (rb_offset block) (rb_used_length block)) (rm_blocks st) st"

definition backup_bitmap_sync_range :: "nat \<Rightarrow> nat \<Rightarrow> ram \<Rightarrow> ram" where
  "backup_bitmap_sync_range start len st =
     (let (log, bm, n) = cpu_physical_memory_sync_dirty_bitmap start len (rm_dirty_memory st) (rm_backup_bmap st)
      in st\<lparr>rm_dirty_memory := log, rm_backup_bmap := bm, rm_backup_dirty_pages := rm_backup_dirty_pages st + n\<rparr>)"

definition backup_bitmap_sync :: "ram \<Rightarrow> ram" where
  "backup_bitmap_sync st =
     fold (\<lambda>block. backup_bitmap_sync_range (rb_offset block) (rb_used_length block)) (rm_blocks st) st"

text \<open>A count of pages for a message: each word is walked from its highest bit.\<close>

definition slow_bitmap_count :: "bitmap \<Rightarrow> nat \<Rightarrow> nat" where
  "slow_bitmap_count bm nbits =
     length (filter (\<lambda>n. drop_bit (n mod 64) 0x8000000000000000 AND bm (n div 64) \<noteq> 0) [0..<nbits])"

subsection \<open>One page\<close>

definition RAM_SAVE_FLAG_COMPRESS :: nat where "RAM_SAVE_FLAG_COMPRESS = 0x02"
definition RAM_SAVE_FLAG_PAGE :: nat where "RAM_SAVE_FLAG_PAGE = 0x08"
definition RAM_SAVE_FLAG_EOS :: nat where "RAM_SAVE_FLAG_EOS = 0x10"
definition RAM_SAVE_FLAG_CONTINUE :: nat where "RAM_SAVE_FLAG_CONTINUE = 0x20"

definition RAM_SAVE_CONTROL_NOT_SUPP :: int where "RAM_SAVE_CONTROL_NOT_SUPP = -1000"
definition RAM_SAVE_CONTROL_DELAYED :: int where "RAM_SAVE_CONTROL_DELAYED = -2000"

definition qemu_put_buffer :: "u8 list \<Rightarrow> ram \<Rightarrow> ram" where
  "qemu_put_buffer bs st = st\<lparr>rm_stream := rm_stream st @ bs\<rparr>"

definition qemu_put_be64 :: "nat \<Rightarrow> ram \<Rightarrow> ram" where
  "qemu_put_be64 v st = qemu_put_buffer (rev (le_bytes 8 v)) st"

definition save_page_header :: "nat \<Rightarrow> nat \<Rightarrow> ram \<Rightarrow> nat \<times> ram" where
  "save_page_header block offset st =
     (let st = qemu_put_be64 offset st in
      if offset AND RAM_SAVE_FLAG_CONTINUE = 0 then
        let idstr = rb_idstr (rm_blocks st ! block); len = length idstr
        in (8 + 1 + len, qemu_put_buffer idstr (qemu_put_buffer [of_nat len] st))
      else (8, st))"

text \<open>
  The search for a byte that is not zero, with vectors of 16 bytes: the first eight one by one, then
  groups of eight.
\<close>

definition vec :: "mem \<Rightarrow> nat \<Rightarrow> nat \<Rightarrow> u8 list" where
  "vec m p i = read_bytes m (p + i * 16) 16"

definition VEC_OR :: "u8 list \<Rightarrow> u8 list \<Rightarrow> u8 list" where
  "VEC_OR v1 v2 = map2 (OR) v1 v2"

function nonzero_group :: "mem \<Rightarrow> nat \<Rightarrow> nat \<Rightarrow> nat \<Rightarrow> nat" where
  "nonzero_group m p i n =
     (if i < n then
        let tmp0 = VEC_OR (vec m p i) (vec m p (i + 1));
            tmp1 = VEC_OR (vec m p (i + 2)) (vec m p (i + 3));
            tmp2 = VEC_OR (vec m p (i + 4)) (vec m p (i + 5));
            tmp3 = VEC_OR (vec m p (i + 6)) (vec m p (i + 7));
            tmp01 = VEC_OR tmp0 tmp1;
            tmp23 = VEC_OR tmp2 tmp3
        in if VEC_OR tmp01 tmp23 \<noteq> replicate 16 0 then i else nonzero_group m p (i + 8) n
      else i)"
  by pat_completeness auto
termination by (relation "measure (\<lambda>(_, _, i, n). n - i)") auto

declare nonzero_group.simps [simp del]

definition buffer_find_nonzero_offset :: "mem \<Rightarrow> nat \<Rightarrow> nat \<Rightarrow> nat" where
  "buffer_find_nonzero_offset m buf len =
     (if len = 0 then 0
      else case find (\<lambda>i. vec m buf i \<noteq> replicate 16 0) [0..<8] of
        Some i \<Rightarrow> i * 16
      | None \<Rightarrow> nonzero_group m buf 8 (len div 16) * 16)"

definition is_zero_range :: "mem \<Rightarrow> nat \<Rightarrow> nat \<Rightarrow> bool" where
  "is_zero_range m p sz \<longleftrightarrow> buffer_find_nonzero_offset m p sz = sz"

definition save_zero_page :: "nat \<Rightarrow> nat \<Rightarrow> nat \<Rightarrow> ram \<Rightarrow> int \<times> ram" where
  "save_zero_page block offset p st =
     (if is_zero_range (rm_mem st) p TARGET_PAGE_SIZE then
        let (n, st) = save_page_header block (offset OR RAM_SAVE_FLAG_COMPRESS) (st\<lparr>rm_dup_pages := rm_dup_pages st + 1\<rparr>);
            st = qemu_put_buffer [0] st
        in (1, st\<lparr>rm_bytes_transferred := rm_bytes_transferred st + of_nat n + 1\<rparr>)
      else (-1, st))"

definition ram_control_save_page :: "nat \<Rightarrow> nat \<Rightarrow> ram \<Rightarrow> (int \<times> u64) \<times> ram" where
  "ram_control_save_page block offset st =
     (let (ret, bytes_xmit) = rm_hook st (rm_hook_calls st)
      in ((ret, bytes_xmit),
          st\<lparr>rm_hook_calls := rm_hook_calls st + 1,
             rm_rdma := (if bytes_xmit \<noteq> 0 then rm_rdma st @ [(block, offset)] else rm_rdma st)\<rparr>))"

definition send_normal_page :: "nat \<Rightarrow> nat \<Rightarrow> nat \<Rightarrow> ram \<Rightarrow> ram" where
  "send_normal_page block offset p st =
     (let (n, st) = save_page_header block (offset OR RAM_SAVE_FLAG_PAGE) st;
          st = qemu_put_buffer (read_bytes (rm_mem st) p TARGET_PAGE_SIZE) st
      in st\<lparr>rm_bytes_transferred := rm_bytes_transferred st + of_nat n + of_nat TARGET_PAGE_SIZE,
            rm_norm_pages := rm_norm_pages st + 1\<rparr>)"

definition ram_save_page :: "PageSearchStatus \<Rightarrow> ram \<Rightarrow> int \<times> ram" where
  "ram_save_page pss st =
     (let block = ps_block pss; offset = ps_offset pss;
          p = rb_host (rm_blocks st ! block) + offset;
          ((ret, bytes_xmit), st) = ram_control_save_page block offset st;
          (pages, st) = (if bytes_xmit \<noteq> 0
            then (1, st\<lparr>rm_bytes_transferred := rm_bytes_transferred st + bytes_xmit\<rparr>) else (-1, st));
          offset = (if Some block = rm_last_sent_block st then offset OR RAM_SAVE_FLAG_CONTINUE else offset);
          (pages, st) =
            (if ret \<noteq> RAM_SAVE_CONTROL_NOT_SUPP then
               (pages,
                if ret \<noteq> RAM_SAVE_CONTROL_DELAYED then
                  if bytes_xmit > 0 then st\<lparr>rm_norm_pages := rm_norm_pages st + 1\<rparr>
                  else st\<lparr>rm_dup_pages := rm_dup_pages st + 1\<rparr>
                else st)
             else save_zero_page block offset p st)
      in if pages = -1 then (1, send_normal_page block offset p st) else (pages, st))"

subsection \<open>The search for a dirty page\<close>

definition search_bitmap :: "ram \<Rightarrow> bitmap" where
  "search_bitmap st = (if rm_colo_primary_transfer st then rm_divergent_bitmap st else rm_bmap st)"

definition migration_bitmap_find_dirty :: "RAMBlock \<Rightarrow> nat \<Rightarrow> ram \<Rightarrow> nat \<times> nat" where
  "migration_bitmap_find_dirty rb start st =
     (let base = rb_offset rb div 2 ^ TARGET_PAGE_BITS;
          nr = base + start div 2 ^ TARGET_PAGE_BITS;
          sz = base + rb_used_length rb div 2 ^ TARGET_PAGE_BITS;
          next = (if rm_bulk_stage st \<and> base < nr then nr + 1 else find_next_bit (search_bitmap st) sz nr)
      in ((next - base) * 2 ^ TARGET_PAGE_BITS, next * 2 ^ TARGET_PAGE_BITS))"

definition migration_bitmap_clear_dirty :: "nat \<Rightarrow> ram \<Rightarrow> bool \<times> ram" where
  "migration_bitmap_clear_dirty addr st =
     (let nr = addr div 2 ^ TARGET_PAGE_BITS;
          (ret, bm) = test_and_clear_bit nr (search_bitmap st);
          st = (if rm_colo_primary_transfer st then st\<lparr>rm_divergent_bitmap := bm\<rparr> else st\<lparr>rm_bmap := bm\<rparr>)
      in (ret, if ret then st\<lparr>rm_migration_dirty_pages := rm_migration_dirty_pages st - 1\<rparr> else st))"

text \<open>The result: whether a page was found, whether to go on, and the address of the page.\<close>

definition find_dirty_block :: "PageSearchStatus \<Rightarrow> ram \<Rightarrow> bool \<times> bool \<times> nat \<times> PageSearchStatus \<times> ram" where
  "find_dirty_block pss st =
     (let (offset, ram_addr_abs) = migration_bitmap_find_dirty (rm_blocks st ! ps_block pss) (ps_offset pss) st;
          pss = pss\<lparr>ps_offset := offset\<rparr> in
      if ps_complete_round pss \<and> Some (ps_block pss) = rm_last_seen_block st \<and> rm_last_offset st \<le> ps_offset pss
      then (False, False, ram_addr_abs, pss, st)
      else if rb_used_length (rm_blocks st ! ps_block pss) \<le> ps_offset pss
      then if ps_block pss + 1 < length (rm_blocks st)
           then (False, True, ram_addr_abs, pss\<lparr>ps_offset := 0, ps_block := ps_block pss + 1\<rparr>, st)
           else (False, True, ram_addr_abs, pss\<lparr>ps_offset := 0, ps_block := 0, ps_complete_round := True\<rparr>,
                 st\<lparr>rm_bulk_stage := False\<rparr>)
      else (True, True, ram_addr_abs, pss, st))"

subsection \<open>Requested pages\<close>

text \<open>The queue of requests of a destination that already runs.\<close>

definition unqueue_page :: "ram \<Rightarrow> (nat \<times> nat \<times> nat) option \<times> ram" where
  "unqueue_page st =
     (case rm_src_page_requests st of
        [] \<Rightarrow> (None, st)
      | e # es \<Rightarrow>
          (Some (pr_rb e, pr_offset e,
             (pr_offset e + rb_offset (rm_blocks st ! pr_rb e)) div TARGET_PAGE_SIZE * TARGET_PAGE_SIZE),
           st\<lparr>rm_src_page_requests :=
             (if TARGET_PAGE_SIZE < pr_len e
              then e\<lparr>pr_len := pr_len e - TARGET_PAGE_SIZE, pr_offset := pr_offset e + TARGET_PAGE_SIZE\<rparr> # es
              else es)\<rparr>))"

definition requested :: "page_request list \<Rightarrow> nat" where
  "requested es = sum_list (map (\<lambda>e. pr_len e + 1) es)"

lemma unqueue_page_less: "unqueue_page st = (Some x, st') \<Longrightarrow> requested (rm_src_page_requests st') < requested (rm_src_page_requests st)"
  by (auto simp: unqueue_page_def requested_def TARGET_PAGE_SIZE_def split: list.splits if_splits)

function get_queued_page :: "PageSearchStatus \<Rightarrow> nat \<Rightarrow> ram \<Rightarrow> bool \<times> nat \<times> PageSearchStatus \<times> ram" where
  "get_queued_page pss addr st =
     (case unqueue_page st of
        (None, st) \<Rightarrow> (False, addr, pss, st)
      | (Some (block, offset, addr), st) \<Rightarrow>
          if test_bit (addr div 2 ^ TARGET_PAGE_BITS) (rm_bmap st)
          then (True, addr, pss\<lparr>ps_block := block, ps_offset := offset\<rparr>, st\<lparr>rm_bulk_stage := False\<rparr>)
          else get_queued_page pss addr st)"
  by pat_completeness auto
termination
  by (relation "measure (\<lambda>(_, _, st). requested (rm_src_page_requests st))") (simp_all add: unqueue_page_less [OF sym])

declare get_queued_page.simps [simp del]

subsection \<open>Saving what was found\<close>

definition ram_save_target_page :: "PageSearchStatus \<Rightarrow> nat \<Rightarrow> ram \<Rightarrow> int \<times> ram" where
  "ram_save_target_page pss dirty_ram_abs st =
     (let (dirty, st) = migration_bitmap_clear_dirty dirty_ram_abs st in
      if dirty then
        let (res, st) = ram_save_page pss st in
        if res < 0 then (res, st)
        else
          let st = st\<lparr>rm_unsentmap := map_option (clear_bit (dirty_ram_abs div 2 ^ TARGET_PAGE_BITS)) (rm_unsentmap st)\<rparr>
          in (res, if res > 0 then st\<lparr>rm_last_sent_block := Some (ps_block pss)\<rparr> else st)
      else (0, st))"

text \<open>All pages of one page of the host, which may be larger than a page of the guest.\<close>

partial_function (option) save_host_page_loop ::
    "PageSearchStatus \<Rightarrow> nat \<Rightarrow> int \<Rightarrow> ram \<Rightarrow> (int \<times> PageSearchStatus \<times> ram) option" where
  [code]: "save_host_page_loop pss dirty_ram_abs pages st =
     (let (tmppages, st) = ram_save_target_page pss dirty_ram_abs st in
      if tmppages < 0 then Some (tmppages, pss, st)
      else
        let pages = pages + tmppages;
            pss = pss\<lparr>ps_offset := ps_offset pss + TARGET_PAGE_SIZE\<rparr>;
            dirty_ram_abs = dirty_ram_abs + TARGET_PAGE_SIZE
        in if ps_offset pss AND (rm_host_page_size st - 1) \<noteq> 0 then save_host_page_loop pss dirty_ram_abs pages st
           else Some (pages, pss\<lparr>ps_offset := ps_offset pss - TARGET_PAGE_SIZE\<rparr>, st))"

definition ram_save_host_page :: "PageSearchStatus \<Rightarrow> nat \<Rightarrow> ram \<Rightarrow> (int \<times> PageSearchStatus \<times> ram) option" where
  "ram_save_host_page pss dirty_ram_abs st = save_host_page_loop pss dirty_ram_abs 0 st"

partial_function (option) find_and_save_loop ::
    "PageSearchStatus \<Rightarrow> nat \<Rightarrow> ram \<Rightarrow> (int \<times> PageSearchStatus \<times> ram) option" where
  [code]: "find_and_save_loop pss addr st =
     (let (found, addr, pss, st) = get_queued_page pss addr st;
          (found, again, addr, pss, st) =
            (if found then (True, True, addr, pss, st) else find_dirty_block pss st)
      in if found then
           case ram_save_host_page pss addr st of
             None \<Rightarrow> None
           | Some (pages, pss, st) \<Rightarrow>
               if pages = 0 \<and> again then find_and_save_loop pss addr st else Some (pages, pss, st)
         else if again then find_and_save_loop pss addr st
         else Some (0, pss, st))"

definition ram_find_and_save_block :: "ram \<Rightarrow> (int \<times> ram) option" where
  "ram_find_and_save_block st =
     (let pss = \<lparr>ps_block = (case rm_last_seen_block st of None \<Rightarrow> 0 | Some b \<Rightarrow> b),
                 ps_offset = rm_last_offset st, ps_complete_round = False\<rparr>
      in case find_and_save_loop pss 0 st of
           None \<Rightarrow> None
         | Some (pages, pss, st) \<Rightarrow>
             Some (pages, st\<lparr>rm_last_seen_block := Some (ps_block pss), rm_last_offset := ps_offset pss\<rparr>))"

partial_function (option) save_remaining :: "ram \<Rightarrow> ram option" where
  [code]: "save_remaining st =
     (case ram_find_and_save_block st of
        None \<Rightarrow> None
      | Some (pages, st) \<Rightarrow> if pages = 0 then Some st else save_remaining st)"

subsection \<open>A checkpoint\<close>

text \<open>The hashes of the backup travel as one sequence of words, row by row.\<close>

definition pack_hashes :: "hash_list \<Rightarrow> u64 list" where
  "pack_hashes hl = concat (map (hl_hashes hl) [0..<nthread])"

definition unpack_hashes :: "(nat \<Rightarrow> nat) \<Rightarrow> u64 list \<Rightarrow> nat \<Rightarrow> u64 list" where
  "unpack_hashes len buf =
     fst (fold (\<lambda>i (rows, src). (rows(i := take (len i) src), drop (len i) src)) [0..<nthread] ((\<lambda>_. []), buf))"

text \<open>
  The part of \<^verbatim>\<open>backup_prepare_bitmap\<close> before the exchange of bitmaps, the part of \<^verbatim>\<open>ram_save_complete\<close> before
  it, and the bitmap that both sides compute.
\<close>

definition or_bitmap :: "ram \<Rightarrow> bitmap \<Rightarrow> bitmap \<Rightarrow> bitmap" where
  "or_bitmap st primary_bitmap backup_bitmap =
     bitmap_or (bitmap_new (ram_bitmap_pages st)) primary_bitmap backup_bitmap (ram_bitmap_pages st)"

definition page_hashes :: "nat \<Rightarrow> ram \<Rightarrow> nat \<Rightarrow> u64" where
  "page_hashes fake_page st = compute_hash (rm_blocks st) fake_page (rm_mem st)"

text \<open>\<^verbatim>\<open>backup_prepare_bitmap\<close>: from the state of the backup and the bitmap of the primary to the hashes sent.\<close>

definition backup_prepare_bitmap :: "nat \<Rightarrow> (nat \<Rightarrow> worker) \<Rightarrow> bitmap \<Rightarrow> ram \<Rightarrow> u64 list \<Rightarrow> ram \<Rightarrow> bool" where
  "backup_prepare_bitmap fake_page workers primary_bitmap b sent b' \<longleftrightarrow>
     (\<exists>s. b' = backup_bitmap_sync b \<and>
        compute_hash_list (page_hashes fake_page b') (or_bitmap b' primary_bitmap (rm_backup_bmap b')) (ram_bitmap_pages b') workers s \<and>
        sent = pack_hashes (pl_data s))"

text \<open>
  \<^verbatim>\<open>ram_save_complete\<close> at a checkpoint that is not the first: the dirty pages are collected, the pages that
  differ are found with the bitmap and the hashes of the backup, and then sent.
\<close>

definition ram_save_complete ::
    "nat \<Rightarrow> (nat \<Rightarrow> worker) \<Rightarrow> (nat \<Rightarrow> worker) \<Rightarrow> bitmap \<Rightarrow> u64 list \<Rightarrow> ram \<Rightarrow> ram \<Rightarrow> bool" where
  "ram_save_complete fake_page w1 w2 backup_bitmap hashes p p' \<longleftrightarrow>
     (\<exists>s c q. let p1 = migration_bitmap_sync p; pages = ram_bitmap_pages p1 in
        compute_hash_list (page_hashes fake_page p1) (or_bitmap p1 (rm_bmap p1) backup_bitmap) pages w1 s \<and>
        compare_hash_list (pl_data s) (unpack_hashes (\<lambda>i. length (hl_page_indices (pl_data s) i)) hashes)
          (bitmap_new pages) w2 c \<and>
        save_remaining (p1\<lparr>rm_divergent_bitmap := cp_divergent_bitmap (pl_data c)\<rparr>) = Some q \<and>
        p' = qemu_put_be64 RAM_SAVE_FLAG_EOS (q\<lparr>rm_bmap := bitmap_zero (rm_bmap q) pages\<rparr>))"

definition mc_clear_backup_bmap :: "ram \<Rightarrow> ram" where
  "mc_clear_backup_bmap b = b\<lparr>rm_backup_bmap := bitmap_zero (rm_backup_bmap b) (ram_bitmap_pages b)\<rparr>"

text \<open>What the network card does with the pages it was handed: it writes them into the memory of the backup.\<close>

definition rdma_write :: "ram \<Rightarrow> nat \<times> nat \<Rightarrow> ram \<Rightarrow> ram" where
  "rdma_write p = (\<lambda>(i, offset) b.
     b\<lparr>rm_mem := write_bytes (rm_mem b) (rb_host (rm_blocks b ! i) + offset)
        (read_bytes (rm_mem p) (rb_host (rm_blocks p ! i) + offset) TARGET_PAGE_SIZE)\<rparr>)"

end
