(* ===== verification/Pool.thy ===== *)
theory Pool
  imports PageHash
begin

text \<open>
  The pool of threads of \<^verbatim>\<open>migration/hash.c\<close>, for any work whose items do not interfere across threads.
  The locale states that law; inside it a run that returns has the effect of the sequential program, and
  a run from a state in which all workers sleep always returns. A worker that does not yet sleep when it
  is signalled misses its work for good.
\<close>

inductive_cases pool_stepE: "pool_step todo item s s'"

subsection \<open>Who has finished\<close>

text \<open>
  The ghost state of a run: how many items each worker has done, and which workers have finished.
  Workers up to the one the main thread signals next have been signalled.
\<close>

definition signalled :: "'d pool \<Rightarrow> nat \<Rightarrow> bool" where
  "signalled s t \<longleftrightarrow> (case pl_main s of Waking i \<Rightarrow> t < i | _ \<Rightarrow> True)"

definition idle :: "'d pool \<Rightarrow> nat \<Rightarrow> bool" where
  "idle s t \<longleftrightarrow> pl_worker s t = Starting \<or> pl_worker s t = Sleeping"

definition progress_ok :: "(nat \<Rightarrow> nat) \<Rightarrow> (nat \<Rightarrow> nat) \<Rightarrow> nat set \<Rightarrow> 'd pool \<Rightarrow> bool" where
  "progress_ok todo prog F s \<longleftrightarrow>
     F \<subseteq> {..<nthread} \<and> pl_finished s = card F \<and>
     (\<forall>t \<in> F. prog t = todo t \<and> signalled s t \<and> idle s t) \<and>
     (\<forall>t. t < nthread \<and> t \<notin> F \<longrightarrow>
        idle s t \<and> prog t = 0 \<or> pl_worker s t = Working (prog t) \<and> signalled s t \<and> prog t \<le> todo t)"

text \<open>The data after each worker has done so many items, in the order of the workers.\<close>

definition merged :: "(nat \<Rightarrow> nat \<Rightarrow> 'd \<Rightarrow> 'd) \<Rightarrow> nat \<Rightarrow> (nat \<Rightarrow> nat) \<Rightarrow> 'd \<Rightarrow> 'd" where
  "merged item n prog d = fold (\<lambda>t. fold (item t) [0..<prog t]) [0..<n] d"

lemma merged_Suc: "merged item (Suc n) prog d = fold (item n) [0..<prog n] (merged item n prog d)"
  by (simp add: merged_def)

lemma merged_cong: "(\<And>t. t < n \<Longrightarrow> prog t = prog' t) \<Longrightarrow> merged item n prog d = merged item n prog' d"
  by (induction n) (simp_all add: merged_Suc merged_def)

lemma merged_none: "merged item n (\<lambda>_. 0) d = d"
  by (induction n) (simp_all add: merged_def)

lemma progress_idle:
  "progress_ok todo prog F s \<Longrightarrow> t < nthread \<Longrightarrow> t \<notin> F \<Longrightarrow> idle s t \<Longrightarrow> prog t = 0"
  by (auto simp: progress_ok_def idle_def dest!: spec [of _ t])

lemma progress_working:
  assumes "progress_ok todo prog F s" and "t < nthread" and "pl_worker s t = Working k"
  shows "t \<notin> F" and "prog t = k" and "signalled s t" and "k \<le> todo t"
proof -
  show t: "t \<notin> F" using assms by (auto simp: progress_ok_def idle_def)
  show "prog t = k" "signalled s t" "k \<le> todo t"
    using assms t by (auto simp: progress_ok_def idle_def dest!: spec [of _ t])
qed

lemma progress_start:
  "at_rest workers \<Longrightarrow> progress_ok todo (\<lambda>_. 0) {} (pool_start workers d)"
  by (auto simp: progress_ok_def pool_start_def at_rest_def idle_def)

text \<open>No signal is lost: a worker that has been signalled works or has finished, one that has not sleeps.\<close>

definition lively_at :: "nat set \<Rightarrow> 'd pool \<Rightarrow> nat \<Rightarrow> bool" where
  "lively_at F s t \<longleftrightarrow>
     (if signalled s t then t \<in> F \<or> (\<exists>k. pl_worker s t = Working k) else pl_worker s t = Sleeping)"

definition lively :: "nat set \<Rightarrow> 'd pool \<Rightarrow> bool" where
  "lively F s \<longleftrightarrow> (\<forall>t < nthread. lively_at F s t) \<and> (\<forall>i. pl_main s = Waking i \<longrightarrow> i < nthread)"

subsection \<open>Runs end\<close>

text \<open>What is left to do, counted in steps.\<close>

fun worker_rest :: "(nat \<Rightarrow> nat) \<Rightarrow> nat \<Rightarrow> worker \<Rightarrow> nat" where
  "worker_rest todo t Sleeping = 0"
| "worker_rest todo t Starting = 1"
| "worker_rest todo t (Working k) = todo t - k + 2"

fun main_rest :: "(nat \<Rightarrow> nat) \<Rightarrow> waker \<Rightarrow> nat" where
  "main_rest todo (Waking i) = (\<Sum>t \<in> {i..<nthread}. todo t + 3) + 2"
| "main_rest todo Polling = 1"
| "main_rest todo Returned = 0"

definition rest :: "(nat \<Rightarrow> nat) \<Rightarrow> 'd pool \<Rightarrow> nat" where
  "rest todo s = (\<Sum>t < nthread. worker_rest todo t (pl_worker s t)) + main_rest todo (pl_main s)"

lemma sum_worker_upd:
  assumes "t < n"
  shows "(\<Sum>i < n. worker_rest todo i ((w(t := x)) i)) + worker_rest todo t (w t) =
    (\<Sum>i < n. worker_rest todo i (w i)) + worker_rest todo t x"
proof -
  have t: "t \<in> {..<n}" using assms by simp
  have "(\<Sum>i \<in> {..<n} - {t}. worker_rest todo i ((w(t := x)) i)) = (\<Sum>i \<in> {..<n} - {t}. worker_rest todo i (w i))"
    by (rule sum.cong) auto
  then show ?thesis by (simp add: sum.remove [OF _ t])
qed

lemma rest_decreases: "pool_step todo item s s' \<Longrightarrow> rest todo s' < rest todo s"
proof (induction rule: pool_step.induct)
  case (sleep t s)
  then show ?case using sum_worker_upd [of t nthread todo "pl_worker s" Sleeping] by (simp add: rest_def)
next
  case (wake s t)
  let ?m = "if t + 1 < nthread then Waking (t + 1) else Polling"
  have "main_rest todo ?m + todo t + 3 \<le> main_rest todo (Waking t)"
    using wake(2) by (simp add: sum.atLeast_Suc_lessThan)
  moreover have "(\<Sum>i < nthread. worker_rest todo i ((if pl_worker s t = Sleeping then (pl_worker s)(t := Working 0) else pl_worker s) i))
      \<le> (\<Sum>i < nthread. worker_rest todo i (pl_worker s i)) + todo t + 2"
    using sum_worker_upd [OF wake(2), of todo "pl_worker s" "Working 0"] by (cases "pl_worker s t = Sleeping") simp_all
  ultimately show ?case using wake(1) unfolding rest_def by (simp del: main_rest.simps)
next
  case (work t s k)
  then show ?case using sum_worker_upd [of t nthread todo "pl_worker s" "Working (k + 1)"] by (simp add: rest_def)
next
  case (finish t s k)
  then show ?case using sum_worker_upd [of t nthread todo "pl_worker s" Starting] by (simp add: rest_def)
next
  case (return s)
  then show ?case by (simp add: rest_def)
qed

lemma no_endless_run: "wfP (\<lambda>s' s. pool_step todo item s s')"
  by (rule wfp_if_convertible_to_nat [of _ "rest todo"]) (rule rest_decreases)

subsection \<open>Work that does not interfere\<close>

locale independent_work =
  fixes todo :: "nat \<Rightarrow> nat" and item :: "nat \<Rightarrow> nat \<Rightarrow> 'd \<Rightarrow> 'd"
  assumes commute: "t \<noteq> t' \<Longrightarrow> k < todo t \<Longrightarrow> k' < todo t' \<Longrightarrow> item t k (item t' k' d) = item t' k' (item t k d)"
begin

lemma commute_row:
  assumes "t \<noteq> t'" and "k < todo t" and "\<And>j. j \<in> set js \<Longrightarrow> j < todo t'"
  shows "item t k (fold (item t') js d) = fold (item t') js (item t k d)"
  using assms(3) by (induction js arbitrary: d) (simp_all add: commute [OF assms(1,2)])

lemma merged_step:
  assumes "t < n" and "prog t < todo t" and "\<And>t'. t' < n \<Longrightarrow> prog t' \<le> todo t'"
  shows "item t (prog t) (merged item n prog d) = merged item n (prog(t := prog t + 1)) d"
  using assms
proof (induction n)
  case (Suc n)
  show ?case
  proof (cases "t = n")
    case True
    have "merged item n (prog(t := prog t + 1)) d = merged item n prog d"
      using True by (intro merged_cong) simp
    then show ?thesis using True unfolding merged_Suc by simp
  next
    case False
    then have "item t (prog t) (merged item n prog d) = merged item n (prog(t := prog t + 1)) d"
      using Suc by (simp add: fun_upd_def)
    moreover have "item t (prog t) (fold (item n) [0..<prog n] (merged item n prog d)) =
        fold (item n) [0..<prog n] (item t (prog t) (merged item n prog d))"
      using False Suc.prems by (intro commute_row) fastforce+
    ultimately show ?thesis using False unfolding merged_Suc by simp
  qed
qed simp

text \<open>The invariant of a run.\<close>

definition on_track :: "'d \<Rightarrow> 'd pool \<Rightarrow> bool" where
  "on_track d s \<longleftrightarrow>
     (\<exists>prog F. progress_ok todo prog F s \<and> pl_data s = merged item nthread prog d \<and> (pl_main s = Returned \<longrightarrow> F = {..<nthread}))"

lemma progress_step:
  assumes "pool_step todo item s s'" and "progress_ok todo prog F s" and "pl_data s = merged item nthread prog d"
    and "pl_main s = Returned \<longrightarrow> F = {..<nthread}"
  shows "\<exists>prog' F'. progress_ok todo prog' F' s' \<and> pl_data s' = merged item nthread prog' d \<and>
    (pl_main s' = Returned \<longrightarrow> F' = {..<nthread}) \<and> F \<subseteq> F' \<and> (\<forall>t \<in> F' - F. \<exists>k. pl_worker s t = Working k)"
  using assms(1)
proof (cases rule: pool_step.cases)
  case (sleep t)
  then show ?thesis
    using assms(2-4) by (intro exI [of _ prog] exI [of _ F]) (auto simp: progress_ok_def idle_def signalled_def)
next
  case (wake t)
  have "prog t = 0" if "pl_worker s t = Sleeping"
    using wake assms(2) that progress_idle [OF assms(2) wake(3)] by (auto simp: progress_ok_def signalled_def idle_def)
  then show ?thesis
    using wake assms(2-4)
    by (intro exI [of _ prog] exI [of _ F]) (auto simp: progress_ok_def idle_def signalled_def split: if_splits)
next
  case (work t k)
  note t = progress_working [OF assms(2) work(2,3)]
  have le: "prog t' \<le> todo t'" if "t' < nthread" for t'
    using assms(2) that by (cases "t' \<in> F") (auto simp: progress_ok_def)
  have "pl_data s' = merged item nthread (prog(t := prog t + 1)) d"
    using merged_step [of t nthread prog d] work t le assms(3) by simp
  moreover have "progress_ok todo (prog(t := prog t + 1)) F s'"
    using work t assms(2) by (auto simp: progress_ok_def idle_def signalled_def split: if_splits)
  ultimately show ?thesis using work assms(4) by (intro exI [of _ "prog(t := prog t + 1)"] exI [of _ F]) auto
next
  case (finish t k)
  have t: "t \<notin> F" "prog t = todo t" "signalled s t" "finite F"
    using progress_working [OF assms(2) finish(2,3)] finish(4) assms(2) by (auto simp: progress_ok_def intro: finite_subset)
  have "progress_ok todo prog (insert t F) s'"
    using finish t assms(2) by (auto simp: progress_ok_def idle_def signalled_def split: if_splits)
  then show ?thesis
    using finish t assms(3,4) by (intro exI [of _ prog] exI [of _ "insert t F"]) auto
next
  case return
  have "F = {..<nthread}"
    using return assms(2) by (intro card_subset_eq) (auto simp: progress_ok_def)
  then show ?thesis
    using return assms(2-4) by (intro exI [of _ prog] exI [of _ F]) (auto simp: progress_ok_def idle_def signalled_def)
qed

lemma on_track_step: "pool_step todo item s s' \<Longrightarrow> on_track d s \<Longrightarrow> on_track d s'"
  unfolding on_track_def using progress_step [of s s' _ _ d] by blast

lemma on_track_run:
  assumes "at_rest workers" and "(pool_step todo item)\<^sup>*\<^sup>* (pool_start workers d) s"
  shows "on_track d s"
  using assms(2)
proof (induction rule: rtranclp_induct)
  case base
  have "pl_data (pool_start workers d) = merged item nthread (\<lambda>_. 0) d" by (simp add: pool_start_def merged_none)
  then show ?case
    using progress_start [OF assms(1), of todo d] by (auto simp: on_track_def pool_start_def)
next
  case (step s s')
  then show ?case using on_track_step by blast
qed

lemma run_is_sequential:
  assumes "at_rest workers" and "(pool_step todo item)\<^sup>*\<^sup>* (pool_start workers d) s" and "pl_main s = Returned"
  shows "pl_data s = merged item nthread todo d"
proof -
  obtain prog where "progress_ok todo prog {..<nthread} s" "pl_data s = merged item nthread prog d"
    using on_track_run [OF assms(1,2)] assms(3) by (auto simp: on_track_def)
  then show ?thesis using merged_cong [of nthread prog todo item d] by (simp add: progress_ok_def)
qed

text \<open>A worker that has missed its signal is never finished.\<close>

lemma missed_step:
  assumes "pool_step todo item s s'" and "progress_ok todo prog F s" and "pl_data s = merged item nthread prog d"
    and "pl_main s \<noteq> Returned" and "t \<notin> F" and "t < nthread" and "idle s t" and "signalled s t"
  shows "\<exists>prog' F'. progress_ok todo prog' F' s' \<and> pl_data s' = merged item nthread prog' d \<and>
    pl_main s' \<noteq> Returned \<and> t \<notin> F' \<and> idle s' t \<and> signalled s' t"
proof -
  obtain prog' F' where p: "progress_ok todo prog' F' s'" "pl_data s' = merged item nthread prog' d"
    "pl_main s' = Returned \<longrightarrow> F' = {..<nthread}" "\<forall>u \<in> F' - F. \<exists>k. pl_worker s u = Working k"
    using progress_step [OF assms(1-3)] assms(4) by blast
  have t: "t \<notin> F'" using p(4) assms(5,7) by (force simp: idle_def)
  have "idle s' t \<and> signalled s' t"
    using assms(1)
  proof (cases rule: pool_step.cases)
    case (wake u)
    then show ?thesis using assms(7,8) by (auto simp: idle_def signalled_def split: if_splits)
  qed (use assms(7,8) in \<open>auto simp: idle_def signalled_def\<close>)
  then show ?thesis using p t assms(6) by blast
qed

lemma missed_run:
  assumes "(pool_step todo item)\<^sup>*\<^sup>* s s'" and "progress_ok todo prog F s" and "pl_data s = merged item nthread prog d"
    and "pl_main s \<noteq> Returned" and "t \<notin> F" and "t < nthread" and "idle s t" and "signalled s t"
  shows "pl_main s' \<noteq> Returned"
proof -
  have "\<exists>prog F. progress_ok todo prog F s' \<and> pl_data s' = merged item nthread prog d \<and>
    pl_main s' \<noteq> Returned \<and> t \<notin> F \<and> idle s' t \<and> signalled s' t"
    using assms(1)
  proof (induction rule: rtranclp_induct)
    case base
    then show ?case using assms by blast
  next
    case (step u v)
    then show ?case using missed_step [OF step.hyps(2)] assms(6) by blast
  qed
  then show ?thesis by blast
qed

lemma lost_wakeup:
  assumes "at_rest workers" and "workers 0 = Starting"
  obtains s where "pool_step todo item (pool_start workers d) s"
    and "\<And>s'. (pool_step todo item)\<^sup>*\<^sup>* s s' \<Longrightarrow> pl_main s' \<noteq> Returned"
proof -
  let ?s = "(pool_start workers d)\<lparr>pl_main := Waking 1\<rparr>"
  have "pool_step todo item (pool_start workers d) ?s"
    using pool_step.wake [of "pool_start workers d" 0 todo item] assms(2) by (simp add: pool_start_def nthread_def)
  moreover have "progress_ok todo (\<lambda>_. 0) {} ?s"
    using assms(1) by (auto simp: progress_ok_def pool_start_def at_rest_def idle_def)
  moreover have "pl_data ?s = merged item nthread (\<lambda>_. 0) d" by (simp add: pool_start_def merged_none)
  ultimately show thesis
    using missed_run [of ?s _ "\<lambda>_. 0" "{}" d 0] assms(2)
    by (intro that) (auto simp: pool_start_def idle_def signalled_def nthread_def)
qed

text \<open>If all workers sleep at the start, a run only stops when the main thread has returned.\<close>

lemma finished_one:
  assumes "progress_ok todo prog F s" and "progress_ok todo prog' F' s'" and "F \<subseteq> F'"
    and "\<forall>u \<in> F' - F. \<exists>k. pl_worker s u = Working k"
    and "pl_worker s' = (pl_worker s)(t := Starting)" and "pl_finished s' = pl_finished s + 1"
  shows "t \<in> F'"
proof -
  have "F' \<noteq> F" using assms(1,2,6) by (auto simp: progress_ok_def)
  then obtain u where u: "u \<in> F' - F" using assms(3) by blast
  have "idle s' u" using u assms(2) by (simp add: progress_ok_def)
  moreover obtain k where "pl_worker s u = Working k" using u assms(4) by blast
  ultimately have "u = t" using assms(5) by (auto simp: idle_def split: if_splits)
  then show ?thesis using u by simp
qed

lemma lively_step:
  assumes "pool_step todo item s s'" and "progress_ok todo prog F s" and "progress_ok todo prog' F' s'" and "F \<subseteq> F'"
    and "\<forall>u \<in> F' - F. \<exists>k. pl_worker s u = Working k" and "lively F s"
  shows "lively F' s'"
proof -
  have "lively_at F' s' u" if u: "u < nthread" for u
  proof -
    have l: "lively_at F s u" using assms(6) u by (simp add: lively_def)
    show ?thesis
      using assms(1)
    proof (cases rule: pool_step.cases)
      case (sleep t)
      then show ?thesis using l assms(4) by (cases "u = t") (auto simp: lively_at_def signalled_def)
    next
      case (wake t)
      then show ?thesis using l u assms(4) by (cases "u = t") (auto simp: lively_at_def signalled_def split: if_splits)
    next
      case (work t k)
      then show ?thesis
        using l assms(4) progress_working(3) [OF assms(2) work(2,3)] by (cases "u = t") (auto simp: lively_at_def signalled_def)
    next
      case (finish t k)
      then have "t \<in> F'" using finished_one [OF assms(2-5), of t] by simp
      moreover have "signalled s t" using progress_working(3) [OF assms(2) finish(2,3)] .
      ultimately show ?thesis using finish l assms(4) by (cases "u = t") (auto simp: lively_at_def signalled_def)
    next
      case return
      then show ?thesis using l assms(4) by (auto simp: lively_at_def signalled_def)
    qed
  qed
  moreover have "i < nthread" if "pl_main s' = Waking i" for i
    using assms(1) that assms(6) by (cases rule: pool_step.cases) (auto simp: lively_def split: if_splits)
  ultimately show ?thesis by (simp add: lively_def)
qed

lemma lively_run:
  assumes "\<And>t. t < nthread \<Longrightarrow> workers t = Sleeping" and "(pool_step todo item)\<^sup>*\<^sup>* (pool_start workers d) s"
  shows "\<exists>prog F. progress_ok todo prog F s \<and> pl_data s = merged item nthread prog d \<and>
    (pl_main s = Returned \<longrightarrow> F = {..<nthread}) \<and> lively F s"
  using assms(2)
proof (induction rule: rtranclp_induct)
  case base
  have "at_rest workers" using assms(1) by (simp add: at_rest_def)
  moreover have "lively {} (pool_start workers d)"
    using assms(1) by (simp add: lively_def lively_at_def pool_start_def signalled_def nthread_def)
  ultimately show ?case
    using progress_start [of workers todo d] by (auto simp: pool_start_def merged_none intro!: exI [of _ "\<lambda>_. 0"])
next
  case (step s s')
  then obtain prog F where p: "progress_ok todo prog F s" "pl_data s = merged item nthread prog d"
    "pl_main s = Returned \<longrightarrow> F = {..<nthread}" "lively F s" by blast
  obtain prog' F' where q: "progress_ok todo prog' F' s'" "pl_data s' = merged item nthread prog' d"
    "pl_main s' = Returned \<longrightarrow> F' = {..<nthread}" "F \<subseteq> F'" "\<forall>u \<in> F' - F. \<exists>k. pl_worker s u = Working k"
    using progress_step [OF step.hyps(2) p(1-3)] by blast
  then show ?case using lively_step [OF step.hyps(2) p(1) q(1,4,5) p(4)] by blast
qed

lemma no_deadlock:
  assumes "\<And>t. t < nthread \<Longrightarrow> workers t = Sleeping" and "(pool_step todo item)\<^sup>*\<^sup>* (pool_start workers d) s"
    and "\<And>s'. \<not> pool_step todo item s s'"
  shows "pl_main s = Returned"
proof (rule ccontr)
  assume not: "pl_main s \<noteq> Returned"
  obtain prog F where p: "progress_ok todo prog F s" "lively F s" using lively_run [OF assms(1,2)] by blast
  have "pl_main s \<noteq> Waking i" for i
    using assms(3) pool_step.wake [of s i todo item] p(2) by (auto simp: lively_def)
  then have main: "pl_main s = Polling" using not by (cases "pl_main s") auto
  have "pl_worker s t \<noteq> Working k" if "t < nthread" for t k
    using assms(3) pool_step.work [OF that, of s k todo item] pool_step.finish [OF that, of s k todo item] by blast
  then have "{..<nthread} \<subseteq> F" using p(2) main by (auto simp: lively_def lively_at_def signalled_def)
  then have "pl_finished s = nthread" using p(1) by (auto simp: progress_ok_def dest: subset_antisym)
  then show False using assms(3) pool_step.return [OF main] by blast
qed

lemma returns:
  assumes "\<And>t. t < nthread \<Longrightarrow> workers t = Sleeping" and "(pool_step todo item)\<^sup>*\<^sup>* (pool_start workers d) s"
  shows "\<exists>s'. (pool_step todo item)\<^sup>*\<^sup>* s s' \<and> pl_main s' = Returned"
  using no_endless_run [of todo item] assms(2)
proof (induction s rule: wfp_induct_rule)
  case (less s)
  show ?case
  proof (cases "\<exists>s'. pool_step todo item s s'")
    case True
    then obtain s' where s': "pool_step todo item s s'" by blast
    then show ?thesis
      using less.IH [OF s' rtranclp.rtrancl_into_rtrancl [OF less.prems s']] by (blast intro: converse_rtranclp_into_rtranclp)
  next
    case False
    then show ?thesis using no_deadlock [OF assms(1) less.prems] by blast
  qed
qed

end

end
