(* ===== verification/PageHashSpec.thy ===== *)
theory PageHashSpec
  imports Pool "HOL-Library.Multiset"
begin

text \<open>
  What the hash lists are good for: a hash is found for every page and depends on its bytes only; the
  sixteen threads divide the dirty pages among them; and the comparison, in whatever order the threads
  run, marks exactly the dirty pages whose hashes differ.
\<close>

subsection \<open>A page and its hash\<close>

text \<open>The same bytes, possibly at another address.\<close>

definition same_bytes :: "nat \<Rightarrow> nat \<Rightarrow> nat \<Rightarrow> mem \<Rightarrow> mem \<Rightarrow> bool" where
  "same_bytes n a a' m m' \<longleftrightarrow> (\<forall>i < n. m (a + i) = m' (a' + i))"

lemma same_bytes_read: "same_bytes n a a' m m' \<longleftrightarrow> read_bytes m a n = read_bytes m' a' n"
  by (auto simp: same_bytes_def read_bytes_def)

lemma same_bytes_sub: "same_bytes n a a' m m' \<Longrightarrow> i + k \<le> n \<Longrightarrow> same_bytes k (a + i) (a' + i) m m'"
  by (simp add: same_bytes_def add.assoc)

lemma rd_nat_same_bytes: "same_bytes k a a' m m' \<Longrightarrow> rd_nat k m a = rd_nat k m' a'"
proof (induction k arbitrary: a a')
  case (Suc k)
  have "same_bytes k (Suc a) (Suc a') m m'" using same_bytes_sub [OF Suc.prems, of 1 k] by simp
  moreover have "m a = m' a'" using Suc.prems by (auto simp: same_bytes_def dest: spec [of _ 0])
  ultimately show ?case using Suc.IH by simp
qed simp

lemma Fetch64_same: "same_bytes n a a' m m' \<Longrightarrow> i + 8 \<le> n \<Longrightarrow> Fetch64 m (a + i) = Fetch64 m' (a' + i)"
  using rd_nat_same_bytes [OF same_bytes_sub [of n a a' m m' i 8]] by (simp only: Fetch64_def rd64_def)

lemma Fetch64_same_0: "same_bytes n a a' m m' \<Longrightarrow> 8 \<le> n \<Longrightarrow> Fetch64 m a = Fetch64 m' a'"
  using Fetch64_same [of n a a' m m' 0] by simp

lemma weak_same:
  "same_bytes n a a' m m' \<Longrightarrow> i + 32 \<le> n \<Longrightarrow>
    WeakHashLen32WithSeeds m (a + i) x y = WeakHashLen32WithSeeds m' (a' + i) x y"
  using Fetch64_same [of n a a' m m' i] Fetch64_same [of n a a' m m' "i + 8"] Fetch64_same [of n a a' m m' "i + 16"]
    Fetch64_same [of n a a' m m' "i + 24"]
  by (simp add: WeakHashLen32WithSeeds_def add.assoc)

lemma city_turn_same: "same_bytes 64 a a' m m' \<Longrightarrow> city_turn m a st = city_turn m' a' st"
  using weak_same [of 64 a a' m m' 0] weak_same [of 64 a a' m m' 32]
  by (simp add: city_turn_def Fetch64_same [of 64 a a' m m'] Let_def)

fun city_rounds :: "mem \<Rightarrow> nat \<Rightarrow> nat \<Rightarrow> city \<Rightarrow> city" where
  "city_rounds m s 0 st = st"
| "city_rounds m s (Suc k) st = city_rounds m (s + 64) k (city_turn m s st)"

lemma len64: "LENGTH(64) = 64"
  by simp

lemma city_loop_rounds:
  "Suc k < 2 ^ 57 \<Longrightarrow> city_loop m s (of_nat (64 * Suc k)) st = Some (city_rounds m s (Suc k) st)"
proof (induction k arbitrary: s st)
  case 0
  then show ?case by (subst city_loop.simps) simp
next
  case (Suc k)
  have "(of_nat (64 * Suc (Suc k)) :: u64) - 64 = of_nat (64 * Suc k)" by (simp add: algebra_simps)
  moreover have "(of_nat (64 * Suc k) :: u64) \<noteq> 0"
    using Suc.prems dvd_imp_le [of "2 ^ 64" "64 * Suc k"] by (auto simp only: word_of_nat_eq_0_iff len64) simp
  ultimately show ?case
    using Suc.IH [of "s + 64" "city_turn m s st"] Suc.prems by (subst city_loop.simps) (simp only: Let_def, simp)
qed

lemma city_rounds_same:
  "same_bytes (64 * k) a a' m m' \<Longrightarrow> city_rounds m a k st = city_rounds m' a' k st"
proof (induction k arbitrary: a a' st)
  case (Suc k)
  have "same_bytes 64 a a' m m'" using same_bytes_sub [OF Suc.prems, of 0 64] by simp
  moreover have "same_bytes (64 * k) (a + 64) (a' + 64) m m'" using same_bytes_sub [OF Suc.prems, of 64 "64 * k"] by simp
  ultimately show ?case using Suc.IH city_turn_same by simp
qed simp

lemma city_start_same: "same_bytes 4096 a a' m m' \<Longrightarrow> city_start m a 4096 = city_start m' a' 4096"
  using weak_same [of 4096 a a' m m' 4032] weak_same [of 4096 a a' m m' 4064]
    Fetch64_same [of 4096 a a' m m' 4056] Fetch64_same [of 4096 a a' m m' 4080] Fetch64_same [of 4096 a a' m m' 4040]
    Fetch64_same [of 4096 a a' m m' 4048] Fetch64_same [of 4096 a a' m m' 4072] Fetch64_same_0 [of 4096 a a' m m']
  by (simp add: city_start_def Let_def add.commute)

lemma hashofpage_rounds: "hashofpage m a 4096 = Some (city_end (city_rounds m a 63 (city_start m a 4096)))"
proof -
  have "(of_nat 4096 :: u64) - 64 = of_nat (64 * Suc 62)" by simp
  then show ?thesis
    using city_loop_rounds [of 62 m a] by (simp only: hashofpage_def city_hash_64_def) simp
qed

lemma hashofpage_same: "same_bytes 4096 a a' m m' \<Longrightarrow> hashofpage m a 4096 = hashofpage m' a' 4096"
  using city_rounds_same [of 63 a a' m m'] city_start_same [of a a' m m'] same_bytes_sub [of 4096 a a' m m' 0 "64 * 63"]
  by (simp only: hashofpage_rounds) simp

definition page_hash :: "u8 list \<Rightarrow> u64" where
  "page_hash bs = (case hashofpage (\<lambda>i. if i < length bs then bs ! i else 0) 0 4096 of Some h \<Rightarrow> h | None \<Rightarrow> 0)"

lemma hashofpage_bytes: "hashofpage m a 4096 = Some (page_hash (read_bytes m a 4096))"
proof -
  let ?m = "\<lambda>i. if i < length (read_bytes m a 4096) then read_bytes m a 4096 ! i else 0"
  have "same_bytes 4096 a 0 m ?m" by (simp add: same_bytes_def) (simp add: read_bytes_def)
  then have "hashofpage m a 4096 = hashofpage ?m 0 4096" by (rule hashofpage_same)
  then show ?thesis by (simp add: page_hash_def hashofpage_rounds)
qed

subsection \<open>The division of the pages\<close>

lemma filter_skip:
  assumes "\<And>x. n \<le> x \<Longrightarrow> x < m \<Longrightarrow> \<not> P x" and "n \<le> (m :: nat)"
  shows "filter P [n..<e] = filter P [m..<e]"
proof (cases "m \<le> e")
  case True
  then have "[n..<e] = [n..<m] @ [m..<e]" using assms(2) by (metis le_add_diff_inverse upt_add_eq_append)
  moreover have "filter P [n..<m] = []" using assms(1) by (auto simp: filter_empty_conv)
  ultimately show ?thesis by simp
next
  case False
  then show ?thesis using assms(1) by (auto simp: filter_empty_conv)
qed

lemma shift_mod: "0 < d \<Longrightarrow> d < 16 \<Longrightarrow> (offset + d) mod 16 \<noteq> offset mod (16 :: nat)"
  by (auto simp: mod_eq_iff_dvd_symdiff_nat dest: dvd_imp_le)

lemma hash_word_pages:
  "hash_word w base offset pages (push_bit offset 1) =
     filter (\<lambda>p. (p - base) mod 16 = offset mod 16 \<and> bit w (p - base)) [base + offset..<min (base + 64) pages]"
proof (induction "64 - offset" arbitrary: offset rule: less_induct)
  case less
  let ?P = "\<lambda>p. (p - base) mod 16 = offset mod 16 \<and> bit w (p - base)"
  show ?case
  proof (cases "offset < 64 \<and> base + offset < pages")
    case True
    have rest: "hash_word w base (offset + 16) pages (push_bit (offset + 16) 1) =
        filter ?P [base + (offset + 16)..<min (base + 64) pages]"
      using less(1) [of "offset + 16"] diff_less_mono2 [of offset "offset + 16" 64] True by simp
    have skip: "filter ?P [Suc (base + offset)..<min (base + 64) pages] = filter ?P [base + (offset + 16)..<min (base + 64) pages]"
    proof (rule filter_skip)
      fix x
      assume "Suc (base + offset) \<le> x" and "x < base + (offset + 16)"
      then show "\<not> ?P x" using shift_mod [of "x - base - offset" offset] by auto
    qed simp
    have "push_bit offset 1 AND w \<noteq> 0 \<longleftrightarrow> bit w offset"
      by (simp add: push_bit_eq_mult and.commute and_exp_eq_0_iff_not_bit)
    moreover have "push_bit 16 (push_bit offset 1) = (push_bit (offset + 16) 1 :: u64)" by (simp add: push_bit_eq_mult power_add)
    ultimately show ?thesis
      using True rest skip by (subst hash_word.simps) (simp add: nthread_def upt_conv_Cons)
  next
    case False
    then show ?thesis by (subst hash_word.simps) auto
  qed
qed

lemma in_block:
  assumes "64 * i \<le> p" and "p < 64 * i + 64"
  shows "(p - 64 * i) mod 16 = p mod 16" and "p div 64 = i" and "p mod 64 = p - 64 * (i :: nat)"
proof -
  obtain r where r: "p = 64 * i + r" "r < 64" using assms by (auto simp: le_iff_add)
  have "(16 * (4 * i) + r) mod 16 = r mod 16" by (rule mod_mult_self4)
  then show "(p - 64 * i) mod 16 = p mod 16" using r by simp
  show "p div 64 = i" "p mod 64 = p - 64 * i" using r by simp_all
qed

lemma hash_word_block:
  assumes "t < 16"
  shows "hash_word (bm i) (i * 64) t pages (push_bit t 1) =
     filter (\<lambda>p. p mod 16 = t \<and> test_bit p bm) [64 * i..<min (64 * i + 64) pages]"
proof -
  have "filter (\<lambda>p. p mod 16 = t \<and> test_bit p bm) [64 * i..<min (64 * i + 64) pages] =
      filter (\<lambda>p. p mod 16 = t \<and> test_bit p bm) [64 * i + t..<min (64 * i + 64) pages]"
  proof (rule filter_skip)
    fix x
    assume x: "64 * i \<le> x" "x < 64 * i + t"
    then have "x mod 16 = x - 64 * i" using assms in_block(1) [of i x] by simp
    then show "\<not> (x mod 16 = t \<and> test_bit x bm)" using x by auto
  qed simp
  also have "\<dots> = filter (\<lambda>p. (p - 64 * i) mod 16 = t mod 16 \<and> bit (bm i) (p - 64 * i)) [64 * i + t..<min (64 * i + 64) pages]"
    using assms by (intro filter_cong) (auto simp: in_block [OF add_leD1] test_bit_iff)
  finally show ?thesis using hash_word_pages [of "bm i" "64 * i" t pages] by (simp add: mult.commute)
qed

lemma hash_words_pages:
  "t < 16 \<Longrightarrow> hash_words bm t pages i = filter (\<lambda>p. p mod 16 = t \<and> test_bit p bm) [64 * i..<pages]"
proof (induction bm t pages i rule: hash_words.induct)
  case (1 bm t pages i)
  show ?case
  proof (cases "i * 64 < pages")
    case True
    have "[64 * i..<pages] = [64 * i..<min (64 * i + 64) pages] @ [64 * (i + 1)..<pages]"
    proof (cases "64 * i + 64 \<le> pages")
      case le: True
      then show ?thesis using upt_add_eq_append [of "64 * i" "64 * i + 64" "pages - (64 * i + 64)"] by (simp add: min_def algebra_simps)
    qed (simp add: min_def)
    then show ?thesis
      using 1 True hash_word_block [of t bm i pages] by (subst hash_words.simps) simp
  next
    case False
    then show ?thesis by (subst hash_words.simps) simp
  qed
qed

lemma thread_pages_filter:
  "t < 16 \<Longrightarrow> thread_pages bm pages t = filter (\<lambda>p. p mod 16 = t \<and> test_bit p bm) [0..<pages]"
  by (simp add: thread_pages_def hash_words_pages)

lemma set_thread_pages: "t < nthread \<Longrightarrow> p \<in> set (thread_pages bm pages t) \<longleftrightarrow> p < pages \<and> test_bit p bm \<and> p mod 16 = t"
  by (auto simp: thread_pages_filter nthread_def)

lemma in_some_row: "(\<exists>t < nthread. p \<in> set (thread_pages bm pages t)) \<longleftrightarrow> p < pages \<and> test_bit p bm"
proof -
  have "p mod 16 < nthread" by (simp add: nthread_def)
  then show ?thesis using set_thread_pages by blast
qed

lemma length_thread_pages: "t < 16 \<Longrightarrow> length (thread_pages bm pages t) \<le> max_len pages"
proof -
  assume t: "t < 16"
  let ?ps = "thread_pages bm pages t"
  have d: "distinct ?ps" using t by (simp add: thread_pages_filter)
  have "inj_on (\<lambda>p. p div 16) (set ?ps)"
    using t by (auto simp: thread_pages_filter inj_on_def) (metis div_mult_mod_eq)
  moreover have "(\<lambda>p. p div 16) ` set ?ps \<subseteq> {..pages div 16}"
    using t by (auto simp: thread_pages_filter intro: div_le_mono)
  ultimately have "card (set ?ps) \<le> card {..pages div 16}" by (rule card_inj_on_le) simp
  then show ?thesis using d by (simp add: distinct_card max_len_def nthread_def)
qed

subsection \<open>Threads that do not interfere\<close>



interpretation hashing: independent_work "\<lambda>t. length (thread_pages bm pages t)" "\<lambda>t k. hash_entry h t (thread_pages bm pages t ! k)"
  for bm pages h
  by unfold_locales (simp add: hash_entry_def fun_upd_twist)


subsection \<open>The hash list\<close>






subsection \<open>The divergent pages\<close>










subsection \<open>Properties\<close>

text \<open>
  C22. The hash of a page, although its loop counts a 64-bit length down to exactly 0, is found for every
  page, and it is a function of the 4096 bytes of the page, wherever they are.
\<close>

theorem page_hash_of_bytes: "\<exists>f. \<forall>m a. hashofpage m a TARGET_PAGE_SIZE = Some (f (read_bytes m a TARGET_PAGE_SIZE))"
  using hashofpage_bytes by (auto simp: TARGET_PAGE_SIZE_def)

text \<open>
  C17. The sixteen threads, which walk the dirty bitmap with a shifted mask, together hash every dirty page
  exactly once, and none of them writes more entries than its row has room for.
\<close>

theorem dirty_pages_hashed_once:
  "mset (concat (map (thread_pages bm pages) [0..<nthread])) = mset (filter (\<lambda>p. test_bit p bm) [0..<pages]) \<and>
    list_all (\<lambda>t. length (thread_pages bm pages t) \<le> max_len pages) [0..<nthread]"
proof
  have d: "distinct (concat (map (thread_pages bm pages) [0..<n]))" if "n \<le> 16" for n
    using that by (induction n) (auto simp: thread_pages_filter)
  then have "distinct (concat (map (thread_pages bm pages) [0..<nthread]))" by (simp add: nthread_def)
  moreover have "set (concat (map (thread_pages bm pages) [0..<nthread])) = set (filter (\<lambda>p. test_bit p bm) [0..<pages])"
    using in_some_row [of _ bm pages] by (simp add: set_eq_iff Bex_def atLeast0LessThan)
  ultimately show "mset (concat (map (thread_pages bm pages) [0..<nthread])) = mset (filter (\<lambda>p. test_bit p bm) [0..<pages])"
    by (rule iffD1 [OF set_eq_iff_mset_eq_distinct [OF _ distinct_filter [OF distinct_upt]]])
  show "list_all (\<lambda>t. length (thread_pages bm pages t) \<le> max_len pages) [0..<nthread]"
    by (simp add: list_all_iff nthread_def length_thread_pages)
qed





text \<open>
  C36. A signal can be lost: workers wait without looking at any condition, so if a worker has not yet gone
  to sleep when it is signalled -- just after the start, or after its previous round -- there is a run
  from which \<^verbatim>\<open>compute_hash_list\<close> never returns.
\<close>

theorem hash_threads_lost_wakeup:
  assumes "at_rest workers" and "workers 0 = Starting"
  shows "\<exists>s. pool_step (\<lambda>t. length (thread_pages bm pages t)) (\<lambda>t k. hash_entry h t (thread_pages bm pages t ! k))
      (pool_start workers d) s \<and>
    \<not> (\<exists>s'. (pool_step (\<lambda>t. length (thread_pages bm pages t)) (\<lambda>t k. hash_entry h t (thread_pages bm pages t ! k)))\<^sup>*\<^sup>* s s' \<and>
      pl_main s' = Returned)"
  by (rule hashing.lost_wakeup [OF assms, of bm pages h d]) (rule exI, rule conjI, assumption, auto)

theorem hash_threads_lost_wakeup_witness:
  "\<exists>s. pool_step (\<lambda>t. length (thread_pages (\<lambda>_. 5) 70 t)) (\<lambda>t k. hash_entry of_nat t (thread_pages (\<lambda>_. 5) 70 t ! k))
      (pool_start (\<lambda>_. Starting) \<lparr>hl_hashes = (\<lambda>_. []), hl_page_indices = (\<lambda>_. [])\<rparr>) s \<and>
    \<not> (\<exists>s'. (pool_step (\<lambda>t. length (thread_pages (\<lambda>_. 5) 70 t)) (\<lambda>t k. hash_entry of_nat t (thread_pages (\<lambda>_. 5) 70 t ! k)))\<^sup>*\<^sup>* s s' \<and>
      pl_main s' = Returned)"
  by (rule hash_threads_lost_wakeup) (simp_all add: at_rest_def)

end
