(* ===== verification/RamSearch.thy ===== *)
theory RamSearch
  imports RamSync PageHashSpec
begin

text \<open>
  The operations of \<open>RamSync\<close> one by one: the test for a page of zeros, the collection of dirty pages, and the
  search, which goes once around the blocks and sends every page whose bit is set.
\<close>

subsection \<open>A page of zeros\<close>

lemma vec_zero: "vec m p i = replicate 16 0 \<longleftrightarrow> (\<forall>j < 16. m (p + i * 16 + j) = 0)"
  by (auto simp: vec_def read_bytes_def list_eq_iff_nth_eq)

lemma VEC_OR_zero:
  "length v = 16 \<Longrightarrow> length w = 16 \<Longrightarrow> VEC_OR v w = replicate 16 0 \<longleftrightarrow> v = replicate 16 0 \<and> w = replicate 16 0"
  by (auto simp: VEC_OR_def list_eq_iff_nth_eq or_eq_0_iff)

lemma length_vec [simp]: "length (vec m p i) = 16"
  by (simp add: vec_def)

lemma length_VEC_OR [simp]: "length (VEC_OR v w) = min (length v) (length w)"
  by (simp add: VEC_OR_def)

definition zero_vecs :: "mem \<Rightarrow> nat \<Rightarrow> nat \<Rightarrow> nat \<Rightarrow> bool" where
  "zero_vecs m p i n \<longleftrightarrow> (\<forall>k. i \<le> k \<and> k < n \<longrightarrow> vec m p k = replicate 16 0)"

lemma zero_vecs_split: "i \<le> j \<Longrightarrow> j \<le> n \<Longrightarrow> zero_vecs m p i n \<longleftrightarrow> zero_vecs m p i j \<and> zero_vecs m p j n"
  by (auto simp: zero_vecs_def) (metis not_less)

lemma zero_vecs_Suc: "zero_vecs m p i (Suc n) \<longleftrightarrow> zero_vecs m p i n \<and> (i \<le> n \<longrightarrow> vec m p n = replicate 16 0)"
  by (auto simp: zero_vecs_def less_Suc_eq)

lemma zero_vecs_add: "zero_vecs m p i (i + (k + 1)) \<longleftrightarrow> zero_vecs m p i (i + k) \<and> vec m p (i + k) = replicate 16 0"
  by (simp add: zero_vecs_Suc)

lemma zero_vecs_empty: "zero_vecs m p i i"
  by (auto simp: zero_vecs_def)

lemma zero_vecs_8:
  "zero_vecs m p i (i + 8) \<longleftrightarrow> vec m p i = replicate 16 0 \<and> vec m p (i + 1) = replicate 16 0 \<and> vec m p (i + 2) = replicate 16 0 \<and>
    vec m p (i + 3) = replicate 16 0 \<and> vec m p (i + 4) = replicate 16 0 \<and> vec m p (i + 5) = replicate 16 0 \<and>
    vec m p (i + 6) = replicate 16 0 \<and> vec m p (i + 7) = replicate 16 0"
  using zero_vecs_add [of m p i 7] zero_vecs_add [of m p i 6] zero_vecs_add [of m p i 5] zero_vecs_add [of m p i 4]
    zero_vecs_add [of m p i 3] zero_vecs_add [of m p i 2] zero_vecs_add [of m p i 1] zero_vecs_add [of m p i 0]
  by (auto simp: zero_vecs_empty)

lemma nonzero_group_zero:
  "8 dvd n - i \<Longrightarrow> i \<le> n \<Longrightarrow> nonzero_group m p i n \<le> n \<and> (nonzero_group m p i n = n \<longleftrightarrow> zero_vecs m p i n)"
proof (induction m p i n rule: nonzero_group.induct)
  case (1 m p i n)
  show ?case
  proof (cases "i < n")
    case True
    then have n: "i + 8 \<le> n" using 1(2) by (auto dest: dvd_imp_le)
    then have d: "8 dvd n - (i + 8)" using 1(2) by (metis dvd_diff_nat diff_diff_left dvd_refl)
    show ?thesis
    proof (cases "zero_vecs m p i (i + 8)")
      case zero: True
      then have "nonzero_group m p i n = nonzero_group m p (i + 8) n"
        using True by (subst nonzero_group.simps) (simp add: zero_vecs_8 VEC_OR_zero Let_def)
      then show ?thesis
        using 1(1) [OF True refl refl refl refl refl refl] d n zero zero_vecs_split [of i "i + 8" n m p]
        by (simp add: zero_vecs_8 VEC_OR_zero)
    next
      case False
      then have "nonzero_group m p i n = i"
        using True by (subst nonzero_group.simps) (auto simp add: zero_vecs_8 VEC_OR_zero Let_def)
      then show ?thesis using False n zero_vecs_split [of i "i + 8" n m p] by simp
    qed
  next
    case False
    then show ?thesis using 1(3) by (subst (1 2) nonzero_group.simps) (auto simp: zero_vecs_def)
  qed
qed

lemma zero_vecs_bytes: "zero_vecs m p 0 n \<longleftrightarrow> (\<forall>i < n * 16. m (p + i) = 0)"
proof
  assume z: "zero_vecs m p 0 n"
  show "\<forall>i < n * 16. m (p + i) = 0"
  proof (intro allI impI)
    fix i
    assume "i < n * 16"
    then have "vec m p (i div 16) = replicate 16 0" using z by (simp add: zero_vecs_def less_mult_imp_div_less)
    then have "\<forall>j < 16. m (p + i div 16 * 16 + j) = 0" by (simp only: vec_zero)
    then have "m (p + i div 16 * 16 + i mod 16) = 0" by (rule allE [of _ "i mod 16"]) simp
    moreover have "p + i div 16 * 16 + i mod 16 = p + i" by simp
    ultimately show "m (p + i) = 0" by (simp only:)
  qed
next
  assume z: "\<forall>i < n * 16. m (p + i) = 0"
  show "zero_vecs m p 0 n"
    unfolding zero_vecs_def vec_zero
  proof (intro allI impI)
    fix k j :: nat
    assume "0 \<le> k \<and> k < n" and "j < 16"
    then have "k * 16 + j < n * 16" using mult_le_mono1 [of "Suc k" n 16] by simp
    then have "m (p + (k * 16 + j)) = 0" using z by blast
    then show "m (p + k * 16 + j) = 0" by (simp only: add.assoc)
  qed
qed

lemma is_zero_range_iff:
  assumes "128 dvd sz"
  shows "is_zero_range m p sz \<longleftrightarrow> (\<forall>i < sz. m (p + i) = 0)"
proof (cases "sz = 0")
  case True
  then show ?thesis by (simp add: is_zero_range_def buffer_find_nonzero_offset_def)
next
  case False
  obtain k where k: "sz = 128 * k" "0 < k" using assms False by (auto elim!: dvdE)
  have n: "sz div 16 = 8 * k" "sz = sz div 16 * 16" using k by simp_all
  have split: "zero_vecs m p 0 (sz div 16) \<longleftrightarrow> zero_vecs m p 0 8 \<and> zero_vecs m p 8 (sz div 16)"
    using zero_vecs_split [of 0 8 "sz div 16" m p] n k by simp
  have "is_zero_range m p sz \<longleftrightarrow> zero_vecs m p 0 (sz div 16)"
  proof (cases "find (\<lambda>i. vec m p i \<noteq> replicate 16 0) [0..<8]")
    case None
    then have "zero_vecs m p 0 8" by (auto simp: find_None_iff zero_vecs_def)
    moreover have "8 dvd sz div 16 - 8" unfolding n(1) by (simp add: dvd_diff_nat)
    ultimately show ?thesis
      using None nonzero_group_zero [of "sz div 16" 8 m p] split False k n
      by (simp add: is_zero_range_def buffer_find_nonzero_offset_def)
  next
    case (Some i)
    then have "i < 8" "vec m p i \<noteq> replicate 16 0" by (auto simp: find_Some_iff)
    then have "\<not> zero_vecs m p 0 8" by (auto simp: zero_vecs_def)
    then show ?thesis
      using Some split False k \<open>i < 8\<close> by (simp add: is_zero_range_def buffer_find_nonzero_offset_def)
  qed
  then show ?thesis using zero_vecs_bytes [of m p "sz div 16"] n by simp
qed

text \<open>
  C19. The test for a page of zeros, which looks at the first eight vectors one by one and at the others in
  groups of eight, is true exactly if every byte of the page is zero.
\<close>

theorem zero_page_test: "is_zero_range m p TARGET_PAGE_SIZE \<longleftrightarrow> set (read_bytes m p TARGET_PAGE_SIZE) = {0}"
proof -
  have "128 dvd TARGET_PAGE_SIZE" "0 < TARGET_PAGE_SIZE" by (simp_all add: TARGET_PAGE_SIZE_def)
  moreover have "set (read_bytes m p n) = {0} \<longleftrightarrow> (\<forall>i < n. m (p + i) = 0)" if "0 < n" for n
    using that by (auto simp: read_bytes_def)
  ultimately show ?thesis by (simp only: is_zero_range_iff)
qed

subsection \<open>Collecting the dirty pages\<close>

text \<open>Bits move from the log to the bitmap, none is lost, and those of \<open>R\<close> are gone from the log.\<close>

definition synced :: "nat set \<Rightarrow> bitmap \<times> bitmap \<times> u64 \<Rightarrow> bitmap \<times> bitmap \<times> u64 \<Rightarrow> bool" where
  "synced R = (\<lambda>(src, dest, _) (src', dest', _).
     (\<forall>n. (test_bit n src' \<or> test_bit n dest' \<longleftrightarrow> test_bit n src \<or> test_bit n dest) \<and>
       (test_bit n dest \<longrightarrow> test_bit n dest') \<and> (test_bit n src' \<longrightarrow> test_bit n src) \<and> (n \<in> R \<longrightarrow> \<not> test_bit n src')))"

lemma synced_refl: "synced {} t t"
  by (simp add: synced_def split: prod.splits)

lemma synced_trans: "synced R t t' \<Longrightarrow> synced R' t' t'' \<Longrightarrow> synced (R \<union> R') t t''"
  by (simp add: synced_def split: prod.splits) blast

lemma synced_subset: "synced R t t' \<Longrightarrow> R' \<subseteq> R \<Longrightarrow> synced R' t t'"
  by (simp add: synced_def split: prod.splits) blast

lemma synced_fold: "(\<And>x t. synced (R x) t (f x t)) \<Longrightarrow> synced (\<Union>x \<in> set xs. R x) t (fold f xs t)"
proof (induction xs arbitrary: t)
  case Nil
  then show ?case by (simp add: synced_refl)
next
  case (Cons x xs)
  then show ?case using synced_trans [of "R x" t "f x t"] by simp
qed

lemma sync_word_synced: "synced {n. n div 64 = k} t (sync_word k t)"
  by (cases t) (auto simp: synced_def sync_word_def Let_def test_bit_iff bit_simps)

lemma test_and_clear_dirty_page:
  "cpu_physical_memory_test_and_clear_dirty (k * 4096) 4096 log = (test_bit k log, clear_bit k log)"
proof -
  have "(k * 4096 + 4096 + 4095) div 4096 = k + 1" by (simp add: div_mult_self3 [of 4096 "k + 1" 4095, simplified])
  moreover have "min 1 (DIRTY_MEMORY_BLOCK_SIZE - k mod DIRTY_MEMORY_BLOCK_SIZE) = 1"
  proof -
    have "k mod DIRTY_MEMORY_BLOCK_SIZE < DIRTY_MEMORY_BLOCK_SIZE" by (simp add: DIRTY_MEMORY_BLOCK_SIZE_def)
    then show ?thesis by linarith
  qed
  ultimately show ?thesis
    using test_and_clear_one [of log k]
    by (simp add: cpu_physical_memory_test_and_clear_dirty_def TARGET_PAGE_BITS_def TARGET_PAGE_SIZE_def
        test_and_clear_dirty_loop.simps [of k] test_and_clear_dirty_loop.simps [of "Suc k"])
qed

lemma sync_page_eq:
  "\<exists>c'. sync_page (a * 4096) i (src, dest, c) =
    (clear_bit (a + i) src, if test_bit (a + i) src then snd (test_and_set_bit (a + i) dest) else dest, c')"
proof -
  have e: "a * 4096 + i * 4096 = (a + i) * 4096" "(a + i) * 4096 div 2 ^ 12 = a + i" by (simp_all add: add_mult_distrib)
  show ?thesis
    unfolding sync_page_def TARGET_PAGE_SIZE_def TARGET_PAGE_BITS_def Let_def prod.case e test_and_clear_dirty_page
    by (simp add: case_prod_beta)
qed

lemma sync_page_synced: "synced {a + i} t (sync_page (a * 4096) i t)"
proof (cases t)
  case (fields src dest c)
  obtain c' where "sync_page (a * 4096) i t =
    (clear_bit (a + i) src, if test_bit (a + i) src then snd (test_and_set_bit (a + i) dest) else dest, c')"
    using sync_page_eq [of a i src dest c] fields by blast
  then show ?thesis by (auto simp: fields synced_def)
qed

lemma sync_dirty_bitmap_synced:
  "synced {a..<a + len} (src, dest, 0) (cpu_physical_memory_sync_dirty_bitmap (a * 4096) (len * 4096) src dest)"
proof -
  let ?w = "a div 64"
  have "synced (\<Union>k \<in> set [?w..<?w + BITS_TO_LONGS len]. {n. n div 64 = k}) (src, dest, 0)
      (fold sync_word [?w..<?w + BITS_TO_LONGS len] (src, dest, 0))"
    by (rule synced_fold) (rule sync_word_synced)
  moreover have "{a..<a + len} \<subseteq> (\<Union>k \<in> set [?w..<?w + BITS_TO_LONGS len]. {n. n div 64 = k})" if "?w * 64 = a"
  proof
    fix n
    assume "n \<in> {a..<a + len}"
    then have "?w \<le> n div 64" "n div 64 < ?w + BITS_TO_LONGS len"
      using that by (auto simp: BITS_TO_LONGS_def div_le_mono less_mult_imp_div_less)
    then show "n \<in> (\<Union>k \<in> set [?w..<?w + BITS_TO_LONGS len]. {n. n div 64 = k})" by auto
  qed
  moreover have "synced (\<Union>i \<in> set [0..<len]. {a + i}) (src, dest, 0) (fold (sync_page (a * 4096)) [0..<len] (src, dest, 0))"
    by (rule synced_fold) (rule sync_page_synced)
  moreover have "(\<Union>i \<in> set [0..<len]. {a + i}) = {a..<a + len}"
    by (auto simp: le_iff_add)
  moreover have "(len * 4096 + 4095) div 4096 = len" by simp
  ultimately show ?thesis
    using synced_subset [of "\<Union>k \<in> set [?w..<?w + BITS_TO_LONGS len]. {n. n div 64 = k}" "(src, dest, 0)" _ "{a..<a + len}"]
    by (auto simp: cpu_physical_memory_sync_dirty_bitmap_def Let_def TARGET_PAGE_BITS_def TARGET_PAGE_SIZE_def)
qed

definition block_pages :: "RAMBlock \<Rightarrow> nat set" where
  "block_pages block = {first_page block..<first_page block + rb_used_length block div 4096}"

definition aligned :: "RAMBlock \<Rightarrow> bool" where
  "aligned block \<longleftrightarrow> 4096 dvd rb_offset block \<and> 4096 dvd rb_used_length block \<and> 4096 dvd rb_max_length block"

lemma sync_block_synced:
  assumes "aligned block"
  shows "synced (block_pages block) (src, dest, 0)
    (cpu_physical_memory_sync_dirty_bitmap (rb_offset block) (rb_used_length block) src dest)"
  using assms sync_dirty_bitmap_synced [of "rb_offset block div 4096" "rb_used_length block div 4096" src dest]
  by (simp add: aligned_def block_pages_def first_page_def TARGET_PAGE_BITS_def)

lemma synced_count: "synced R (a, b, c) (a', b', c') \<longleftrightarrow> synced R (a, b, 0) (a', b', 0)"
  by (simp add: synced_def)

text \<open>
  Primary and backup collect in the same way, each into its own bitmap. \<open>others\<close> is the state without what a
  collection may change.
\<close>

locale dirty_sync =
  fixes sync_range :: "nat \<Rightarrow> nat \<Rightarrow> ram \<Rightarrow> ram" and bmap :: "ram \<Rightarrow> bitmap" and others :: "ram \<Rightarrow> ram"
  assumes moves: "cpu_physical_memory_sync_dirty_bitmap start len (rm_dirty_memory st) (bmap st) = (log, bm, n) \<Longrightarrow>
      rm_dirty_memory (sync_range start len st) = log \<and> bmap (sync_range start len st) = bm"
    and frame: "others (sync_range start len st) = others st"
begin

lemma sync_one:
  assumes "aligned block"
  shows "synced (block_pages block) (rm_dirty_memory st, bmap st, 0)
    (rm_dirty_memory (sync_range (rb_offset block) (rb_used_length block) st),
     bmap (sync_range (rb_offset block) (rb_used_length block) st), 0)"
proof -
  obtain log bm n where r: "cpu_physical_memory_sync_dirty_bitmap (rb_offset block) (rb_used_length block) (rm_dirty_memory st) (bmap st)
    = (log, bm, n)" by (metis prod_cases3)
  then show ?thesis
    using sync_block_synced [OF assms, of "rm_dirty_memory st" "bmap st"] moves [OF r] synced_count [of _ _ _ _ log bm n] by simp
qed

lemma sync_blocks:
  assumes "\<And>block. block \<in> set bs \<Longrightarrow> aligned block"
    and "st' = fold (\<lambda>block. sync_range (rb_offset block) (rb_used_length block)) bs st"
  shows "synced (\<Union>block \<in> set bs. block_pages block) (rm_dirty_memory st, bmap st, 0) (rm_dirty_memory st', bmap st', 0) \<and>
    others st' = others st"
  using assms
proof (induction bs arbitrary: st)
  case Nil
  then show ?case by (simp add: synced_refl)
next
  case (Cons block bs)
  let ?s = "sync_range (rb_offset block) (rb_used_length block) st"
  have one: "synced (block_pages block) (rm_dirty_memory st, bmap st, 0) (rm_dirty_memory ?s, bmap ?s, 0)"
    using sync_one Cons.prems(1) by simp
  have IH: "synced (\<Union>block \<in> set bs. block_pages block) (rm_dirty_memory ?s, bmap ?s, 0) (rm_dirty_memory st', bmap st', 0) \<and>
    others st' = others ?s" using Cons.IH [of ?s] Cons.prems by simp
  then show ?case using synced_trans [OF one] frame by simp
qed

end

definition but_migration_bmap :: "ram \<Rightarrow> ram" where
  "but_migration_bmap st = st\<lparr>rm_dirty_memory := (\<lambda>_. 0), rm_bmap := (\<lambda>_. 0), rm_migration_dirty_pages := 0\<rparr>"

definition but_backup_bmap :: "ram \<Rightarrow> ram" where
  "but_backup_bmap st = st\<lparr>rm_dirty_memory := (\<lambda>_. 0), rm_backup_bmap := (\<lambda>_. 0), rm_backup_dirty_pages := 0\<rparr>"

interpretation primary_sync: dirty_sync migration_bitmap_sync_range rm_bmap but_migration_bmap
  by unfold_locales (simp_all add: migration_bitmap_sync_range_def but_migration_bmap_def split: prod.splits)

interpretation backup_sync: dirty_sync backup_bitmap_sync_range rm_backup_bmap but_backup_bmap
  by unfold_locales (simp_all add: backup_bitmap_sync_range_def but_backup_bmap_def split: prod.splits)

lemma collected:
  "synced R (log, bm, 0) (log', bm', 0) \<Longrightarrow> n \<in> R \<Longrightarrow> test_bit n bm' \<longleftrightarrow> test_bit n bm \<or> test_bit n log"
  by (auto simp: synced_def)

subsection \<open>The search\<close>

text \<open>A page is given by its block and its offset there.\<close>

definition page_nr :: "RAMBlock list \<Rightarrow> nat \<Rightarrow> nat \<Rightarrow> nat" where
  "page_nr bs i offset = first_page (bs ! i) + offset div 4096"

definition page_in :: "RAMBlock list \<Rightarrow> nat \<Rightarrow> nat \<Rightarrow> bool" where
  "page_in bs i offset \<longleftrightarrow> i < length bs \<and> offset < rb_used_length (bs ! i) \<and> 4096 dvd offset"

definition dirty :: "ram \<Rightarrow> nat \<Rightarrow> nat \<Rightarrow> bool" where
  "dirty st i offset \<longleftrightarrow> page_in (rm_blocks st) i offset \<and> test_bit (page_nr (rm_blocks st) i offset) (search_bitmap st)"

definition blocks_ok :: "RAMBlock list \<Rightarrow> bool" where
  "blocks_ok bs \<longleftrightarrow> (\<forall>block \<in> set bs. aligned block \<and> rb_used_length block \<le> rb_max_length block \<and>
     0 < rb_max_length block \<and> rb_offset block + rb_max_length block < 2 ^ 64) \<and>
     (\<forall>i < length bs. \<forall>j < length bs. i \<noteq> j \<longrightarrow>
        rb_offset (bs ! i) + rb_max_length (bs ! i) \<le> rb_offset (bs ! j) \<or>
        rb_offset (bs ! j) + rb_max_length (bs ! j) \<le> rb_offset (bs ! i))"

text \<open>
  A state in which the search goes over the bitmap: after the bulk stage, with no requested page, with
  pages of the same size on host and guest, and a network card that takes every page.
\<close>

definition ready :: "ram \<Rightarrow> bool" where
  "ready st \<longleftrightarrow> blocks_ok (rm_blocks st) \<and> \<not> rm_bulk_stage st \<and> rm_src_page_requests st = [] \<and> rm_host_page_size st = 4096 \<and>
     rm_hook st = (\<lambda>_. (RAM_SAVE_CONTROL_DELAYED, 1)) \<and>
     (\<exists>b. rm_last_seen_block st = Some b \<and> b < length (rm_blocks st) \<and>
        rm_last_offset st \<le> rb_used_length (rm_blocks st ! b) \<and> 4096 dvd rm_last_offset st)"

text \<open>The state after one page was sent.\<close>

definition sent :: "nat \<Rightarrow> nat \<Rightarrow> ram \<Rightarrow> ram" where
  "sent i offset st =
     (let n = page_nr (rm_blocks st) i offset; bm = clear_bit n (search_bitmap st) in
      (if rm_colo_primary_transfer st then st\<lparr>rm_divergent_bitmap := bm\<rparr> else st\<lparr>rm_bmap := bm\<rparr>)
        \<lparr>rm_migration_dirty_pages := rm_migration_dirty_pages st - 1, rm_hook_calls := rm_hook_calls st + 1,
         rm_rdma := rm_rdma st @ [(i, offset)], rm_bytes_transferred := rm_bytes_transferred st + 1,
         rm_unsentmap := map_option (clear_bit n) (rm_unsentmap st), rm_last_sent_block := Some i\<rparr>)"

lemma sent_fields [simp]:
  "rm_blocks (sent i f st) = rm_blocks st" "rm_mem (sent i f st) = rm_mem st" "rm_rdma (sent i f st) = rm_rdma st @ [(i, f)]"
  "rm_colo_primary_transfer (sent i f st) = rm_colo_primary_transfer st" "rm_bulk_stage (sent i f st) = rm_bulk_stage st"
  "rm_src_page_requests (sent i f st) = rm_src_page_requests st" "rm_host_page_size (sent i f st) = rm_host_page_size st"
  "rm_hook (sent i f st) = rm_hook st" "rm_last_seen_block (sent i f st) = rm_last_seen_block st"
  "rm_last_offset (sent i f st) = rm_last_offset st" "rm_migration_dirty_pages (sent i f st) = rm_migration_dirty_pages st - 1"
  "search_bitmap (sent i f st) = clear_bit (page_nr (rm_blocks st) i f) (search_bitmap st)"
  by (simp_all add: sent_def Let_def search_bitmap_def)

lemma aligned_nth: "blocks_ok bs \<Longrightarrow> i < length bs \<Longrightarrow> aligned (bs ! i)"
  by (simp add: blocks_ok_def)

lemma page_addr: "aligned (bs ! i) \<Longrightarrow> 4096 dvd f \<Longrightarrow> (rb_offset (bs ! i) + f) div 4096 = page_nr bs i f"
  by (auto simp: aligned_def page_nr_def first_page_def TARGET_PAGE_BITS_def elim!: dvdE simp flip: distrib_left)

end
