(* ===== verification/RamLoop.thy ===== *)
theory RamLoop
  imports RamSearch
begin

text \<open>
  The loop over the dirty pages of \<open>RamSync\<close>: one call of \<^verbatim>\<open>ram_find_and_save_block\<close> sends a dirty page if there is
  one, and the loop of \<^verbatim>\<open>ram_save_complete\<close> sends each of them once.
\<close>

subsection \<open>One page\<close>

lemma clear_dirty_page:
  assumes "dirty st i f"
  shows "migration_bitmap_clear_dirty (page_nr (rm_blocks st) i f * 4096) st =
    (True, (if rm_colo_primary_transfer st then st\<lparr>rm_divergent_bitmap := clear_bit (page_nr (rm_blocks st) i f) (search_bitmap st)\<rparr>
            else st\<lparr>rm_bmap := clear_bit (page_nr (rm_blocks st) i f) (search_bitmap st)\<rparr>)
      \<lparr>rm_migration_dirty_pages := rm_migration_dirty_pages st - 1\<rparr>)"
  using assms
  by (simp add: migration_bitmap_clear_dirty_def TARGET_PAGE_BITS_def test_and_clear_bit_eq dirty_def Let_def)

lemma save_page_taken:
  assumes "rm_hook st = (\<lambda>_. (RAM_SAVE_CONTROL_DELAYED, 1))"
  shows "ram_save_page \<lparr>ps_block = i, ps_offset = f, ps_complete_round = c\<rparr> st =
    (1, st\<lparr>rm_hook_calls := rm_hook_calls st + 1, rm_rdma := rm_rdma st @ [(i, f)],
           rm_bytes_transferred := rm_bytes_transferred st + 1\<rparr>)"
  using assms
  by (simp add: ram_save_page_def ram_control_save_page_def RAM_SAVE_CONTROL_DELAYED_def RAM_SAVE_CONTROL_NOT_SUPP_def Let_def)

lemma save_target_page_sent:
  assumes "dirty st i f" and "rm_hook st = (\<lambda>_. (RAM_SAVE_CONTROL_DELAYED, 1))"
  shows "ram_save_target_page \<lparr>ps_block = i, ps_offset = f, ps_complete_round = c\<rparr> (page_nr (rm_blocks st) i f * 4096) st =
    (1, sent i f st)"
  unfolding ram_save_target_page_def clear_dirty_page [OF assms(1)] Let_def prod.case if_True
  using assms(2)
  by (subst save_page_taken) (simp_all add: sent_def TARGET_PAGE_BITS_def Let_def)

lemma and_4095: "4096 dvd f \<Longrightarrow> f AND 4095 = (0 :: nat)"
  using take_bit_eq_mask [of 12 f] by (simp add: mask_eq_exp_minus_1 take_bit_eq_mod mod_eq_0_iff_dvd)

lemma save_host_page_sent:
  assumes "dirty st i f" and "ready st"
  shows "ram_save_host_page \<lparr>ps_block = i, ps_offset = f, ps_complete_round = c\<rparr> (page_nr (rm_blocks st) i f * 4096) st =
    Some (1, \<lparr>ps_block = i, ps_offset = f, ps_complete_round = c\<rparr>, sent i f st)"
proof -
  have "4096 dvd f" using assms(1) by (simp add: dirty_def page_in_def)
  then have "f + 4096 AND 4095 = 0" by (intro and_4095) simp
  then show ?thesis
    using assms(2) save_target_page_sent [OF assms(1), of c]
    by (simp add: ram_save_host_page_def save_host_page_loop.simps [of _ _ 0] ready_def TARGET_PAGE_SIZE_def)
qed

lemma find_dirty_cases:
  assumes "ready st" and "i < length (rm_blocks st)" and "f \<le> rb_used_length (rm_blocks st ! i)" and "4096 dvd f"
  obtains (none) a where "migration_bitmap_find_dirty (rm_blocks st ! i) f st = (rb_used_length (rm_blocks st ! i), a)"
      and "\<And>g. f \<le> g \<Longrightarrow> \<not> dirty st i g"
    | (found) f' where "migration_bitmap_find_dirty (rm_blocks st ! i) f st = (f', page_nr (rm_blocks st) i f' * 4096)"
      and "dirty st i f'" and "f \<le> f'" and "\<And>g. f \<le> g \<Longrightarrow> g < f' \<Longrightarrow> \<not> dirty st i g"
proof -
  let ?b = "rm_blocks st ! i" and ?bm = "search_bitmap st"
  let ?base = "first_page ?b" and ?u = "rb_used_length ?b div 4096"
  let ?k = "first_bit ?bm (?base + ?u) (?base + f div 4096)"
  have al: "aligned ?b" using assms(1,2) by (simp add: ready_def aligned_nth)
  then have u: "rb_used_length ?b = ?u * 4096" by (simp add: aligned_def)
  have le: "?base + f div 4096 \<le> ?base + ?u" using assms(3) by (simp add: div_le_mono)
  have m: "migration_bitmap_find_dirty ?b f st = ((?k - ?base) * 4096, ?k * 4096)"
    using assms(1)
    by (simp add: migration_bitmap_find_dirty_def ready_def find_next_bit_scan first_page_def TARGET_PAGE_BITS_def Let_def)
  have not: "\<not> dirty st i g" if "f \<le> g" "?base + g div 4096 < ?k" for g
    using first_bit_none [of "?base + f div 4096" "?base + g div 4096" ?bm "?base + ?u"] that
    by (simp add: dirty_def page_nr_def div_le_mono)
  show thesis
  proof (cases "?k < ?base + ?u")
    case True
    note k = first_bit_found [OF le True]
    have f': "page_nr (rm_blocks st) i ((?k - ?base) * 4096) = ?k" using k by (simp add: page_nr_def)
    show thesis
    proof (rule found)
      show "migration_bitmap_find_dirty ?b f st = ((?k - ?base) * 4096, page_nr (rm_blocks st) i ((?k - ?base) * 4096) * 4096)"
        using m f' by simp
      have "(?k - ?base) * 4096 < rb_used_length ?b" using u True k by linarith
      then show "dirty st i ((?k - ?base) * 4096)" using assms(2) k by (simp add: dirty_def page_in_def f')
      have "f = f div 4096 * 4096" using assms(4) by simp
      then show "f \<le> (?k - ?base) * 4096" using k by linarith
      show "\<not> dirty st i g" if "f \<le> g" "g < (?k - ?base) * 4096" for g
        using not [of g] that less_mult_imp_div_less [OF that(2)] by linarith
    qed
  next
    case False
    then have "?k = ?base + ?u" using first_bit_bound [OF le, of ?bm] by simp
    then have "migration_bitmap_find_dirty ?b f st = (rb_used_length ?b, ?k * 4096)" using m u by simp
    moreover have "\<not> dirty st i g" if "f \<le> g" for g
    proof (cases "g < rb_used_length ?b")
      case True
      then have "g div 4096 < ?u" using u less_mult_imp_div_less [of g ?u 4096] by simp
      then show ?thesis using not [of g] that \<open>?k = _\<close> by simp
    qed (simp add: dirty_def page_in_def)
    ultimately show thesis by (rule none)
  qed
qed

subsection \<open>Once around the blocks\<close>

abbreviation pss :: "nat \<Rightarrow> nat \<Rightarrow> bool \<Rightarrow> PageSearchStatus" where
  "pss i f c \<equiv> \<lparr>ps_block = i, ps_offset = f, ps_complete_round = c\<rparr>"

lemma no_request: "ready st \<Longrightarrow> get_queued_page p a st = (False, a, p, st)"
  by (subst get_queued_page.simps) (simp add: ready_def unqueue_page_def)

lemma loop_found:
  assumes "ready st" and "migration_bitmap_find_dirty (rm_blocks st ! i) f st = (f', page_nr (rm_blocks st) i f' * 4096)"
    and "dirty st i f'" and "\<not> (c \<and> rm_last_seen_block st = Some i \<and> rm_last_offset st \<le> f')"
  shows "find_and_save_loop (pss i f c) a st = Some (1, pss i f' c, sent i f' st)"
proof -
  have "f' < rb_used_length (rm_blocks st ! i)" using assms(3) by (simp add: dirty_def page_in_def)
  then have "find_dirty_block (pss i f c) st = (True, True, page_nr (rm_blocks st) i f' * 4096, pss i f' c, st)"
    using assms(2,4) by (auto simp: find_dirty_block_def Let_def)
  then show ?thesis
    using save_host_page_sent [OF assms(3,1), of c]
    by (subst find_and_save_loop.simps) (simp add: no_request [OF assms(1)])
qed

lemma loop_next:
  assumes "ready st" and "migration_bitmap_find_dirty (rm_blocks st ! i) f st = (rb_used_length (rm_blocks st ! i), a')"
    and "\<not> (c \<and> rm_last_seen_block st = Some i)" and "i < length (rm_blocks st)"
  shows "find_and_save_loop (pss i f c) a st =
    (if i + 1 < length (rm_blocks st) then find_and_save_loop (pss (i + 1) 0 c) a' st else find_and_save_loop (pss 0 0 True) a' st)"
proof -
  have bulk: "st\<lparr>rm_bulk_stage := False\<rparr> = st" using assms(1) by (simp add: ready_def)
  have "find_dirty_block (pss i f c) st =
    (False, True, a', if i + 1 < length (rm_blocks st) then pss (i + 1) 0 c else pss 0 0 True, st)"
    using assms(2,3) by (auto simp: find_dirty_block_def Let_def bulk)
  then show ?thesis by (subst find_and_save_loop.simps) (simp add: no_request [OF assms(1)])
qed

lemma loop_stop:
  assumes "ready st" and "migration_bitmap_find_dirty (rm_blocks st ! i) f st = (f', a')"
    and "rm_last_seen_block st = Some i" and "rm_last_offset st \<le> f'"
  shows "find_and_save_loop (pss i f True) a st = Some (0, pss i f' True, st)"
  using assms(2-4)
  by (subst find_and_save_loop.simps) (simp add: no_request [OF assms(1)] find_dirty_block_def Let_def)

lemma loop_second_round:
  assumes "ready st" and "rm_last_seen_block st = Some b" and "i \<le> b"
  shows "(\<exists>j g c. dirty st j g \<and> find_and_save_loop (pss i 0 True) a st = Some (1, pss j g c, sent j g st)) \<or>
    (\<forall>j g. i \<le> j \<and> j < b \<longrightarrow> \<not> dirty st j g) \<and> (\<forall>g < rm_last_offset st. \<not> dirty st b g) \<and>
    (\<exists>f. f \<le> rb_used_length (rm_blocks st ! b) \<and> 4096 dvd f \<and> find_and_save_loop (pss i 0 True) a st = Some (0, pss b f True, st))"
  using assms(3)
proof (induction "b - i" arbitrary: i a)
  case 0
  have b: "b < length (rm_blocks st)" "rm_last_offset st \<le> rb_used_length (rm_blocks st ! b)" "4096 dvd rb_used_length (rm_blocks st ! b)"
    using assms(1,2) by (auto simp: ready_def aligned_nth dest!: aligned_nth [of _ b] simp: aligned_def)
  have i: "i = b" using 0 by simp
  show ?case
  proof (rule find_dirty_cases [OF assms(1) b(1) le0 dvd_0_right])
    fix a'
    assume "migration_bitmap_find_dirty (rm_blocks st ! b) 0 st = (rb_used_length (rm_blocks st ! b), a')"
      and none: "\<And>g. 0 \<le> g \<Longrightarrow> \<not> dirty st b g"
    then have "find_and_save_loop (pss b 0 True) a st = Some (0, pss b (rb_used_length (rm_blocks st ! b)) True, st)"
      using loop_stop [OF assms(1) _ assms(2)] b(2) by blast
    then show ?thesis using none b(3) i by auto
  next
    fix f'
    assume f': "migration_bitmap_find_dirty (rm_blocks st ! b) 0 st = (f', page_nr (rm_blocks st) b f' * 4096)" "dirty st b f'"
      and none: "\<And>g. 0 \<le> g \<Longrightarrow> g < f' \<Longrightarrow> \<not> dirty st b g"
    show ?thesis
    proof (cases "rm_last_offset st \<le> f'")
      case True
      then have "find_and_save_loop (pss b 0 True) a st = Some (0, pss b f' True, st)"
        using loop_stop [OF assms(1) f'(1) assms(2)] by simp
      moreover have "f' \<le> rb_used_length (rm_blocks st ! b)" "4096 dvd f'" using f'(2) by (simp_all add: dirty_def page_in_def)
      ultimately show ?thesis using none True i by auto
    next
      case False
      then show ?thesis using loop_found [OF assms(1) f', of True a] f'(2) i by blast
    qed
  qed
next
  case (Suc n)
  have i: "i < b" "i < length (rm_blocks st)" using Suc(2) assms(1,2) by (auto simp: ready_def)
  show ?case
  proof (rule find_dirty_cases [OF assms(1) i(2) le0 dvd_0_right])
    fix a'
    assume f: "migration_bitmap_find_dirty (rm_blocks st ! i) 0 st = (rb_used_length (rm_blocks st ! i), a')"
      and none: "\<And>g. 0 \<le> g \<Longrightarrow> \<not> dirty st i g"
    have "i + 1 < length (rm_blocks st)" using i assms(1,2) by (auto simp: ready_def)
    then have "find_and_save_loop (pss i 0 True) a st = find_and_save_loop (pss (i + 1) 0 True) a' st"
      using loop_next [OF assms(1) f, of True a] i assms(2) by simp
    moreover have "j = i \<or> i + 1 \<le> j" if "i \<le> j" for j using that by linarith
    ultimately show ?thesis using Suc(1) [of "i + 1" a'] Suc(2) i(1) none by (metis Suc_eq_plus1 Suc_leI diff_Suc_1 diff_diff_left le0)
  next
    fix f'
    assume f': "migration_bitmap_find_dirty (rm_blocks st ! i) 0 st = (f', page_nr (rm_blocks st) i f' * 4096)" "dirty st i f'"
    then show ?thesis using loop_found [OF assms(1) f', of True a] i(1) assms(2) by auto
  qed
qed

lemma loop_first_round:
  assumes "ready st" and "i < length (rm_blocks st)" and "f \<le> rb_used_length (rm_blocks st ! i)" and "4096 dvd f"
  shows "(\<exists>j g c. dirty st j g \<and> find_and_save_loop (pss i f False) a st = Some (1, pss j g c, sent j g st)) \<or>
    (\<forall>g \<ge> f. \<not> dirty st i g) \<and> (\<forall>j g. i < j \<longrightarrow> \<not> dirty st j g) \<and>
    (\<exists>a'. find_and_save_loop (pss i f False) a st = find_and_save_loop (pss 0 0 True) a' st)"
  using assms(2-4)
proof (induction "length (rm_blocks st) - i" arbitrary: i f a)
  case (Suc n)
  show ?case
  proof (rule find_dirty_cases [OF assms(1) Suc.prems])
    fix a'
    assume m: "migration_bitmap_find_dirty (rm_blocks st ! i) f st = (rb_used_length (rm_blocks st ! i), a')"
      and none: "\<And>g. f \<le> g \<Longrightarrow> \<not> dirty st i g"
    show ?thesis
    proof (cases "i + 1 < length (rm_blocks st)")
      case True
      then have "find_and_save_loop (pss i f False) a st = find_and_save_loop (pss (i + 1) 0 False) a' st"
        using loop_next [OF assms(1) m, of False a] Suc.prems(1) by simp
      moreover have "j = i + 1 \<or> i + 1 < j" if "i < j" for j using that by linarith
      ultimately show ?thesis using Suc.hyps(1) [of "i + 1" 0 a'] Suc.hyps(2) True none by (metis Suc_eq_plus1 diff_Suc_1 diff_diff_left dvd_0_right le0)
    next
      case False
      then have "find_and_save_loop (pss i f False) a st = find_and_save_loop (pss 0 0 True) a' st"
        using loop_next [OF assms(1) m, of False a] Suc.prems(1) by simp
      moreover have "\<not> dirty st j g" if "i < j" for j g using False that by (simp add: dirty_def page_in_def)
      ultimately show ?thesis using none by blast
    qed
  next
    fix f'
    assume f': "migration_bitmap_find_dirty (rm_blocks st ! i) f st = (f', page_nr (rm_blocks st) i f' * 4096)" "dirty st i f'"
    then show ?thesis using loop_found [OF assms(1) f', of False a] by blast
  qed
qed simp

lemma find_and_save_cases:
  assumes "ready st"
  shows "(\<exists>j g. dirty st j g \<and>
      ram_find_and_save_block st = Some (1, (sent j g st)\<lparr>rm_last_seen_block := Some j, rm_last_offset := g\<rparr>)) \<or>
    (\<forall>j g. \<not> dirty st j g) \<and> (\<exists>b f. b < length (rm_blocks st) \<and> f \<le> rb_used_length (rm_blocks st ! b) \<and> 4096 dvd f \<and>
      ram_find_and_save_block st = Some (0, st\<lparr>rm_last_seen_block := Some b, rm_last_offset := f\<rparr>))"
proof -
  obtain b where b: "rm_last_seen_block st = Some b" "b < length (rm_blocks st)"
    "rm_last_offset st \<le> rb_used_length (rm_blocks st ! b)" "4096 dvd rm_last_offset st"
    using assms by (auto simp: ready_def)
  have e: "ram_find_and_save_block st = (case find_and_save_loop (pss b (rm_last_offset st) False) 0 st of
      None \<Rightarrow> None
    | Some (pages, p, st) \<Rightarrow> Some (pages, st\<lparr>rm_last_seen_block := Some (ps_block p), rm_last_offset := ps_offset p\<rparr>))"
    by (simp add: ram_find_and_save_block_def b(1) Let_def)
  show ?thesis
    using loop_first_round [OF assms b(2-4), of 0]
  proof
    assume "\<exists>j g c. dirty st j g \<and> find_and_save_loop (pss b (rm_last_offset st) False) 0 st = Some (1, pss j g c, sent j g st)"
    then obtain j g c where d: "dirty st j g" and "find_and_save_loop (pss b (rm_last_offset st) False) 0 st = Some (1, pss j g c, sent j g st)"
      by blast
    then have "ram_find_and_save_block st = Some (1, (sent j g st)\<lparr>rm_last_seen_block := Some j, rm_last_offset := g\<rparr>)"
      using e by simp
    then show ?thesis using d by blast
  next
    assume "(\<forall>g \<ge> rm_last_offset st. \<not> dirty st b g) \<and> (\<forall>j g. b < j \<longrightarrow> \<not> dirty st j g) \<and>
      (\<exists>a'. find_and_save_loop (pss b (rm_last_offset st) False) 0 st = find_and_save_loop (pss 0 0 True) a' st)"
    then obtain a' where first: "\<forall>g \<ge> rm_last_offset st. \<not> dirty st b g" "\<forall>j g. b < j \<longrightarrow> \<not> dirty st j g"
      and a': "find_and_save_loop (pss b (rm_last_offset st) False) 0 st = find_and_save_loop (pss 0 0 True) a' st" by blast
    show ?thesis
      using loop_second_round [OF assms b(1) le0, of a']
    proof
      assume "\<exists>j g c. dirty st j g \<and> find_and_save_loop (pss 0 0 True) a' st = Some (1, pss j g c, sent j g st)"
      then obtain j g c where d: "dirty st j g" and "find_and_save_loop (pss 0 0 True) a' st = Some (1, pss j g c, sent j g st)"
        by blast
      then have "ram_find_and_save_block st = Some (1, (sent j g st)\<lparr>rm_last_seen_block := Some j, rm_last_offset := g\<rparr>)"
        using e a' by simp
      then show ?thesis using d by blast
    next
      assume "(\<forall>j g. 0 \<le> j \<and> j < b \<longrightarrow> \<not> dirty st j g) \<and> (\<forall>g < rm_last_offset st. \<not> dirty st b g) \<and>
        (\<exists>f \<le> rb_used_length (rm_blocks st ! b). 4096 dvd f \<and> find_and_save_loop (pss 0 0 True) a' st = Some (0, pss b f True, st))"
      then obtain f where second: "\<forall>j g. j < b \<longrightarrow> \<not> dirty st j g" "\<forall>g < rm_last_offset st. \<not> dirty st b g"
        and f: "f \<le> rb_used_length (rm_blocks st ! b)" "4096 dvd f"
          "find_and_save_loop (pss 0 0 True) a' st = Some (0, pss b f True, st)" by auto
      have "\<not> dirty st j g" for j g
        using first second by (metis linorder_neqE_nat not_less)
      then show ?thesis using e a' f b(2) by auto
    qed
  qed
qed

subsection \<open>All pages\<close>

lemma page_nr_inj:
  assumes "blocks_ok bs" and "page_in bs i f" and "page_in bs j g" and "page_nr bs i f = page_nr bs j g"
  shows "i = j \<and> f = g"
proof -
  have a: "aligned (bs ! i)" "aligned (bs ! j)" and in_bs: "i < length bs" "j < length bs"
    and d: "4096 dvd f" "4096 dvd g" and lt: "f < rb_used_length (bs ! i)" "g < rb_used_length (bs ! j)"
    using assms(1-3) by (auto simp: page_in_def aligned_nth)
  have "(rb_offset (bs ! i) + f) div 4096 * 4096 = rb_offset (bs ! i) + f" "(rb_offset (bs ! j) + g) div 4096 * 4096 = rb_offset (bs ! j) + g"
    using a d by (simp_all add: aligned_def)
  then have eq: "rb_offset (bs ! i) + f = rb_offset (bs ! j) + g"
    using assms(4) page_addr [OF a(1) d(1)] page_addr [OF a(2) d(2)] by simp
  have "rb_used_length (bs ! i) \<le> rb_max_length (bs ! i)" "rb_used_length (bs ! j) \<le> rb_max_length (bs ! j)"
    using assms(1) in_bs by (simp_all add: blocks_ok_def)
  then have "\<not> (rb_offset (bs ! i) + rb_max_length (bs ! i) \<le> rb_offset (bs ! j) \<or>
      rb_offset (bs ! j) + rb_max_length (bs ! j) \<le> rb_offset (bs ! i))" using eq lt by linarith
  then have "i = j" using assms(1) in_bs by (auto simp: blocks_ok_def)
  then show ?thesis using eq by simp
qed

definition dirty_set :: "ram \<Rightarrow> (nat \<times> nat) set" where
  "dirty_set st = {(i, f). dirty st i f}"

lemma finite_dirty_set: "finite (dirty_set st)"
proof (rule finite_subset)
  show "dirty_set st \<subseteq> (SIGMA i:{..<length (rm_blocks st)}. {..<rb_used_length (rm_blocks st ! i)})"
    by (auto simp: dirty_set_def dirty_def page_in_def)
qed auto

lemma search_bitmap_position [simp]:
  "search_bitmap (st\<lparr>rm_last_seen_block := b\<rparr>) = search_bitmap st" "search_bitmap (st\<lparr>rm_last_offset := f\<rparr>) = search_bitmap st"
  by (simp_all add: search_bitmap_def)

lemma dirty_set_sent:
  assumes "blocks_ok (rm_blocks st)" and "dirty st j g"
  shows "dirty_set ((sent j g st)\<lparr>rm_last_seen_block := b, rm_last_offset := f\<rparr>) = dirty_set st - {(j, g)}"
  using assms page_nr_inj [OF assms(1), of _ _ j g]
  by (auto simp: dirty_set_def dirty_def)

lemma ready_sent:
  assumes "ready st" and "dirty st j g"
  shows "ready ((sent j g st)\<lparr>rm_last_seen_block := Some j, rm_last_offset := g\<rparr>)"
  using assms by (auto simp: ready_def dirty_def page_in_def)

lemma save_remaining_all:
  assumes "ready st"
  shows "\<exists>q L. save_remaining st = Some q \<and> rm_rdma q = rm_rdma st @ L \<and> distinct L \<and> set L = dirty_set st \<and> ready q \<and>
    dirty_set q = {} \<and> rm_blocks q = rm_blocks st \<and> rm_mem q = rm_mem st \<and>
    rm_migration_dirty_pages q = rm_migration_dirty_pages st - of_nat (length L)"
  using assms
proof (induction "card (dirty_set st)" arbitrary: st rule: less_induct)
  case less
  show ?case
    using find_and_save_cases [OF less.prems]
  proof (elim disjE exE conjE)
    fix j g
    let ?s = "(sent j g st)\<lparr>rm_last_seen_block := Some j, rm_last_offset := g\<rparr>"
    assume d: "dirty st j g" and e: "ram_find_and_save_block st = Some (1, ?s)"
    have D: "dirty_set ?s = dirty_set st - {(j, g)}" "(j, g) \<in> dirty_set st"
      using dirty_set_sent [OF _ d] less.prems d by (simp_all add: ready_def dirty_set_def)
    then have "card (dirty_set ?s) < card (dirty_set st)" using finite_dirty_set [of st] by (simp only:) (rule card_Diff1_less)
    from less.hyps [OF this ready_sent [OF less.prems d]]
    obtain q L where q: "save_remaining ?s = Some q" "rm_rdma q = rm_rdma ?s @ L" "distinct L" "set L = dirty_set ?s" "ready q"
      "dirty_set q = {}" "rm_blocks q = rm_blocks ?s" "rm_mem q = rm_mem ?s"
      "rm_migration_dirty_pages q = rm_migration_dirty_pages ?s - of_nat (length L)" by blast
    have "save_remaining st = Some q" using e q(1) by (subst save_remaining.simps) simp
    moreover have "rm_rdma q = rm_rdma st @ (j, g) # L" "distinct ((j, g) # L)" "set ((j, g) # L) = dirty_set st"
      "rm_blocks q = rm_blocks st" "rm_mem q = rm_mem st"
      "rm_migration_dirty_pages q = rm_migration_dirty_pages st - of_nat (length ((j, g) # L))"
      using q D by (auto simp: algebra_simps)
    ultimately show ?thesis using q(5,6) by blast
  next
    fix b f
    let ?q = "st\<lparr>rm_last_seen_block := Some b, rm_last_offset := f\<rparr>"
    assume none: "\<forall>j g. \<not> dirty st j g" and b: "b < length (rm_blocks st)" "f \<le> rb_used_length (rm_blocks st ! b)" "4096 dvd f"
      and e: "ram_find_and_save_block st = Some (0, ?q)"
    have "save_remaining st = Some ?q" using e by (subst save_remaining.simps) simp
    moreover have "ready ?q" using less.prems b by (simp add: ready_def)
    moreover have "dirty_set st = {}" using none by (simp add: dirty_set_def)
    moreover have "dirty_set ?q = {}" using none by (simp add: dirty_set_def dirty_def)
    ultimately show ?thesis by (intro exI [of _ ?q] exI [of _ "[]"]) simp
  qed
qed

end
