(* ===== verification/RamSyncSpec.thy ===== *)
theory RamSyncSpec
  imports RamLoop
begin

text \<open>
  A whole checkpoint of guest memory: primary and backup exchange their dirty bitmaps, hash the pages that
  are dirty on either side, and the primary sends the pages that differ. Afterwards the memories agree.
\<close>

subsection \<open>The hashes on the wire\<close>



subsection \<open>Pages and addresses\<close>










subsection \<open>The pages that are written\<close>




lemma rdma_write_blocks [simp]: "rm_blocks (rdma_write p x b) = rm_blocks b"
  by (cases x) (simp add: rdma_write_def)



subsection \<open>A checkpoint\<close>










lemma put_stream_fields [simp]:
  "rm_rdma (qemu_put_be64 v st) = rm_rdma st" "rm_mem (qemu_put_be64 v st) = rm_mem st" "rm_blocks (qemu_put_be64 v st) = rm_blocks st"
  "rm_bmap (qemu_put_be64 v st) = rm_bmap st" "ready (qemu_put_be64 v st) = ready st"
  by (simp_all add: qemu_put_be64_def qemu_put_buffer_def ready_def)

lemma ready_bmap [simp]: "ready (st\<lparr>rm_bmap := bm\<rparr>) = ready st"
  by (simp add: ready_def)



subsection \<open>Properties\<close>











end
