(* ===== verification/Spec2Isabelle.thy ===== *)
theory Spec2Isabelle
  imports LogProps KvsSpec EpDb ProxySpec RcRepSpec System VoteSpec PruneSpec RamSyncSpec
begin

text \<open>
  A model of a fault-tolerant virtual machine and theorems about it: of \<^verbatim>\<open>rdma-paxos\<close>, its replication layer,
  and of the parts of the forked emulator \<^verbatim>\<open>qemu\<close> that make a checkpoint of the guest memory. The virtual machine of the primary hands its input packets and checkpoint requests to a proxy;
  the proxy queues them for a consensus thread; that thread is a server of the DARE protocol, which
  replicates a log by remote direct memory access (RDMA) and applies the committed commands on every
  server by calling the proxy again. When a checkpoint is committed, the emulators of primary and backup
  stop their guests, compare the pages that were written since the last checkpoint by their hashes, and
  the primary sends those that differ. Paths below are under \<^verbatim>\<open>src/rdma-paxos\<close>, and for the emulator under
  \<^verbatim>\<open>src/qemu\<close>.

  \<^bold>\<open>Parts of the program and theories.\<close>

  \<^item> Prelude, ByteMem: fixed-width words, bounded loops, and memory as a function from addresses to
    bytes with little-endian reads and writes.
  \<^item> Sid: the state identifier \<open>[TERM|L|IDX]\<close> of \<^verbatim>\<open>src/include/dare/dare_server.h\<close> and the work request
    identifier \<open>[SSN|WA|TAG|CONN]\<close> of \<^verbatim>\<open>dare_ibv_rc.h\<close>, as bit fields of 64-bit words. A locale states the
    laws of a field (reading what was set, setting what was read); it is interpreted for each field.
    The order of the words is the lexicographic order of the fields.
  \<^item> Config: the configuration identifier of \<^verbatim>\<open>dare_config.h\<close> with its bitmask and the group sizes.
  \<^item> Log: \<^verbatim>\<open>dare_log.h\<close> at the level of bytes. An entry is 48 bytes with its command behind it; offsets
    are 64-bit words. LogSpec gives the meaning of a log as three lists of entries (applied, committed,
    not committed) that are laid out from the head, apply and commit offsets to the end, and the
    invariant \<open>log_repr\<close>; LogAppend shows that appending keeps it; LogOrder is the order of offsets in the
    circular buffer; LogProps holds the theorems about the operations.
  \<^item> Kvs: the key-value state machine \<^verbatim>\<open>dare_kvs_sm.c\<close>; KvsSpec shows that it refines a map.
  \<^item> RbTree: \<^verbatim>\<open>utils/rbtree\<close>, with the way up to the root in place of parent pointers; RbTreeSpec shows
    that insertion and erasure keep the red-black invariant and never follow a null pointer.
  \<^item> EpDb: the endpoint database \<^verbatim>\<open>dare_ep_db.c\<close> on these trees, which refines a map from LIDs.
  \<^item> Proxy, ProxySpec: \<^verbatim>\<open>proxy.c\<close> and the record store \<^verbatim>\<open>db-interface.c\<close>.
  \<^item> State: the structures of a server process and the world around it; Boot: its start.
  \<^item> RcPoll: posting of sends and handling of completions in \<^verbatim>\<open>dare_ibv_rc.c\<close>; RcOps: the operations on
    other servers (votes, heart-beats, recovery, log access); RcRep: log replication; RcRepSpec: the
    commit rule.
  \<^item> Server: the roles of a server, the update of its state identifier and its change to candidate and
    follower in \<^verbatim>\<open>dare_server.c\<close>, with the verification of leadership; Ud: the messages of \<^verbatim>\<open>dare_ibv_ud.c\<close>
    (join protocol, connection handshake, client answers, submission queue); Apply: commit, application
    and pruning of entries; Vote: elections; Events: the callbacks of the event loop.
  \<^item> Frame: which parts of the state an operation leaves alone, proved once in locales for any predicate
    that only depends on those parts; System: the process as a step relation over the callbacks in any
    order, with its invariants; VoteSpec: the safety of elections.
  \<^item> ApplySpec: what a run of \<^verbatim>\<open>apply_committed_entries\<close> delivers to the virtual machine, and the way of a
    submitted command from the queue of the proxy through the log to its release; PruneSpec: which
    entries pruning may drop.
  \<^item> Bitmap: the bitmaps of the emulator (\<^verbatim>\<open>include/qemu/bitops.h\<close>, \<^verbatim>\<open>util/bitmap.c\<close>, \<^verbatim>\<open>util/bitops.c\<close>), each
    operation characterised by the bits it sets.
  \<^item> PageHash: \<^verbatim>\<open>migration/hash.c\<close>, the hash of a page and the pool of threads that hash and compare pages,
    as a step relation; Pool: a locale for work that does not interfere, in which the result of a run is
    shown not to depend on the order of the steps; PageHashSpec interprets it for the two kinds of work.
  \<^item> RamSync: the checkpoint of memory in \<^verbatim>\<open>migration/ram.c\<close>; RamSearch: its operations one by one, with a
    locale for the collection of dirty pages that primary and backup share; RamLoop: the search over all
    blocks; RamSyncSpec: a whole checkpoint makes the memories equal.

  \<^bold>\<open>Conventions.\<close> A structure is a record with the fields of the source under a prefix, an array indexed
  by a server is a function from natural numbers, 64-bit offsets and counters are words that wrap. A
  function of the source that may end the process or wait for ever returns a \<open>result\<close>, whose cases are
  the ways in which it ends. A loop that need not end is a \<open>partial_function\<close> with \<open>None\<close> for a run
  without end, and the theorems say where it ends. The model is that of a build without \<^verbatim>\<open>DEBUG\<close>;
  messages to the log file are left out.

  \<^bold>\<open>The world outside.\<close> libibverbs, libev, Berkeley DB and the memory allocator are not part of the
  sources. The state carries scripts of their answers: each poll of a completion queue takes one
  element, which says what the network card wrote into the memory that remote servers can access and
  which completions it reports; when a script of polls is used up, a loop that waits for a completion
  ends with \<open>Hang\<close>. So a theorem about all states is about all behaviours of the network.

  \<^bold>\<open>Fuel.\<close> Two functions take a bound: the loop of \<^verbatim>\<open>rc_write_remote_logs\<close>, which the code itself limits
  to 1000 rounds, and \<open>ep_db_free\<close>, whose theorem says that the number of endpoints is enough.

  \<^bold>\<open>Not modelled.\<close> The set-up of the device, of its queue pairs and of the multicast group, the LogGP
  measurements and the parsers of the configuration files: calls of libraries that compute nothing. Of
  the emulator: devices, instruction translation and user interface, which the fork takes over unchanged;
  the network card and the accelerator, which appear as answers and as a log of written pages; the order
  of messages in \<^verbatim>\<open>migration/colo.c\<close>; compression of pages and migration by request; hash functions that
  the build does not choose.
\<close>

end
